(* ===== verification/GoStrconv.thy ===== *)
theory GoStrconv imports GoStd begin

text \<open>
  \<open>strconv\<close> in base 10: \<open>ParseUint\<close>, \<open>ParseInt\<close>, \<open>ParseBool\<close>, \<open>FormatInt\<close>, \<open>FormatUint\<close>,
  \<open>FormatBool\<close> and \<open>Quote\<close>. The conversions of a parsed value to a sized Go integer are on words.
\<close>

section \<open>Formatting\<close>

definition digit_char :: "nat \<Rightarrow> char" where
  [go_std]: "digit_char d = char_of (48 + d)"

definition digit_val :: "char \<Rightarrow> nat" where
  [go_std]: "digit_val c = of_char c - 48"

function show_nat :: "nat \<Rightarrow> string" where
  "show_nat n = (if n < 10 then [digit_char n] else show_nat (n div 10) @ [digit_char (n mod 10)])"
  by pat_completeness auto
termination
  by (relation "measure id") auto

declare show_nat.simps [simp del]

definition FormatUint :: "nat \<Rightarrow> string" where
  [go_std]: "FormatUint n = show_nat n"

definition FormatInt :: "int \<Rightarrow> string" where
  [go_std]: "FormatInt i = (if i < 0 then CHR ''-'' # show_nat (nat (- i)) else show_nat (nat i))"

definition FormatBool :: "bool \<Rightarrow> string" where
  [go_std]: "FormatBool b = (if b then ''true'' else ''false'')"

section \<open>Parsing\<close>

datatype num_error = ErrSyntax | ErrRange

text \<open>
  The digit loop of \<open>ParseUint\<close>: a byte that is no digit is a syntax error, a value past the
  maximum a range error, whichever comes first from the left.
\<close>

fun parse_digits :: "nat \<Rightarrow> string \<Rightarrow> nat \<Rightarrow> num_error + nat" where
  "parse_digits mx [] n = Inr n"
| "parse_digits mx (c # cs) n =
     (if \<not> is_digit c then Inl ErrSyntax
      else if mx < 10 * n + digit_val c then Inl ErrRange
      else parse_digits mx cs (10 * n + digit_val c))"

definition ParseUint :: "string \<Rightarrow> nat \<Rightarrow> num_error + nat" where
  [go_std]: "ParseUint s bits = (if s = [] then Inl ErrSyntax else parse_digits (2 ^ bits - 1) s 0)"

definition parse_signed :: "bool \<Rightarrow> string \<Rightarrow> nat \<Rightarrow> num_error + int" where
  [go_std]: "parse_signed neg s bits =
     (case ParseUint s bits of
        Inl e \<Rightarrow> Inl e
      | Inr un \<Rightarrow>
          if \<not> neg \<and> 2 ^ (bits - 1) \<le> un then Inl ErrRange
          else if neg \<and> 2 ^ (bits - 1) < un then Inl ErrRange
          else Inr (if neg then - int un else int un))"

definition ParseInt :: "string \<Rightarrow> nat \<Rightarrow> num_error + int" where
  [go_std]: "ParseInt s bits =
     (case s of
        [] \<Rightarrow> Inl ErrSyntax
      | c # cs \<Rightarrow>
          if c = CHR ''+'' then parse_signed False cs bits
          else if c = CHR ''-'' then parse_signed True cs bits
          else parse_signed False s bits)"

definition ParseBool_std :: "string \<Rightarrow> num_error + bool" where
  [go_std]: "ParseBool_std s =
     (if s \<in> set [''1'', ''t'', ''T'', ''true'', ''TRUE'', ''True''] then Inr True
      else if s \<in> set [''0'', ''f'', ''F'', ''false'', ''FALSE'', ''False''] then Inr False
      else Inl ErrSyntax)"

section \<open>Quoting\<close>

definition hex_digit :: "nat \<Rightarrow> char" where
  [go_std]: "hex_digit d = (if d < 10 then char_of (48 + d) else char_of (87 + d))"

definition quote_char :: "char \<Rightarrow> string" where
  [go_std]: "quote_char c =
     (let n = of_char c :: nat in
      if n = 34 \<or> n = 92 then [CHR 0x5C, c]
      else if n = 7 then [CHR 0x5C, CHR ''a'']
      else if n = 8 then [CHR 0x5C, CHR ''b'']
      else if n = 12 then [CHR 0x5C, CHR ''f'']
      else if n = 10 then [CHR 0x5C, CHR ''n'']
      else if n = 13 then [CHR 0x5C, CHR ''r'']
      else if n = 9 then [CHR 0x5C, CHR ''t'']
      else if n = 11 then [CHR 0x5C, CHR ''v'']
      else if n < 32 \<or> n = 127 then [CHR 0x5C, CHR ''x'', hex_digit (n div 16), hex_digit (n mod 16)]
      else [c])"

definition go_quote :: "string \<Rightarrow> string" where
  [go_std]: "go_quote s = [CHR 0x22] @ concat (map quote_char s) @ [CHR 0x22]"

definition num_error_text :: "string \<Rightarrow> string \<Rightarrow> num_error \<Rightarrow> string" where
  [go_std]: "num_error_text fn s e =
     ''strconv.'' @ fn @ '': parsing '' @ go_quote s @ '': '' @
     (case e of ErrSyntax \<Rightarrow> ''invalid syntax'' | ErrRange \<Rightarrow> ''value out of range'')"

section \<open>Round trips\<close>

lemma digit_char_val [simp]: "d < 10 \<Longrightarrow> digit_val (digit_char d) = d"
  by (simp add: digit_val_def digit_char_def)

lemma digit_char_is_digit [simp]: "d < 10 \<Longrightarrow> is_digit (digit_char d)"
  by (simp add: is_digit_def digit_char_def less_eq_char_def)

lemma show_nat_nonempty [simp]: "show_nat n \<noteq> []"
  by (subst show_nat.simps) simp

lemma show_nat_digits: "c \<in> set (show_nat n) \<Longrightarrow> is_digit c"
proof (induction n rule: show_nat.induct)
  case (1 n)
  then show ?case
    by (cases "n < 10") (auto simp: show_nat.simps[of n])
qed

lemma parse_digits_append:
  "parse_digits mx (xs @ ys) n =
     (case parse_digits mx xs n of Inl e \<Rightarrow> Inl e | Inr m \<Rightarrow> parse_digits mx ys m)"
  by (induction xs arbitrary: n) auto

lemma parse_digits_le: "parse_digits mx s n = Inr m \<Longrightarrow> n \<le> mx \<Longrightarrow> m \<le> mx"
  by (induction s arbitrary: n) (auto split: if_splits)

lemma parse_digits_show: "n \<le> mx \<Longrightarrow> parse_digits mx (show_nat n) 0 = Inr n"
proof (induction n rule: show_nat.induct)
  case (1 n)
  show ?case
  proof (cases "n < 10")
    case True
    with 1 show ?thesis by (simp add: show_nat.simps[of n])
  next
    case False
    have "n div 10 \<le> mx" using "1.prems" by linarith
    with False 1 have "parse_digits mx (show_nat (n div 10)) 0 = Inr (n div 10)" by simp
    with False 1 show ?thesis
      by (simp add: show_nat.simps[of n] parse_digits_append)
  qed
qed

lemma ParseUint_Format [simp]: "n < 2 ^ bits \<Longrightarrow> ParseUint (FormatUint n) bits = Inr n"
  by (simp add: ParseUint_def FormatUint_def parse_digits_show)

lemma le_pow_pred: "n \<le> 2 ^ b - Suc 0 \<Longrightarrow> n < (2::nat) ^ b"
  by (metis One_nat_def Suc_pred less_Suc_eq_le zero_less_numeral zero_less_power)

lemma int_less_pow: "n < 2 ^ k \<Longrightarrow> int n < 2 ^ k"
  by (metis of_nat_less_iff of_nat_numeral of_nat_power)

lemma int_le_pow: "n \<le> 2 ^ k \<Longrightarrow> int n \<le> 2 ^ k"
  by (metis of_nat_le_iff of_nat_numeral of_nat_power)

lemma nat_less_pow: "i < 2 ^ k \<Longrightarrow> nat i < 2 ^ k"
  by (cases "0 \<le> i") (auto simp: nat_less_iff)

lemma ParseUint_bound: "ParseUint s bits = Inr n \<Longrightarrow> n < 2 ^ bits"
  using parse_digits_le[of "2 ^ bits - 1" s 0 n] le_pow_pred[of n bits]
  by (auto simp: ParseUint_def split: if_splits)

lemma parse_signed_show:
  assumes "0 < bits" and "n \<le> (if neg then 2 ^ (bits - 1) else 2 ^ (bits - 1) - 1)"
  shows "parse_signed neg (show_nat n) bits = Inr (if neg then - int n else int n)"
proof -
  have lt: "(2::nat) ^ (bits - 1) < 2 ^ bits" using assms(1) by simp
  have "n \<le> 2 ^ (bits - 1)" using assms(2) by (auto split: if_splits)
  with lt have "n < 2 ^ bits" by linarith
  then have "ParseUint (show_nat n) bits = Inr n"
    using ParseUint_Format[of n bits] by (simp add: FormatUint_def)
  moreover have "\<not> neg \<Longrightarrow> n < 2 ^ (bits - 1)"
    using assms(2) le_pow_pred by simp
  ultimately show ?thesis using assms(2) by (cases neg) (auto simp: parse_signed_def)
qed

lemma show_nat_head: "show_nat n = c # cs \<Longrightarrow> is_digit c"
  using show_nat_digits[of c n] by simp

lemma ParseInt_Format [simp]:
  assumes "0 < bits" and "- (2 ^ (bits - 1)) \<le> i" and "i < 2 ^ (bits - 1)"
  shows "ParseInt (FormatInt i) bits = Inr i"
proof (cases "i < 0")
  case True
  then have "ParseInt (FormatInt i) bits = parse_signed True (show_nat (nat (- i))) bits"
    by (simp add: ParseInt_def FormatInt_def)
  moreover have "nat (- i) \<le> 2 ^ (bits - 1)" using assms(2) by (simp add: nat_le_iff)
  ultimately show ?thesis using True assms(1) by (simp add: parse_signed_show)
next
  case False
  obtain c cs where cc: "show_nat (nat i) = c # cs" by (cases "show_nat (nat i)") auto
  then have "is_digit c" by (rule show_nat_head)
  then have "c \<noteq> CHR ''+''" "c \<noteq> CHR ''-''"
    by (auto simp: is_digit_def less_eq_char_def)
  with False cc have "ParseInt (FormatInt i) bits = parse_signed False (show_nat (nat i)) bits"
    by (simp add: ParseInt_def FormatInt_def)
  moreover have "nat i \<le> 2 ^ (bits - 1) - 1"
    using nat_less_pow[OF assms(3)] by linarith
  ultimately show ?thesis using False assms(1) by (simp add: parse_signed_show)
qed

lemma parse_signed_bounds:
  assumes "parse_signed neg s bits = Inr i"
  shows "- (2 ^ (bits - 1)) \<le> i \<and> i < 2 ^ (bits - 1)"
proof -
  obtain un where un: "ParseUint s bits = Inr un"
    using assms by (auto simp: parse_signed_def split: sum.splits)
  show ?thesis
  proof (cases neg)
    case True
    with assms un have "un \<le> 2 ^ (bits - 1)" "i = - int un"
      by (auto simp: parse_signed_def split: if_splits)
    moreover have "(0::int) < 2 ^ (bits - 1)" by simp
    ultimately show ?thesis using int_le_pow[of un "bits - 1"] by linarith
  next
    case False
    with assms un have "un < 2 ^ (bits - 1)" "i = int un"
      by (auto simp: parse_signed_def split: if_splits)
    moreover have "(0::int) < 2 ^ (bits - 1)" by simp
    ultimately show ?thesis using int_less_pow[of un "bits - 1"] by linarith
  qed
qed

lemma ParseInt_cases:
  "\<exists>neg t. ParseInt (c # cs) bits = parse_signed neg t bits"
  by (auto simp: ParseInt_def)

lemma ParseInt_bounds:
  assumes "ParseInt s bits = Inr i"
  shows "- (2 ^ (bits - 1)) \<le> i \<and> i < 2 ^ (bits - 1)"
proof (cases s)
  case Nil
  with assms show ?thesis by (simp add: ParseInt_def)
next
  case (Cons c cs)
  with assms show ?thesis by (metis ParseInt_cases parse_signed_bounds)
qed

lemma ParseBool_Format [simp]: "ParseBool_std (FormatBool b) = Inr b"
  by (cases b) (simp_all add: ParseBool_std_def FormatBool_def)

end
