(* ===== verification/Errors.thy ===== *)
theory Errors imports GoStrconv begin

text \<open>
  \<open>errors.go\<close>: the structured error of the framework and the extraction of its status from an
  error chain. Every other component returns errors of the type declared here.
\<close>

section \<open>Codes and statuses\<close>

text \<open>\<open>Code\<close> is an open string type in Go; the eight canonical codes are its constants.\<close>

type_synonym err_code = string

definition CodeInvalidArgument :: err_code where [go_eval]: "CodeInvalidArgument = ''invalid_argument''"
definition CodeNotFound :: err_code where [go_eval]: "CodeNotFound = ''not_found''"
definition CodeInternal :: err_code where [go_eval]: "CodeInternal = ''internal''"
definition CodeUnauthenticated :: err_code where [go_eval]: "CodeUnauthenticated = ''unauthenticated''"
definition CodeUnavailable :: err_code where [go_eval]: "CodeUnavailable = ''unavailable''"
definition CodeAlreadyExists :: err_code where [go_eval]: "CodeAlreadyExists = ''already_exists''"
definition CodePermissionDenied :: err_code where [go_eval]: "CodePermissionDenied = ''permission_denied''"
definition CodeConflict :: err_code where [go_eval]: "CodeConflict = ''conflict''"

definition canonical_codes :: "err_code list" where
  [go_eval]: "canonical_codes =
     [CodeInvalidArgument, CodeNotFound, CodeInternal, CodeUnauthenticated,
      CodeUnavailable, CodeAlreadyExists, CodePermissionDenied, CodeConflict]"

record status =
  Code :: err_code
  Message :: string
  Retryable :: bool

section \<open>Errors\<close>

text \<open>
  A Go \<open>error\<close> value: a \<open>StatusError\<close> with its cause, a sentinel compared by identity
  (\<open>io.EOF\<close>, \<open>flag.ErrHelp\<close>), or any other error: its text and the errors its \<open>Unwrap\<close> method
  returns (one for \<open>fmt.Errorf\<close> with \<open>%w\<close>, several for \<open>errors.Join\<close>, none for \<open>errors.New\<close>).
\<close>

datatype goerr =
    StatusError status "goerr option"
  | Sentinel string
  | OtherError string "goerr list"

abbreviation Errorf_plain :: "string \<Rightarrow> goerr" where
  "Errorf_plain msg \<equiv> OtherError msg []"

definition EOF :: goerr where "EOF = Sentinel ''EOF''"
definition ErrHelp :: goerr where "ErrHelp = Sentinel ''flag: help requested''"

definition NewError :: "err_code \<Rightarrow> string \<Rightarrow> goerr" where
  [go_eval]: "NewError code msg = StatusError \<lparr>Code = code, Message = msg, Retryable = False\<rparr> None"

definition WrapError :: "err_code \<Rightarrow> string \<Rightarrow> goerr \<Rightarrow> goerr" where
  [go_eval]: "WrapError code msg cause =
     StatusError \<lparr>Code = code, Message = msg, Retryable = False\<rparr> (Some cause)"

text \<open>\<open>WithRetryable\<close> has a \<open>StatusError\<close> receiver only; it copies status and error.\<close>

fun WithRetryable :: "goerr \<Rightarrow> goerr" where
  "WithRetryable (StatusError st cause) = StatusError (st\<lparr>Retryable := True\<rparr>) cause"
| "WithRetryable e = e"

fun error_text :: "goerr \<Rightarrow> string" where
  "error_text (StatusError st cause) = Code st @ '': '' @ Message st"
| "error_text (Sentinel name) = name"
| "error_text (OtherError msg es) = msg"

fun Unwrap :: "goerr \<Rightarrow> goerr list" where
  "Unwrap (StatusError st cause) = (case cause of None \<Rightarrow> [] | Some c \<Rightarrow> [c])"
| "Unwrap (Sentinel name) = []"
| "Unwrap (OtherError msg es) = es"

text \<open>\<open>fmt.Errorf(prefix + ": %w", err)\<close>: the text of the wrapped error follows, the chain keeps it.\<close>

definition wrapf :: "string \<Rightarrow> goerr \<Rightarrow> goerr" where
  [go_eval]: "wrapf prefix e = OtherError (prefix @ error_text e) [e]"

text \<open>
  \<open>StatusOf\<close> is \<open>errors.As\<close> on the chain: the first \<open>StatusError\<close> in depth-first order.
\<close>

primrec StatusOf :: "goerr \<Rightarrow> status option"
  and StatusOf_list :: "goerr list \<Rightarrow> status option" where
  "StatusOf (StatusError st cause) = Some st"
| "StatusOf (Sentinel name) = None"
| "StatusOf (OtherError msg es) = StatusOf_list es"
| "StatusOf_list [] = None"
| "StatusOf_list (e # es) = (case StatusOf e of Some st \<Rightarrow> Some st | None \<Rightarrow> StatusOf_list es)"

definition CodeOf :: "goerr \<Rightarrow> err_code option" where
  [go_eval]: "CodeOf e = (case StatusOf e of Some st \<Rightarrow> Some (Code st) | None \<Rightarrow> None)"

text \<open>\<open>errors.Is\<close> for a sentinel target.\<close>

primrec Is_sentinel :: "string \<Rightarrow> goerr \<Rightarrow> bool"
  and Is_sentinel_opt :: "string \<Rightarrow> goerr option \<Rightarrow> bool"
  and Is_sentinel_list :: "string \<Rightarrow> goerr list \<Rightarrow> bool" where
  "Is_sentinel n (StatusError st cause) = Is_sentinel_opt n cause"
| "Is_sentinel n (Sentinel name) = (name = n)"
| "Is_sentinel n (OtherError msg es) = Is_sentinel_list n es"
| "Is_sentinel_opt n None = False"
| "Is_sentinel_opt n (Some e) = Is_sentinel n e"
| "Is_sentinel_list n [] = False"
| "Is_sentinel_list n (e # es) = (Is_sentinel n e \<or> Is_sentinel_list n es)"

text \<open>\<open>ErrorMapper\<close>: a nil mapper is \<open>None\<close>; a mapper that declines returns \<open>None\<close>.\<close>

type_synonym error_mapper = "(goerr \<Rightarrow> status option) option"

section \<open>Chains\<close>

text \<open>The errors reachable from \<open>e\<close> by repeated \<open>Unwrap\<close>, the chain \<open>errors.As\<close> searches.\<close>

inductive in_chain :: "goerr \<Rightarrow> goerr \<Rightarrow> bool" where
  here: "in_chain e e"
| below: "c \<in> set (Unwrap e) \<Longrightarrow> in_chain c d \<Longrightarrow> in_chain e d"

inductive_cases in_chain_SentinelE: "in_chain (Sentinel n) d"
inductive_cases in_chain_OtherE: "in_chain (OtherError msg es) d"
inductive_cases in_chain_StatusE: "in_chain (StatusError st c) d"

lemma StatusOf_list_None: "StatusOf_list es = None \<longleftrightarrow> (\<forall>e\<in>set es. StatusOf e = None)"
  by (induction es) (auto split: option.splits)

lemma StatusOf_list_Some: "StatusOf_list es = Some st \<Longrightarrow> \<exists>e\<in>set es. StatusOf e = Some st"
  by (induction es) (auto split: option.splits)

lemma StatusOf_in_chain: "StatusOf e = Some st \<Longrightarrow> \<exists>c. in_chain e (StatusError st c)"
proof (induction e)
  case (StatusError st' c)
  then show ?case by (auto intro: in_chain.here)
next
  case (OtherError msg es)
  then obtain e where "e \<in> set es" "StatusOf e = Some st"
    by (auto dest: StatusOf_list_Some)
  with OtherError.IH obtain c where "in_chain e (StatusError st c)" by blast
  moreover have "e \<in> set (Unwrap (OtherError msg es))"
    using \<open>e \<in> set es\<close> by simp
  ultimately have "in_chain (OtherError msg es) (StatusError st c)"
    by (blast intro: in_chain.below)
  then show ?case ..
qed simp

lemma in_chain_StatusOf: "in_chain e d \<Longrightarrow> StatusOf d \<noteq> None \<Longrightarrow> StatusOf e \<noteq> None"
proof (induction rule: in_chain.induct)
  case (below c e d)
  show ?case
  proof (cases e)
    case (OtherError msg es)
    with below have "c \<in> set es" "StatusOf c \<noteq> None" by auto
    then have "StatusOf_list es \<noteq> None" by (auto simp: StatusOf_list_None)
    with OtherError show ?thesis by simp
  qed (use below in auto)
qed

lemma StatusOf_wrapf [simp]: "StatusOf (wrapf p e) = StatusOf e"
  by (simp add: wrapf_def split: option.splits)

lemma StatusOf_NewError [simp]:
  "StatusOf (NewError c m) = Some \<lparr>Code = c, Message = m, Retryable = False\<rparr>"
  by (simp add: NewError_def)

lemma StatusOf_WrapError [simp]:
  "StatusOf (WrapError c m e) = Some \<lparr>Code = c, Message = m, Retryable = False\<rparr>"
  by (simp add: WrapError_def)

lemma StatusOf_EOF [simp]: "StatusOf EOF = None"
  by (simp add: EOF_def)

lemma Is_sentinel_list_iff: "Is_sentinel_list n es \<longleftrightarrow> (\<exists>e\<in>set es. Is_sentinel n e)"
  by (induction es) auto

section \<open>Properties\<close>

text \<open>
  C8. The classification of an error is complete: \<open>StatusOf\<close> declines exactly when no error of the
  chain is a \<open>StatusError\<close>, whatever the nesting of \<open>%w\<close> wrappers and joined errors.
\<close>

theorem StatusOf_complete:
  "StatusOf e = None \<longleftrightarrow> \<not> (\<exists>st c. in_chain e (StatusError st c))"
proof
  assume "StatusOf e = None"
  then show "\<not> (\<exists>st c. in_chain e (StatusError st c))"
    by (metis StatusOf.simps(1) in_chain_StatusOf option.distinct(1))
next
  assume "\<not> (\<exists>st c. in_chain e (StatusError st c))"
  then show "StatusOf e = None" by (metis StatusOf_in_chain not_Some_eq)
qed

end
