(* ===== verification/Interceptor.thy ===== *)
theory Interceptor imports Errors begin

text \<open>
  \<open>interceptor.go\<close> with the request, response, metadata and stream types of \<open>request.go\<close>,
  \<open>response.go\<close>, \<open>meta.go\<close> and \<open>stream.go\<close>: the generic \<open>Conn\<close> seen by middleware, the four
  conns that bridge the typed handlers to it, the typed stream adapters, the interceptor chain and
  the four \<open>Invoke\<close> entry points.

  Messages of every type live in one universe \<open>'v\<close>; a type argument of the Go generics is the name
  of the message type, and a Go \<open>any\<close> holding a pointer carries that name. A pointer is an option.
  A conn or stream with effects is a record of functions on an explicit state.
\<close>

section \<open>Messages and metadata\<close>

record meta =
  meta_Procedure :: string
  meta_RequestID :: string
  meta_SessionID :: string
  meta_Labels :: "string \<rightharpoonup> string"

definition meta_zero :: meta where
  [go_eval]: "meta_zero = \<lparr>meta_Procedure = [], meta_RequestID = [], meta_SessionID = [], meta_Labels = Map.empty\<rparr>"

record call_spec =
  cs_Procedure :: string
  cs_Transport :: string
  cs_Shape :: string

definition TransportCLI :: string where [go_eval]: "TransportCLI = ''cli''"
definition TransportConnect :: string where [go_eval]: "TransportConnect = ''connect''"
definition TransportWS :: string where [go_eval]: "TransportWS = ''ws''"

definition CallShapeUnary :: string where [go_eval]: "CallShapeUnary = ''unary''"
definition CallShapeClientStream :: string where [go_eval]: "CallShapeClientStream = ''client_stream''"
definition CallShapeServerStream :: string where [go_eval]: "CallShapeServerStream = ''server_stream''"
definition CallShapeBidi :: string where [go_eval]: "CallShapeBidi = ''bidi''"

record 'v request =
  req_Msg :: "'v option"
  req_Meta :: meta

record 'v response =
  resp_Msg :: "'v option"
  resp_Meta :: meta

text \<open>A Go \<open>any\<close>: nil, or a (possibly nil) pointer to a value of a named type.\<close>

datatype 'v go_any = AnyNil | AnyPtr string "'v option"

fun type_text :: "'v go_any \<Rightarrow> string" where
  "type_text AnyNil = ''<nil>''"
| "type_text (AnyPtr t p) = ''*'' @ t"

text \<open>
  \<open>AnyRequest\<close> and \<open>AnyResponse\<close>: nil, the typed view made by the framework, or a value made by
  middleware (\<open>responseValue\<close> or an implementation of its own) described by what its methods return.
\<close>

datatype 'v any_request =
    RequestNil
  | RequestView string call_spec "'v request option"
  | RequestOther "'v go_any" meta call_spec

datatype 'v any_response =
    ResponseNil
  | ResponseView string "'v response option"
  | ResponseValue "'v go_any" meta

fun requestView_Any :: "string \<Rightarrow> 'v request option \<Rightarrow> 'v go_any" where
  "requestView_Any t None = AnyNil"
| "requestView_Any t (Some r) = AnyPtr t (req_Msg r)"

fun requestView_Meta :: "'v request option \<Rightarrow> meta" where
  "requestView_Meta None = meta_zero"
| "requestView_Meta (Some r) = req_Meta r"

fun responseView_Any :: "string \<Rightarrow> 'v response option \<Rightarrow> 'v go_any" where
  "responseView_Any t None = AnyNil"
| "responseView_Any t (Some r) = AnyPtr t (resp_Msg r)"

fun responseView_Meta :: "'v response option \<Rightarrow> meta" where
  "responseView_Meta None = meta_zero"
| "responseView_Meta (Some r) = resp_Meta r"

definition NewAnyResponse :: "'v go_any \<Rightarrow> 'v any_response" where
  [go_eval]: "NewAnyResponse m = ResponseValue m meta_zero"

definition NewAnyResponseWithMeta :: "'v go_any \<Rightarrow> meta \<Rightarrow> 'v any_response" where
  [go_eval]: "NewAnyResponseWithMeta m mt = ResponseValue m mt"

section \<open>Cast helpers\<close>

definition cast_other_request :: "string \<Rightarrow> 'v go_any \<Rightarrow> meta \<Rightarrow> goerr + 'v request option" where
  [go_eval]: "cast_other_request t a m =
     (case a of
        AnyPtr t' p \<Rightarrow>
          if t' = t then Inr (Some \<lparr>req_Msg = p, req_Meta = m\<rparr>)
          else Inl (NewError CodeInternal (''interceptor passed unexpected request type '' @ type_text a))
      | AnyNil \<Rightarrow> Inl (NewError CodeInternal (''interceptor passed unexpected request type '' @ type_text a)))"

fun castRequest :: "string \<Rightarrow> 'v any_request \<Rightarrow> goerr + 'v request option" where
  "castRequest t RequestNil = Inl (NewError CodeInternal ''interceptor passed nil request'')"
| "castRequest t (RequestView t' spec r) =
     (if t' = t then Inr r else cast_other_request t (requestView_Any t' r) (requestView_Meta r))"
| "castRequest t (RequestOther a m spec) = cast_other_request t a m"

definition cast_other_response :: "string \<Rightarrow> 'v go_any \<Rightarrow> meta \<Rightarrow> goerr + 'v response option" where
  [go_eval]: "cast_other_response t a m =
     (case a of
        AnyPtr t' p \<Rightarrow>
          if t' = t then Inr (Some \<lparr>resp_Msg = p, resp_Meta = m\<rparr>)
          else Inl (NewError CodeInternal (''interceptor returned unexpected response type '' @ type_text a))
      | AnyNil \<Rightarrow> Inl (NewError CodeInternal (''interceptor returned unexpected response type '' @ type_text a)))"

fun castResponse :: "string \<Rightarrow> 'v any_response \<Rightarrow> goerr + 'v response option" where
  "castResponse t ResponseNil = Inr None"
| "castResponse t (ResponseView t' r) =
     (if t' = t then Inr r else cast_other_response t (responseView_Any t' r) (responseView_Meta r))"
| "castResponse t (ResponseValue a m) = cast_other_response t a m"

section \<open>Conns, handler functions and the chain\<close>

record ('c, 'v, 's) conn =
  conn_Context :: 'c
  conn_Spec :: call_spec
  conn_Receive :: "'s \<Rightarrow> (goerr + 'v any_request) \<times> 's"
  conn_Send :: "'v any_response \<Rightarrow> 's \<Rightarrow> goerr option \<times> 's"

type_synonym ('c, 'v, 's) handler_func = "'c \<Rightarrow> ('c, 'v, 's) conn \<Rightarrow> 's \<Rightarrow> goerr option \<times> 's"

text \<open>
  An \<open>Interceptor\<close> interface value is nil (\<open>None\<close> in the slice) or an \<open>InterceptorFunc\<close>, which may
  itself be a nil function.
\<close>

datatype ('c, 'v, 's) interceptor =
  InterceptorFunc "(('c, 'v, 's) handler_func \<Rightarrow> ('c, 'v, 's) handler_func) option"

fun Wrap :: "('c, 'v, 's) interceptor \<Rightarrow> ('c, 'v, 's) handler_func \<Rightarrow> ('c, 'v, 's) handler_func" where
  "Wrap (InterceptorFunc None) next_h = next_h"
| "Wrap (InterceptorFunc (Some f)) next_h = f next_h"

definition wrap_slot ::
  "('c, 'v, 's) interceptor option \<Rightarrow> ('c, 'v, 's) handler_func \<Rightarrow> ('c, 'v, 's) handler_func" where
  [go_eval]: "wrap_slot slot next_h = (case slot of None \<Rightarrow> next_h | Some i \<Rightarrow> Wrap i next_h)"

text \<open>The loop runs from the last interceptor down to the first.\<close>

definition chainInterceptors ::
  "('c, 'v, 's) handler_func \<Rightarrow> ('c, 'v, 's) interceptor option list \<Rightarrow> ('c, 'v, 's) handler_func" where
  [go_eval]: "chainInterceptors inner interceptors = fold wrap_slot (rev interceptors) inner"

definition hasActiveInterceptors :: "('c, 'v, 's) interceptor option list \<Rightarrow> bool" where
  [go_eval]: "hasActiveInterceptors interceptors \<longleftrightarrow> list_ex (\<lambda>i. i \<noteq> None) interceptors"

section \<open>Streams\<close>

record ('c, 'v, 's) server_stream =
  ss_Context :: 'c
  ss_Send :: "'v response option \<Rightarrow> 's \<Rightarrow> goerr option \<times> 's"

record ('c, 'v, 's) client_stream =
  cl_Context :: 'c
  cl_Receive :: "'s \<Rightarrow> (goerr + 'v request option) \<times> 's"

record ('c, 'v, 's) bidi_stream =
  bs_Context :: 'c
  bs_Receive :: "'s \<Rightarrow> (goerr + 'v request option) \<times> 's"
  bs_Send :: "'v response option \<Rightarrow> 's \<Rightarrow> goerr option \<times> 's"

text \<open>
  The mutable fields of the four conn structs (each uses its own: \<open>received\<close>, \<open>result\<close>) beside the
  state \<open>'w\<close> of the transport's stream, of the handlers and of the interceptors.
\<close>

record ('v, 'w) conn_state =
  cst_received :: bool
  cst_result :: "'v response option"
  cst_world :: 'w

definition conn_start :: "'w \<Rightarrow> ('v, 'w) conn_state" where
  [go_eval]: "conn_start w = \<lparr>cst_received = False, cst_result = None, cst_world = w\<rparr>"

definition on_world :: "('w \<Rightarrow> 'r \<times> 'w) \<Rightarrow> ('v, 'w) conn_state \<Rightarrow> 'r \<times> ('v, 'w) conn_state" where
  [go_eval]: "on_world f s = (let (r, w) = f (cst_world s) in (r, s\<lparr>cst_world := w\<rparr>))"

section \<open>Conn implementations\<close>

definition one_shot_Receive ::
  "string \<Rightarrow> call_spec \<Rightarrow> 'v request option \<Rightarrow> ('v, 'w) conn_state \<Rightarrow> (goerr + 'v any_request) \<times> ('v, 'w) conn_state" where
  [go_eval]: "one_shot_Receive tq spec req s =
     (if cst_received s then (Inl EOF, s)
      else (Inr (RequestView tq spec req), s\<lparr>cst_received := True\<rparr>))"

definition stream_Receive ::
  "string \<Rightarrow> call_spec \<Rightarrow> ('w \<Rightarrow> (goerr + 'v request option) \<times> 'w) \<Rightarrow> ('v, 'w) conn_state
   \<Rightarrow> (goerr + 'v any_request) \<times> ('v, 'w) conn_state" where
  [go_eval]: "stream_Receive tq spec recv s =
     (case on_world recv s of
        (Inl e, s') \<Rightarrow> (Inl e, s')
      | (Inr req, s') \<Rightarrow> (Inr (RequestView tq spec req), s'))"

definition result_Send ::
  "string \<Rightarrow> 'v any_response \<Rightarrow> ('v, 'w) conn_state \<Rightarrow> goerr option \<times> ('v, 'w) conn_state" where
  [go_eval]: "result_Send ts resp s =
     (case resp of
        ResponseNil \<Rightarrow> (None, s)
      | _ \<Rightarrow> (case castResponse ts resp of
               Inl e \<Rightarrow> (Some e, s)
             | Inr typedResp \<Rightarrow> (None, s\<lparr>cst_result := typedResp\<rparr>)))"

definition forward_Send ::
  "string \<Rightarrow> ('v response option \<Rightarrow> 'w \<Rightarrow> goerr option \<times> 'w) \<Rightarrow> 'v any_response \<Rightarrow> ('v, 'w) conn_state
   \<Rightarrow> goerr option \<times> ('v, 'w) conn_state" where
  [go_eval]: "forward_Send ts send resp s =
     (case castResponse ts resp of
        Inl e \<Rightarrow> (Some e, s)
      | Inr None \<Rightarrow> (Some (NewError CodeInternal ''handler sent nil response''), s)
      | Inr (Some r) \<Rightarrow>
          if resp_Msg r = None then (Some (NewError CodeInternal ''handler sent nil response''), s)
          else on_world (send (Some r)) s)"

definition unaryConn ::
  "string \<Rightarrow> string \<Rightarrow> 'c \<Rightarrow> call_spec \<Rightarrow> 'v request option \<Rightarrow> ('c, 'v, ('v, 'w) conn_state) conn" where
  [go_eval]: "unaryConn tq ts ctx spec req =
     \<lparr>conn_Context = ctx, conn_Spec = spec,
      conn_Receive = one_shot_Receive tq spec req, conn_Send = result_Send ts\<rparr>"

definition clientStreamConn ::
  "string \<Rightarrow> string \<Rightarrow> call_spec \<Rightarrow> ('c, 'v, 'w) client_stream \<Rightarrow> ('c, 'v, ('v, 'w) conn_state) conn" where
  [go_eval]: "clientStreamConn tq ts spec stream =
     \<lparr>conn_Context = cl_Context stream, conn_Spec = spec,
      conn_Receive = stream_Receive tq spec (cl_Receive stream), conn_Send = result_Send ts\<rparr>"

definition serverStreamConn ::
  "string \<Rightarrow> string \<Rightarrow> call_spec \<Rightarrow> 'v request option \<Rightarrow> ('c, 'v, 'w) server_stream \<Rightarrow> ('c, 'v, ('v, 'w) conn_state) conn" where
  [go_eval]: "serverStreamConn tq ts spec req stream =
     \<lparr>conn_Context = ss_Context stream, conn_Spec = spec,
      conn_Receive = one_shot_Receive tq spec req, conn_Send = forward_Send ts (ss_Send stream)\<rparr>"

definition bidiConn ::
  "string \<Rightarrow> string \<Rightarrow> call_spec \<Rightarrow> ('c, 'v, 'w) bidi_stream \<Rightarrow> ('c, 'v, ('v, 'w) conn_state) conn" where
  [go_eval]: "bidiConn tq ts spec stream =
     \<lparr>conn_Context = bs_Context stream, conn_Spec = spec,
      conn_Receive = stream_Receive tq spec (bs_Receive stream), conn_Send = forward_Send ts (bs_Send stream)\<rparr>"

section \<open>Typed stream adapters\<close>

definition adapter_Receive :: "string \<Rightarrow> ('c, 'v, 's) conn \<Rightarrow> 's \<Rightarrow> (goerr + 'v request option) \<times> 's" where
  [go_eval]: "adapter_Receive tq c s =
     (case conn_Receive c s of
        (Inl e, s') \<Rightarrow> (Inl e, s')
      | (Inr anyReq, s') \<Rightarrow> (castRequest tq anyReq, s'))"

definition adapter_Send :: "string \<Rightarrow> ('c, 'v, 's) conn \<Rightarrow> 'v response option \<Rightarrow> 's \<Rightarrow> goerr option \<times> 's" where
  [go_eval]: "adapter_Send ts c resp s =
     (case resp of
        None \<Rightarrow> (Some (NewError CodeInternal ''handler sent nil response''), s)
      | Some r \<Rightarrow> conn_Send c (ResponseView ts (Some r)) s)"

definition connClientStream :: "string \<Rightarrow> ('c, 'v, 's) conn \<Rightarrow> ('c, 'v, 's) client_stream" where
  [go_eval]: "connClientStream tq c = \<lparr>cl_Context = conn_Context c, cl_Receive = adapter_Receive tq c\<rparr>"

definition connServerStream :: "string \<Rightarrow> ('c, 'v, 's) conn \<Rightarrow> ('c, 'v, 's) server_stream" where
  [go_eval]: "connServerStream ts c = \<lparr>ss_Context = conn_Context c, ss_Send = adapter_Send ts c\<rparr>"

definition connBidiStream :: "string \<Rightarrow> string \<Rightarrow> ('c, 'v, 's) conn \<Rightarrow> ('c, 'v, 's) bidi_stream" where
  [go_eval]: "connBidiStream tq ts c =
     \<lparr>bs_Context = conn_Context c, bs_Receive = adapter_Receive tq c, bs_Send = adapter_Send ts c\<rparr>"

section \<open>The Invoke entry points\<close>

type_synonym ('c, 'v, 'w) unary_handler = "'c \<Rightarrow> 'v request option \<Rightarrow> 'w \<Rightarrow> (goerr + 'v response option) \<times> 'w"

type_synonym ('c, 'v, 's) client_stream_handler =
  "'c \<Rightarrow> ('c, 'v, 's) client_stream \<Rightarrow> 's \<Rightarrow> (goerr + 'v response option) \<times> 's"

type_synonym ('c, 'v, 's) server_stream_handler =
  "'c \<Rightarrow> 'v request option \<Rightarrow> ('c, 'v, 's) server_stream \<Rightarrow> 's \<Rightarrow> goerr option \<times> 's"

type_synonym ('c, 'v, 's) bidi_handler = "'c \<Rightarrow> ('c, 'v, 's) bidi_stream \<Rightarrow> 's \<Rightarrow> goerr option \<times> 's"

text \<open>The innermost handler functions, as the closures of the four entry points build them.\<close>

definition send_result :: "string \<Rightarrow> ('c, 'v, 's) conn \<Rightarrow> (goerr + 'v response option) \<times> 's \<Rightarrow> goerr option \<times> 's" where
  [go_eval]: "send_result ts c out =
     (case out of
        (Inl e, s) \<Rightarrow> (Some e, s)
      | (Inr None, s) \<Rightarrow> (None, s)
      | (Inr (Some resp), s) \<Rightarrow> conn_Send c (ResponseView ts (Some resp)) s)"

definition unary_inner ::
  "string \<Rightarrow> string \<Rightarrow> ('c, 'v, 'w) unary_handler \<Rightarrow> ('c, 'v, ('v, 'w) conn_state) handler_func" where
  [go_eval]: "unary_inner tq ts handler ctx c s =
     (case conn_Receive c s of
        (Inl e, s1) \<Rightarrow> (Some e, s1)
      | (Inr anyReq, s1) \<Rightarrow>
          (case castRequest tq anyReq of
             Inl e \<Rightarrow> (Some e, s1)
           | Inr typedReq \<Rightarrow> send_result ts c (on_world (handler ctx typedReq) s1)))"

definition client_stream_inner ::
  "string \<Rightarrow> string \<Rightarrow> ('c, 'v, 's) client_stream_handler \<Rightarrow> ('c, 'v, 's) handler_func" where
  [go_eval]: "client_stream_inner tq ts handler ctx c s =
     send_result ts c (handler ctx (connClientStream tq c) s)"

definition server_stream_inner ::
  "string \<Rightarrow> string \<Rightarrow> ('c, 'v, 's) server_stream_handler \<Rightarrow> ('c, 'v, 's) handler_func" where
  [go_eval]: "server_stream_inner tq ts handler ctx c s =
     (case conn_Receive c s of
        (Inl e, s1) \<Rightarrow> (Some e, s1)
      | (Inr anyReq, s1) \<Rightarrow>
          (case castRequest tq anyReq of
             Inl e \<Rightarrow> (Some e, s1)
           | Inr typedReq \<Rightarrow> handler ctx typedReq (connServerStream ts c) s1))"

definition bidi_inner ::
  "string \<Rightarrow> string \<Rightarrow> ('c, 'v, 's) bidi_handler \<Rightarrow> ('c, 'v, 's) handler_func" where
  [go_eval]: "bidi_inner tq ts handler ctx c s = handler ctx (connBidiStream tq ts c) s"

definition conn_outcome :: "goerr option \<times> ('v, 'w) conn_state \<Rightarrow> (goerr + 'v response option) \<times> 'w" where
  [go_eval]: "conn_outcome out =
     (case out of
        (Some e, s) \<Rightarrow> (Inl e, cst_world s)
      | (None, s) \<Rightarrow> (Inr (cst_result s), cst_world s))"

definition stream_outcome :: "goerr option \<times> ('v, 'w) conn_state \<Rightarrow> goerr option \<times> 'w" where
  [go_eval]: "stream_outcome out = (fst out, cst_world (snd out))"

definition InvokeUnary ::
  "string \<Rightarrow> string \<Rightarrow> 'c \<Rightarrow> call_spec \<Rightarrow> 'v request option \<Rightarrow> ('c, 'v, 'w) unary_handler
   \<Rightarrow> ('c, 'v, ('v, 'w) conn_state) interceptor option list \<Rightarrow> 'w \<Rightarrow> (goerr + 'v response option) \<times> 'w" where
  [go_eval]: "InvokeUnary tq ts ctx spec req handler interceptors w =
     (if \<not> hasActiveInterceptors interceptors then handler ctx req w
      else conn_outcome (chainInterceptors (unary_inner tq ts handler) interceptors ctx
             (unaryConn tq ts ctx spec req) (conn_start w)))"

definition InvokeClientStream ::
  "string \<Rightarrow> string \<Rightarrow> 'c \<Rightarrow> call_spec \<Rightarrow> ('c, 'v, 'w) client_stream
   \<Rightarrow> ('c, 'v, ('v, 'w) conn_state) client_stream_handler
   \<Rightarrow> ('c, 'v, ('v, 'w) conn_state) interceptor option list \<Rightarrow> 'w \<Rightarrow> (goerr + 'v response option) \<times> 'w" where
  [go_eval]: "InvokeClientStream tq ts ctx spec stream handler interceptors w =
     conn_outcome (chainInterceptors (client_stream_inner tq ts handler) interceptors ctx
       (clientStreamConn tq ts spec stream) (conn_start w))"

definition InvokeServerStream ::
  "string \<Rightarrow> string \<Rightarrow> 'c \<Rightarrow> call_spec \<Rightarrow> 'v request option \<Rightarrow> ('c, 'v, 'w) server_stream
   \<Rightarrow> ('c, 'v, ('v, 'w) conn_state) server_stream_handler
   \<Rightarrow> ('c, 'v, ('v, 'w) conn_state) interceptor option list \<Rightarrow> 'w \<Rightarrow> goerr option \<times> 'w" where
  [go_eval]: "InvokeServerStream tq ts ctx spec req stream handler interceptors w =
     stream_outcome (chainInterceptors (server_stream_inner tq ts handler) interceptors ctx
       (serverStreamConn tq ts spec req stream) (conn_start w))"

definition InvokeBidi ::
  "string \<Rightarrow> string \<Rightarrow> 'c \<Rightarrow> call_spec \<Rightarrow> ('c, 'v, 'w) bidi_stream
   \<Rightarrow> ('c, 'v, ('v, 'w) conn_state) bidi_handler
   \<Rightarrow> ('c, 'v, ('v, 'w) conn_state) interceptor option list \<Rightarrow> 'w \<Rightarrow> goerr option \<times> 'w" where
  [go_eval]: "InvokeBidi tq ts ctx spec stream handler interceptors w =
     stream_outcome (chainInterceptors (bidi_inner tq ts handler) interceptors ctx
       (bidiConn tq ts spec stream) (conn_start w))"

section \<open>Handlers as programs\<close>

text \<open>
  A streaming handler that uses its stream only through the interface is a program: it returns,
  receives and continues on what it received, or sends and continues on the send's error. It can be
  run against the typed adapter of a conn and against the transport's stream alike.
\<close>

datatype ('v, 'r) prog =
    Return 'r
  | Recv "goerr + 'v request option \<Rightarrow> ('v, 'r) prog"
  | Send "'v response option" "goerr option \<Rightarrow> ('v, 'r) prog"

primrec run_prog ::
  "('s \<Rightarrow> (goerr + 'v request option) \<times> 's) \<Rightarrow> ('v response option \<Rightarrow> 's \<Rightarrow> goerr option \<times> 's)
   \<Rightarrow> ('v, 'r) prog \<Rightarrow> 's \<Rightarrow> 'r \<times> 's" where
  "run_prog recv send (Return r) s = (r, s)"
| "run_prog recv send (Recv k) s = (case recv s of (x, s') \<Rightarrow> run_prog recv send (k x) s')"
| "run_prog recv send (Send m k) s = (case send m s of (x, s') \<Rightarrow> run_prog recv send (k x) s')"

text \<open>The contract every stream conn adds to a transport's send: a nil response never reaches it.\<close>

definition guarded_send :: "('v response option \<Rightarrow> 'w \<Rightarrow> goerr option \<times> 'w) \<Rightarrow> 'v response option \<Rightarrow> 'w \<Rightarrow> goerr option \<times> 'w" where
  "guarded_send send resp w =
     (case resp of
        None \<Rightarrow> (Some (NewError CodeInternal ''handler sent nil response''), w)
      | Some r \<Rightarrow>
          if resp_Msg r = None then (Some (NewError CodeInternal ''handler sent nil response''), w)
          else send (Some r) w)"

section \<open>Lemmas\<close>

lemma castRequest_View [simp]: "castRequest t (RequestView t spec r) = Inr r"
  by simp

lemma castResponse_View [simp]: "castResponse t (ResponseView t r) = Inr r"
  by simp

lemma chain_Nil [simp]: "chainInterceptors inner [] = inner"
  by (simp add: chainInterceptors_def)

lemma chain_Cons [simp]:
  "chainInterceptors inner (i # is) = wrap_slot i (chainInterceptors inner is)"
  by (simp add: chainInterceptors_def)

lemma chain_append:
  "chainInterceptors inner (is @ js) = chainInterceptors (chainInterceptors inner js) is"
  by (simp add: chainInterceptors_def)

lemma wrap_slot_simps [simp]:
  "wrap_slot None h = h" "wrap_slot (Some i) h = Wrap i h"
  by (simp_all add: wrap_slot_def)

lemma chain_identity:
  "\<forall>i\<in>set is. \<forall>h. wrap_slot i h = h \<Longrightarrow> chainInterceptors inner is = inner"
  by (induction "is") auto

lemma hasActive_iff: "hasActiveInterceptors is \<longleftrightarrow> (\<exists>i\<in>set is. i \<noteq> None)"
  by (simp add: hasActiveInterceptors_def list_ex_iff)

lemma on_world_eq: "f (cst_world s) = (r, w) \<Longrightarrow> on_world f s = (r, s\<lparr>cst_world := w\<rparr>)"
  by (simp add: on_world_def)

lemma adapter_Receive_stream:
  "adapter_Receive tq (bidiConn tq ts spec stream) s = on_world (bs_Receive stream) s"
  "adapter_Receive tq (clientStreamConn tq ts spec cstream) s = on_world (cl_Receive cstream) s"
  by (auto simp: adapter_Receive_def bidiConn_def clientStreamConn_def stream_Receive_def
        split: prod.splits sum.splits)

lemma adapter_Send_stream:
  "adapter_Send ts (bidiConn tq ts spec stream) m s = on_world (guarded_send (bs_Send stream) m) s"
  "adapter_Send ts (serverStreamConn tq ts spec req sstream) m s = on_world (guarded_send (ss_Send sstream) m) s"
  by (auto simp: adapter_Send_def bidiConn_def serverStreamConn_def forward_Send_def guarded_send_def
        on_world_def split: option.splits)

text \<open>Running a program on lifted operations is the lifting of running it on the operations.\<close>

lemma run_prog_on_world:
  "run_prog (on_world recv) (\<lambda>m. on_world (send m)) p s = on_world (run_prog recv send p) s"
proof (induction p arbitrary: s)
  case (Recv k)
  obtain x w where x: "recv (cst_world s) = (x, w)" by (cases "recv (cst_world s)")
  then have "run_prog (on_world recv) (\<lambda>m. on_world (send m)) (Recv k) s
      = on_world (run_prog recv send (k x)) (s\<lparr>cst_world := w\<rparr>)"
    by (simp add: on_world_eq Recv)
  also have "\<dots> = on_world (run_prog recv send (Recv k)) s"
    using x by (simp add: on_world_def split: prod.splits)
  finally show ?case .
next
  case (Send m k)
  obtain x w where x: "send m (cst_world s) = (x, w)" by (cases "send m (cst_world s)")
  then have "run_prog (on_world recv) (\<lambda>m. on_world (send m)) (Send m k) s
      = on_world (run_prog recv send (k x)) (s\<lparr>cst_world := w\<rparr>)"
    by (simp add: on_world_eq Send)
  also have "\<dots> = on_world (run_prog recv send (Send m k)) s"
    using x by (simp add: on_world_def split: prod.splits)
  finally show ?case .
qed (simp add: on_world_def)

lemma unary_inner_outcome:
  "conn_outcome (unary_inner tq ts handler ctx (unaryConn tq ts ctx' spec req) (conn_start w)) = handler ctx req w"
  by (auto simp: unary_inner_def unaryConn_def one_shot_Receive_def conn_start_def on_world_def
        send_result_def conn_outcome_def result_Send_def split: prod.splits sum.splits option.splits)

lemma InvokeUnary_identity:
  assumes "\<forall>i\<in>set interceptors. \<forall>h. wrap_slot i h = h"
  shows "InvokeUnary tq ts ctx spec req handler interceptors w = handler ctx req w"
  using chain_identity[OF assms] by (simp add: InvokeUnary_def unary_inner_outcome)

lemma forward_Send_cong:
  assumes "\<And>r w. resp_Msg r \<noteq> None \<Longrightarrow> send (Some r) w = send' (Some r) w"
  shows "forward_Send ts send = forward_Send ts send'"
  using assms by (auto simp: forward_Send_def on_world_def fun_eq_iff split: sum.splits option.splits)

lemma InvokeServerStream_cong:
  assumes "\<And>r w. resp_Msg r \<noteq> None \<Longrightarrow> send (Some r) w = send' (Some r) w"
  shows "InvokeServerStream tq ts ctx spec req \<lparr>ss_Context = sctx, ss_Send = send\<rparr> handler interceptors w
       = InvokeServerStream tq ts ctx spec req \<lparr>ss_Context = sctx, ss_Send = send'\<rparr> handler interceptors w"
  using forward_Send_cong[of send send' ts, OF assms]
  by (simp add: InvokeServerStream_def serverStreamConn_def)

lemma InvokeBidi_cong:
  assumes "\<And>r w. resp_Msg r \<noteq> None \<Longrightarrow> send (Some r) w = send' (Some r) w"
  shows "InvokeBidi tq ts ctx spec \<lparr>bs_Context = sctx, bs_Receive = recv, bs_Send = send\<rparr> handler interceptors w
       = InvokeBidi tq ts ctx spec \<lparr>bs_Context = sctx, bs_Receive = recv, bs_Send = send'\<rparr> handler interceptors w"
  using forward_Send_cong[of send send' ts, OF assms]
  by (simp add: InvokeBidi_def bidiConn_def)

lemma InvokeBidi_prog:
  assumes "\<forall>i\<in>set interceptors. \<forall>h. wrap_slot i h = h"
  shows "InvokeBidi tq ts ctx spec stream
           (\<lambda>ctx st. run_prog (bs_Receive st) (bs_Send st) (p ctx)) interceptors w
         = run_prog (bs_Receive stream) (guarded_send (bs_Send stream)) (p ctx) w"
proof -
  have recv: "bs_Receive (connBidiStream tq ts (bidiConn tq ts spec stream)) = on_world (bs_Receive stream)"
    by (simp add: connBidiStream_def fun_eq_iff adapter_Receive_stream)
  have send: "bs_Send (connBidiStream tq ts (bidiConn tq ts spec stream))
      = (\<lambda>m. on_world (guarded_send (bs_Send stream) m))"
    by (simp add: connBidiStream_def fun_eq_iff adapter_Send_stream)
  show ?thesis
    by (simp add: InvokeBidi_def chain_identity[OF assms] bidi_inner_def recv send run_prog_on_world
        stream_outcome_def on_world_def conn_start_def split: prod.splits)
qed

lemma on_world_unit: "on_world (\<lambda>w. (x, w)) s = (x, s)"
  by (simp add: on_world_def)

text \<open>A server-stream handler receives nothing, a client-stream handler sends nothing.\<close>

lemma InvokeServerStream_prog:
  assumes "\<forall>i\<in>set interceptors. \<forall>h. wrap_slot i h = h"
  shows "InvokeServerStream tq ts ctx spec req stream
           (\<lambda>ctx rq st. run_prog (\<lambda>s. (Inl EOF, s)) (ss_Send st) (p ctx rq)) interceptors w
         = run_prog (\<lambda>w. (Inl EOF, w)) (guarded_send (ss_Send stream)) (p ctx req) w"
proof -
  let ?c = "serverStreamConn tq ts spec req stream"
  have send: "ss_Send (connServerStream ts ?c) = (\<lambda>m. on_world (guarded_send (ss_Send stream) m))"
    by (simp add: connServerStream_def fun_eq_iff adapter_Send_stream)
  have recv: "(\<lambda>s :: ('b, 'c) conn_state. (Inl EOF, s)) = on_world (\<lambda>w. (Inl EOF, w))"
    by (simp add: fun_eq_iff on_world_unit)
  have first: "conn_Receive ?c (conn_start w) = (Inr (RequestView tq spec req), (conn_start w)\<lparr>cst_received := True\<rparr>)"
    by (simp add: serverStreamConn_def one_shot_Receive_def conn_start_def)
  show ?thesis
    unfolding InvokeServerStream_def chain_identity[OF assms] server_stream_inner_def first send recv
    by (simp add: run_prog_on_world stream_outcome_def on_world_def conn_start_def split: prod.splits)
qed

lemma InvokeClientStream_prog:
  assumes "\<forall>i\<in>set interceptors. \<forall>h. wrap_slot i h = h"
  shows "InvokeClientStream tq ts ctx spec stream
           (\<lambda>ctx st. run_prog (cl_Receive st) (\<lambda>m s. (None, s)) (p ctx)) interceptors w
         = run_prog (cl_Receive stream) (\<lambda>m w. (None, w)) (p ctx) w"
proof -
  let ?c = "clientStreamConn tq ts spec stream"
  have recv: "cl_Receive (connClientStream tq ?c) = on_world (cl_Receive stream)"
    by (simp add: connClientStream_def fun_eq_iff adapter_Receive_stream)
  have run: "run_prog (on_world (cl_Receive stream)) (\<lambda>m s. (None, s)) (p ctx) s =
      on_world (run_prog (cl_Receive stream) (\<lambda>m w. (None, w)) (p ctx)) s" for s
    using run_prog_on_world[of "cl_Receive stream" "\<lambda>m w. (None, w)" "p ctx" s] unfolding on_world_unit .
  show ?thesis
    unfolding InvokeClientStream_def chain_identity[OF assms] client_stream_inner_def recv run
    by (auto simp: conn_outcome_def on_world_def conn_start_def send_result_def clientStreamConn_def result_Send_def
        split: prod.splits sum.splits option.splits)
qed

text \<open>What the operations of a stream preserve, a program on it preserves.\<close>

lemma run_prog_preserves:
  assumes "\<And>s. R s s" and "\<And>s t u. R s t \<Longrightarrow> R t u \<Longrightarrow> R s u"
    and "\<And>s. R s (snd (recv s))" and "\<And>m s. R s (snd (send m s))"
  shows "R s (snd (run_prog recv send p s))"
proof (induction p arbitrary: s)
  case (Recv k)
  obtain x t where xt: "recv s = (x, t)" by (cases "recv s")
  with assms(3)[of s] have "R s t" by simp
  moreover have "R t (snd (run_prog recv send (k x) t))" by (rule Recv) simp
  ultimately show ?case using assms(2)[of s t] xt by simp
next
  case (Send m k)
  obtain x t where xt: "send m s = (x, t)" by (cases "send m s")
  with assms(4)[of s m] have "R s t" by simp
  moreover have "R t (snd (run_prog recv send (k x) t))" by (rule Send) simp
  ultimately show ?case using assms(2)[of s t] xt by simp
qed (simp add: assms(1))

section \<open>The one-shot request source\<close>

text \<open>
  What unary and server-stream middleware relies on: the first \<open>Receive\<close> yields the request and
  every later one \<open>io.EOF\<close>.
\<close>

fun receive_n :: "('s \<Rightarrow> 'r \<times> 's) \<Rightarrow> nat \<Rightarrow> 's \<Rightarrow> 'r list" where
  "receive_n recv 0 s = []"
| "receive_n recv (Suc n) s = (case recv s of (r, s') \<Rightarrow> r # receive_n recv n s')"

locale one_shot_source =
  fixes receive :: "'s \<Rightarrow> (goerr + 'r) \<times> 's"
    and spent :: "'s \<Rightarrow> bool"
    and the_request :: 'r
  assumes fresh: "\<not> spent s \<Longrightarrow> fst (receive s) = Inr the_request \<and> spent (snd (receive s))"
    and exhausted: "spent s \<Longrightarrow> receive s = (Inl EOF, s)"
begin

lemma spent_source_only_EOF: "spent s \<Longrightarrow> receive_n receive n s = replicate n (Inl EOF)"
  by (induction n) (auto simp: exhausted)

lemma fresh_source_once:
  "\<not> spent s \<Longrightarrow> receive_n receive (Suc n) s = Inr the_request # replicate n (Inl EOF)"
  using fresh[of s] spent_source_only_EOF by (auto split: prod.splits)

end

interpretation unary_source: one_shot_source
  "conn_Receive (unaryConn tq ts ctx spec req)" cst_received "RequestView tq spec req"
  for tq ts ctx spec req
  by unfold_locales (auto simp: unaryConn_def one_shot_Receive_def)

interpretation server_stream_source: one_shot_source
  "conn_Receive (serverStreamConn tq ts spec req stream)" cst_received "RequestView tq spec req"
  for tq ts spec req stream
  by unfold_locales (auto simp: serverStreamConn_def one_shot_Receive_def)

section \<open>Properties\<close>

text \<open>
  A middleware that acts before and after the rest of the chain, the shape of logging, tracing or
  timing interceptors.
\<close>

definition around_interceptor ::
  "('i \<Rightarrow> 's \<Rightarrow> 's) \<Rightarrow> ('i \<Rightarrow> 's \<Rightarrow> 's) \<Rightarrow> 'i \<Rightarrow> ('c, 'v, 's) interceptor" where
  "around_interceptor enter leave i =
     InterceptorFunc (Some (\<lambda>next_h ctx c s.
       case next_h ctx c (enter i s) of (e, s') \<Rightarrow> (e, leave i s')))"

text \<open>
  C26. Interceptors run as an onion: the first of the slice is entered first and left last, nil
  entries of the slice are skipped, and the handler runs once in the middle.
\<close>

theorem chainInterceptors_onion:
  "chainInterceptors inner (map (map_option (around_interceptor enter leave)) slots) ctx c s =
     (let ids = map the (filter (\<lambda>x. x \<noteq> None) slots);
          (e, s') = inner ctx c (fold enter ids s)
      in (e, fold leave (rev ids) s'))"
proof (induction slots arbitrary: s)
  case (Cons x slots)
  then show ?case
    by (cases x) (simp_all add: around_interceptor_def Let_def split: prod.splits)
qed simp

text \<open>
  C23. The fast path of \<open>InvokeUnary\<close> is an optimisation only: when every interceptor of the slice
  passes its handler through unchanged (nil entries, nil functions, identity middleware), the call
  through the conn and the chain returns what the direct handler call returns, in the same state.
\<close>

theorem InvokeUnary_pass_through:
  assumes "\<forall>i\<in>set interceptors. \<forall>h. wrap_slot i h = h"
  shows "InvokeUnary tq ts ctx spec req handler interceptors w = handler ctx req w"
  using assms by (rule InvokeUnary_identity)

theorem InvokeUnary_pass_through_witness:
  "InvokeUnary ''Req'' ''Res'' () \<lparr>cs_Procedure = ''/p.S/M'', cs_Transport = ''ws'', cs_Shape = ''unary''\<rparr>
     (Some \<lparr>req_Msg = Some (7::nat), req_Meta = meta_zero\<rparr>)
     (\<lambda>ctx req w. (Inr (Some \<lparr>resp_Msg = Some 8, resp_Meta = meta_zero\<rparr>), Suc w))
     [None, Some (InterceptorFunc None), Some (InterceptorFunc (Some (\<lambda>h. h)))] (0::nat)
   = (Inr (Some \<lparr>resp_Msg = Some 8, resp_Meta = meta_zero\<rparr>), 1)"
  by (subst InvokeUnary_pass_through) simp_all

text \<open>
  C3. A bidi handler sees the transport's stream as it is: under pass-through middleware,
  \<open>InvokeBidi\<close> gives the result and the stream state of running the handler's program directly
  on the stream, with a nil response answered by an internal error in place of a send.
\<close>

theorem InvokeBidi_transparent:
  assumes "\<forall>i\<in>set interceptors. \<forall>h. wrap_slot i h = h"
  shows "InvokeBidi tq ts ctx spec stream
           (\<lambda>ctx st. run_prog (bs_Receive st) (bs_Send st) (p ctx)) interceptors w
         = run_prog (bs_Receive stream) (guarded_send (bs_Send stream)) (p ctx) w"
  using assms by (rule InvokeBidi_prog)

theorem InvokeBidi_transparent_witness:
  "InvokeBidi ''Req'' ''Res'' () \<lparr>cs_Procedure = ''/p.S/M'', cs_Transport = ''ws'', cs_Shape = ''bidi''\<rparr>
     \<lparr>bs_Context = (), bs_Receive = (\<lambda>w. (Inl EOF, w)),
      bs_Send = (\<lambda>m w. (None, w @ [m]))\<rparr>
     (\<lambda>ctx st. run_prog (bs_Receive st) (bs_Send st)
        (Send (Some \<lparr>resp_Msg = Some (1::nat), resp_Meta = meta_zero\<rparr>)
          (\<lambda>e. Send None Return)))
     [None] []
   = (Some (NewError CodeInternal ''handler sent nil response''),
      [Some \<lparr>resp_Msg = Some 1, resp_Meta = meta_zero\<rparr>])"
  by (subst InvokeBidi_transparent) (simp_all add: guarded_send_def)

text \<open>
  C24. Whatever the middleware and the handler do, a server stream is never asked to send a nil
  response or a response with a nil message: \<open>InvokeServerStream\<close> cannot tell two streams apart
  that agree on the non-nil responses.
\<close>

theorem InvokeServerStream_never_sends_nil:
  assumes "\<And>r w. resp_Msg r \<noteq> None \<Longrightarrow> send (Some r) w = send' (Some r) w"
  shows "InvokeServerStream tq ts ctx spec req \<lparr>ss_Context = sctx, ss_Send = send\<rparr> handler interceptors w
       = InvokeServerStream tq ts ctx spec req \<lparr>ss_Context = sctx, ss_Send = send'\<rparr> handler interceptors w"
  using assms by (rule InvokeServerStream_cong)

theorem InvokeServerStream_never_sends_nil_witness:
  "InvokeServerStream ''Req'' ''Res'' () \<lparr>cs_Procedure = [], cs_Transport = [], cs_Shape = []\<rparr> None
     \<lparr>ss_Context = (), ss_Send = (\<lambda>m w. (None, m # w))\<rparr>
     (\<lambda>ctx req st. ss_Send st None) [] ([] :: nat response option list)
   = InvokeServerStream ''Req'' ''Res'' () \<lparr>cs_Procedure = [], cs_Transport = [], cs_Shape = []\<rparr> None
     \<lparr>ss_Context = (), ss_Send = (\<lambda>m w. if m = None then (Some EOF, w) else (None, m # w))\<rparr>
     (\<lambda>ctx req st. ss_Send st None) [] []"
  by (rule InvokeServerStream_never_sends_nil) simp

text \<open>
  C5. Unary and server-stream middleware and handlers can receive the request once: from a fresh
  conn, \<open>n + 1\<close> receives give the request and then \<open>n\<close> times \<open>io.EOF\<close>.
\<close>

theorem unary_request_received_once:
  "receive_n (conn_Receive (unaryConn tq ts ctx spec req)) (Suc n) (conn_start w)
     = Inr (RequestView tq spec req) # replicate n (Inl EOF)
   \<and> receive_n (conn_Receive (serverStreamConn tq ts spec req stream)) (Suc n) (conn_start w)
     = Inr (RequestView tq spec req) # replicate n (Inl EOF)"
  by (rule conjI; rule unary_source.fresh_source_once server_stream_source.fresh_source_once)
     (simp_all add: conn_start_def)

text \<open>
  A middleware that does not call the next handler decides the call alone: nothing behind it,
  neither later interceptors nor the handler, has any influence, and those before it wrap it.
\<close>

theorem chainInterceptors_short_circuit:
  "chainInterceptors inner (outer @ Some (InterceptorFunc (Some (\<lambda>_. h))) # rest)
     = chainInterceptors h outer"
  by (simp add: chain_append)

text \<open>
  C7. A response of the wrong type never becomes the result of a call: \<open>Send\<close> on a result conn
  stores a middleware's response exactly when it carries a pointer of the declared response type,
  and otherwise fails with an internal error that leaves the conn unchanged.
\<close>

theorem result_Send_type_checked:
  "result_Send ts (ResponseValue a m) s =
     (if \<exists>p. a = AnyPtr ts p
      then (None, s\<lparr>cst_result := Some \<lparr>resp_Msg = (case a of AnyPtr _ p \<Rightarrow> p | AnyNil \<Rightarrow> None), resp_Meta = m\<rparr>\<rparr>)
      else (Some (NewError CodeInternal
              (''interceptor returned unexpected response type '' @ type_text a)), s))"
  by (auto simp: result_Send_def cast_other_response_def split: go_any.splits)

end
