(* ===== verification/Codec.thy ===== *)
theory Codec imports Errors begin

text \<open>
  The interface every scalar text parser of the program implements, the config parsers and the CLI
  flag values alike, and the interface of a repeated flag built on one: what a client may rely on
  when it prints a value and gives the text back.
\<close>

type_synonym int32 = "32 word"
type_synonym int64 = "64 word"
type_synonym uint32 = "32 word"
type_synonym uint64 = "64 word"

text \<open>The \<open>*strconv.NumError\<close> a failed conversion returns; it unwraps to its sentinel.\<close>

definition num_goerr :: "string \<Rightarrow> string \<Rightarrow> num_error \<Rightarrow> goerr" where
  [go_eval]: "num_goerr fn s e =
     OtherError (num_error_text fn s e)
       [Sentinel (case e of ErrSyntax \<Rightarrow> ''invalid syntax'' | ErrRange \<Rightarrow> ''value out of range'')]"

lemma StatusOf_num_goerr [simp]: "StatusOf (num_goerr fn s e) = None"
  by (simp add: num_goerr_def)

text \<open>
  What the program uses of floating point: values of the type \<open>'f\<close>, zero, \<open>strconv.ParseFloat\<close> at a bit size, the test
  \<open>n > math.MaxFloat32 || n < -math.MaxFloat32\<close>, the conversion to \<open>float32\<close> and \<open>FormatFloat\<close> with the format
  \<open>'g'\<close> and precision -1 at a bit size.
\<close>

record 'f float_ops =
  fl_zero :: 'f
  fl_parse :: "string \<Rightarrow> nat \<Rightarrow> num_error + 'f"
  fl_exceeds32 :: "'f \<Rightarrow> bool"
  fl_to32 :: "'f \<Rightarrow> 'f"
  fl_format :: "'f \<Rightarrow> nat \<Rightarrow> string"

locale scalar_codec =
  fixes parse :: "string \<Rightarrow> goerr + 'a"
    and show_text :: "'a \<Rightarrow> string"
  assumes parse_show: "parse (show_text v) = Inr v"
begin

lemma show_inj: "show_text v = show_text u \<Longrightarrow> v = u"
  by (metis parse_show sum.inject(2))

lemma parse_onto: "\<exists>s. parse s = Inr v"
  using parse_show by blast

end

locale repeated_codec = scalar_codec parse show_text
  for parse :: "string \<Rightarrow> goerr + 'a" and show_text :: "'a \<Rightarrow> string" +
  fixes push :: "string \<Rightarrow> 'a list \<Rightarrow> goerr + 'a list"
  assumes push_parse: "push s old = (case parse s of Inl e \<Rightarrow> Inl e | Inr v \<Rightarrow> Inr (old @ [v]))"
begin

lemma push_all: "fold_res push (map show_text vs) old = Inr (old @ vs)"
  by (induction vs arbitrary: old) (simp_all add: push_parse parse_show)

lemma push_extends:
  assumes "fold_res push ss old = Inr new"
  shows "\<exists>vs. new = old @ vs \<and> length vs = length ss"
  using assms
proof (induction ss arbitrary: old)
  case (Cons s ss)
  then obtain v where v: "parse s = Inr v" and "fold_res push ss (old @ [v]) = Inr new"
    by (cases "parse s") (simp_all add: push_parse[of s])
  with Cons.IH obtain vs where "new = (old @ [v]) @ vs" "length vs = length ss" by blast
  then show ?case by (intro exI[of _ "v # vs"]) simp
qed simp

end

section \<open>Widths\<close>

lemma sint32_bounds: "- (2 ^ 31) \<le> sint (w :: int32) \<and> sint w < 2 ^ 31"
  using sint_range_size[of w] by (simp add: word_size)

lemma sint64_bounds: "- (2 ^ 63) \<le> sint (w :: int64) \<and> sint w < 2 ^ 63"
  using sint_range_size[of w] by (simp add: word_size)

lemma ParseInt_sint32 [simp]: "ParseInt (FormatInt (sint (w :: int32))) 32 = Inr (sint w)"
  using sint32_bounds[of w] by (intro ParseInt_Format) simp_all

lemma ParseInt_sint64 [simp]: "ParseInt (FormatInt (sint (w :: int64))) 64 = Inr (sint w)"
  using sint64_bounds[of w] by (intro ParseInt_Format) simp_all

lemma ParseUint_unat32 [simp]: "ParseUint (FormatUint (unat (w :: uint32))) 32 = Inr (unat w)"
  using unsigned_less[of w, where ?'a = nat] by (intro ParseUint_Format) simp

lemma ParseUint_unat64 [simp]: "ParseUint (FormatUint (unat (w :: uint64))) 64 = Inr (unat w)"
  using unsigned_less[of w, where ?'a = nat] by (intro ParseUint_Format) simp

lemma sint_word_of_int32: "ParseInt s 32 = Inr i \<Longrightarrow> sint (word_of_int i :: int32) = i"
  using ParseInt_bounds[of s 32 i] by (simp add: sint_sbintrunc' signed_take_bit_int_eq_self)

lemma sint_word_of_int64: "ParseInt s 64 = Inr i \<Longrightarrow> sint (word_of_int i :: int64) = i"
  using ParseInt_bounds[of s 64 i] by (simp add: sint_sbintrunc' signed_take_bit_int_eq_self)

lemma unat_of_nat32: "ParseUint s 32 = Inr n \<Longrightarrow> unat (of_nat n :: uint32) = n"
  using ParseUint_bound[of s 32 n] by (simp add: unat_of_nat take_bit_nat_eq_self)

lemma unat_of_nat64: "ParseUint s 64 = Inr n \<Longrightarrow> unat (of_nat n :: uint64) = n"
  using ParseUint_bound[of s 64 n] by (simp add: unat_of_nat take_bit_nat_eq_self)

end
