(* ===== verification/CliFlag.thy ===== *)
theory CliFlag imports Codec begin

text \<open>
  \<open>transport/cli/flag.go\<close>: the \<open>flag.Value\<close> implementations behind generated flags. A value's
  pointed-to variable is the last argument of \<open>Set\<close>, which returns it updated; the pointer of
  \<open>String\<close> is an option, \<open>None\<close> for the nil pointers that help output uses. The float values
  take the operations on floats as an argument.
\<close>

record cli_enum_mapping =
  CLIValue :: string
  Number :: int32

section \<open>Scalar values\<close>

definition Int32Value_Set :: "string \<Rightarrow> int32 \<Rightarrow> goerr + int32" where
  [go_eval]: "Int32Value_Set s v =
     (case ParseInt s 32 of Inl e \<Rightarrow> Inl (num_goerr ''ParseInt'' s e) | Inr n \<Rightarrow> Inr (word_of_int n))"

definition Int32Value_String :: "int32 option \<Rightarrow> string" where
  [go_eval]: "Int32Value_String p = (case p of None \<Rightarrow> ''0'' | Some v \<Rightarrow> FormatInt (sint v))"

definition Int64Value_Set :: "string \<Rightarrow> int64 \<Rightarrow> goerr + int64" where
  [go_eval]: "Int64Value_Set s v =
     (case ParseInt s 64 of Inl e \<Rightarrow> Inl (num_goerr ''ParseInt'' s e) | Inr n \<Rightarrow> Inr (word_of_int n))"

definition Int64Value_String :: "int64 option \<Rightarrow> string" where
  [go_eval]: "Int64Value_String p = (case p of None \<Rightarrow> ''0'' | Some v \<Rightarrow> FormatInt (sint v))"

definition Uint32Value_Set :: "string \<Rightarrow> uint32 \<Rightarrow> goerr + uint32" where
  [go_eval]: "Uint32Value_Set s v =
     (case ParseUint s 32 of Inl e \<Rightarrow> Inl (num_goerr ''ParseUint'' s e) | Inr n \<Rightarrow> Inr (of_nat n))"

definition Uint32Value_String :: "uint32 option \<Rightarrow> string" where
  [go_eval]: "Uint32Value_String p = (case p of None \<Rightarrow> ''0'' | Some v \<Rightarrow> FormatUint (unat v))"

definition Uint64Value_Set :: "string \<Rightarrow> uint64 \<Rightarrow> goerr + uint64" where
  [go_eval]: "Uint64Value_Set s v =
     (case ParseUint s 64 of Inl e \<Rightarrow> Inl (num_goerr ''ParseUint'' s e) | Inr n \<Rightarrow> Inr (of_nat n))"

definition Uint64Value_String :: "uint64 option \<Rightarrow> string" where
  [go_eval]: "Uint64Value_String p = (case p of None \<Rightarrow> ''0'' | Some v \<Rightarrow> FormatUint (unat v))"

definition overflows_float32 :: "string \<Rightarrow> goerr" where
  [go_eval]: "overflows_float32 s = Errorf_plain (''value '' @ s @ '' overflows float32'')"

definition Float32Value_Set :: "'f float_ops \<Rightarrow> string \<Rightarrow> 'f \<Rightarrow> goerr + 'f" where
  [go_eval]: "Float32Value_Set fl s v =
     (case fl_parse fl s 32 of
        Inl e \<Rightarrow> Inl (num_goerr ''ParseFloat'' s e)
      | Inr n \<Rightarrow> if fl_exceeds32 fl n then Inl (overflows_float32 s) else Inr (fl_to32 fl n))"

definition Float32Value_String :: "'f float_ops \<Rightarrow> 'f option \<Rightarrow> string" where
  [go_eval]: "Float32Value_String fl p = (case p of None \<Rightarrow> ''0'' | Some v \<Rightarrow> fl_format fl v 32)"

section \<open>Enum values\<close>

fun find_cli_value :: "string \<Rightarrow> cli_enum_mapping list \<Rightarrow> int32 option" where
  "find_cli_value lower [] = None"
| "find_cli_value lower (m # ms) =
     (if to_lower (CLIValue m) = lower then Some (Number m) else find_cli_value lower ms)"

fun find_number :: "int32 \<Rightarrow> cli_enum_mapping list \<Rightarrow> string option" where
  "find_number n [] = None"
| "find_number n (m # ms) = (if Number m = n then Some (CLIValue m) else find_number n ms)"

definition invalid_enum :: "string \<Rightarrow> string \<Rightarrow> string list \<Rightarrow> goerr" where
  [go_eval]: "invalid_enum typeName s valid =
     Errorf_plain (''invalid '' @ typeName @ '' value '' @ go_quote s @ '' (valid: '' @ join valid '', '' @ '')'')"

definition EnumValue_Set :: "cli_enum_mapping list \<Rightarrow> string \<Rightarrow> string \<Rightarrow> int32 \<Rightarrow> goerr + int32" where
  [go_eval]: "EnumValue_Set mappings typeName s v =
     (case find_cli_value (to_lower s) mappings of
        Some n \<Rightarrow> Inr n
      | None \<Rightarrow> Inl (invalid_enum typeName s (map CLIValue mappings)))"

definition EnumValue_String :: "cli_enum_mapping list \<Rightarrow> int32 option \<Rightarrow> string" where
  [go_eval]: "EnumValue_String mappings p =
     (case p of
        None \<Rightarrow> []
      | Some v \<Rightarrow> if v = 0 then [] else (case find_number v mappings of Some t \<Rightarrow> t | None \<Rightarrow> []))"

section \<open>Repeated values\<close>

text \<open>The brackets every slice value prints, and \<open>[]\<close> for a nil or empty slice.\<close>

definition bracketed :: "('a \<Rightarrow> string) \<Rightarrow> 'a list option \<Rightarrow> string" where
  [go_eval]: "bracketed show_one p =
     (case p of
        None \<Rightarrow> ''[]''
      | Some vs \<Rightarrow> if vs = [] then ''[]'' else ''['' @ join (map show_one vs) '','' @ '']'')"

definition StringSliceValue_Set :: "string \<Rightarrow> string list \<Rightarrow> goerr + string list" where
  [go_eval]: "StringSliceValue_Set s vs = Inr (vs @ [s])"

definition StringSliceValue_String :: "string list option \<Rightarrow> string" where
  [go_eval]: "StringSliceValue_String p = bracketed (\<lambda>s. s) p"

definition BoolSliceValue_Set :: "string \<Rightarrow> bool list \<Rightarrow> goerr + bool list" where
  [go_eval]: "BoolSliceValue_Set s vs =
     (case ParseBool_std s of Inl e \<Rightarrow> Inl (num_goerr ''ParseBool'' s e) | Inr b \<Rightarrow> Inr (vs @ [b]))"

definition BoolSliceValue_String :: "bool list option \<Rightarrow> string" where
  [go_eval]: "BoolSliceValue_String p = bracketed FormatBool p"

definition Int32SliceValue_Set :: "string \<Rightarrow> int32 list \<Rightarrow> goerr + int32 list" where
  [go_eval]: "Int32SliceValue_Set s vs =
     (case ParseInt s 32 of Inl e \<Rightarrow> Inl (num_goerr ''ParseInt'' s e) | Inr n \<Rightarrow> Inr (vs @ [word_of_int n]))"

definition Int32SliceValue_String :: "int32 list option \<Rightarrow> string" where
  [go_eval]: "Int32SliceValue_String p = bracketed (\<lambda>v. FormatInt (sint v)) p"

definition Int64SliceValue_Set :: "string \<Rightarrow> int64 list \<Rightarrow> goerr + int64 list" where
  [go_eval]: "Int64SliceValue_Set s vs =
     (case ParseInt s 64 of Inl e \<Rightarrow> Inl (num_goerr ''ParseInt'' s e) | Inr n \<Rightarrow> Inr (vs @ [word_of_int n]))"

definition Int64SliceValue_String :: "int64 list option \<Rightarrow> string" where
  [go_eval]: "Int64SliceValue_String p = bracketed (\<lambda>v. FormatInt (sint v)) p"

definition Uint32SliceValue_Set :: "string \<Rightarrow> uint32 list \<Rightarrow> goerr + uint32 list" where
  [go_eval]: "Uint32SliceValue_Set s vs =
     (case ParseUint s 32 of Inl e \<Rightarrow> Inl (num_goerr ''ParseUint'' s e) | Inr n \<Rightarrow> Inr (vs @ [of_nat n]))"

definition Uint32SliceValue_String :: "uint32 list option \<Rightarrow> string" where
  [go_eval]: "Uint32SliceValue_String p = bracketed (\<lambda>v. FormatUint (unat v)) p"

definition Uint64SliceValue_Set :: "string \<Rightarrow> uint64 list \<Rightarrow> goerr + uint64 list" where
  [go_eval]: "Uint64SliceValue_Set s vs =
     (case ParseUint s 64 of Inl e \<Rightarrow> Inl (num_goerr ''ParseUint'' s e) | Inr n \<Rightarrow> Inr (vs @ [of_nat n]))"

definition Uint64SliceValue_String :: "uint64 list option \<Rightarrow> string" where
  [go_eval]: "Uint64SliceValue_String p = bracketed (\<lambda>v. FormatUint (unat v)) p"

definition Float32SliceValue_Set :: "'f float_ops \<Rightarrow> string \<Rightarrow> 'f list \<Rightarrow> goerr + 'f list" where
  [go_eval]: "Float32SliceValue_Set fl s vs =
     (case fl_parse fl s 32 of
        Inl e \<Rightarrow> Inl (num_goerr ''ParseFloat'' s e)
      | Inr n \<Rightarrow> if fl_exceeds32 fl n then Inl (overflows_float32 s) else Inr (vs @ [fl_to32 fl n]))"

definition Float32SliceValue_String :: "'f float_ops \<Rightarrow> 'f list option \<Rightarrow> string" where
  [go_eval]: "Float32SliceValue_String fl p = bracketed (\<lambda>v. fl_format fl v 32) p"

definition Float64SliceValue_Set :: "'f float_ops \<Rightarrow> string \<Rightarrow> 'f list \<Rightarrow> goerr + 'f list" where
  [go_eval]: "Float64SliceValue_Set fl s vs =
     (case fl_parse fl s 64 of Inl e \<Rightarrow> Inl (num_goerr ''ParseFloat'' s e) | Inr n \<Rightarrow> Inr (vs @ [n]))"

definition Float64SliceValue_String :: "'f float_ops \<Rightarrow> 'f list option \<Rightarrow> string" where
  [go_eval]: "Float64SliceValue_String fl p = bracketed (\<lambda>v. fl_format fl v 64) p"

definition EnumSliceValue_Set ::
  "cli_enum_mapping list \<Rightarrow> string \<Rightarrow> string \<Rightarrow> int32 list \<Rightarrow> goerr + int32 list" where
  [go_eval]: "EnumSliceValue_Set mappings typeName s vs =
     (case find_cli_value (to_lower s) mappings of
        Some n \<Rightarrow> Inr (vs @ [n])
      | None \<Rightarrow> Inl (invalid_enum typeName s (map CLIValue mappings)))"

definition EnumSliceValue_String :: "cli_enum_mapping list \<Rightarrow> int32 list option \<Rightarrow> string" where
  [go_eval]: "EnumSliceValue_String mappings p =
     bracketed (\<lambda>n. case find_number n mappings of Some t \<Rightarrow> t | None \<Rightarrow> FormatInt (sint n)) p"

section \<open>The codec contract holds\<close>

interpretation int32_value: scalar_codec "\<lambda>s. Int32Value_Set s v" "\<lambda>v. Int32Value_String (Some v)" for v
  by unfold_locales (simp add: Int32Value_Set_def Int32Value_String_def)

interpretation int64_value: scalar_codec "\<lambda>s. Int64Value_Set s v" "\<lambda>v. Int64Value_String (Some v)" for v
  by unfold_locales (simp add: Int64Value_Set_def Int64Value_String_def)

interpretation uint32_value: scalar_codec "\<lambda>s. Uint32Value_Set s v" "\<lambda>v. Uint32Value_String (Some v)" for v
  by unfold_locales (simp add: Uint32Value_Set_def Uint32Value_String_def)

interpretation uint64_value: scalar_codec "\<lambda>s. Uint64Value_Set s v" "\<lambda>v. Uint64Value_String (Some v)" for v
  by unfold_locales (simp add: Uint64Value_Set_def Uint64Value_String_def)

interpretation string_slice: repeated_codec "\<lambda>s. Inr s" "\<lambda>s. s" StringSliceValue_Set
  by unfold_locales (simp_all add: StringSliceValue_Set_def)

interpretation bool_slice: repeated_codec
  "\<lambda>s. map_err (num_goerr ''ParseBool'' s) (ParseBool_std s)" FormatBool BoolSliceValue_Set
  by unfold_locales (simp_all add: BoolSliceValue_Set_def split: sum.splits)

interpretation int32_slice: repeated_codec
  "\<lambda>s. Int32Value_Set s 0" "\<lambda>v. Int32Value_String (Some v)" Int32SliceValue_Set
  by unfold_locales (simp add: Int32SliceValue_Set_def Int32Value_Set_def split: sum.splits)

interpretation int64_slice: repeated_codec
  "\<lambda>s. Int64Value_Set s 0" "\<lambda>v. Int64Value_String (Some v)" Int64SliceValue_Set
  by unfold_locales (simp add: Int64SliceValue_Set_def Int64Value_Set_def split: sum.splits)

interpretation uint32_slice: repeated_codec
  "\<lambda>s. Uint32Value_Set s 0" "\<lambda>v. Uint32Value_String (Some v)" Uint32SliceValue_Set
  by unfold_locales (simp add: Uint32SliceValue_Set_def Uint32Value_Set_def split: sum.splits)

interpretation uint64_slice: repeated_codec
  "\<lambda>s. Uint64Value_Set s 0" "\<lambda>v. Uint64Value_String (Some v)" Uint64SliceValue_Set
  by unfold_locales (simp add: Uint64SliceValue_Set_def Uint64Value_Set_def split: sum.splits)

section \<open>Properties\<close>

lemma find_number_in: "find_number n ms = Some t \<Longrightarrow> \<exists>m\<in>set ms. CLIValue m = t \<and> Number m = n"
  by (induction ms) (auto split: if_splits)

lemma find_number_present: "n \<in> Number ` set ms \<Longrightarrow> \<exists>t. find_number n ms = Some t"
  by (induction ms) auto

lemma find_cli_value_unique:
  "distinct (map (\<lambda>m. to_lower (CLIValue m)) ms) \<Longrightarrow> m \<in> set ms \<Longrightarrow> to_lower t = to_lower (CLIValue m) \<Longrightarrow>
     find_cli_value (to_lower t) ms = Some (Number m)"
  by (induction ms) (auto simp: image_iff)

lemma find_cli_value_None:
  "find_cli_value lower ms = None \<longleftrightarrow> (\<forall>m\<in>set ms. to_lower (CLIValue m) \<noteq> lower)"
  by (induction ms) auto

text \<open>
  C15. Integer flags print what they parse: for every value of every width, \<open>Set\<close> of the text
  \<open>String\<close> prints stores that value, whatever the variable held before.
\<close>

theorem int_flags_round_trip:
  "Int32Value_Set (Int32Value_String (Some i32)) a = Inr i32
   \<and> Int64Value_Set (Int64Value_String (Some i64)) b = Inr i64
   \<and> Uint32Value_Set (Uint32Value_String (Some u32)) c = Inr u32
   \<and> Uint64Value_Set (Uint64Value_String (Some u64)) d = Inr u64"
  by (intro conjI int32_value.parse_show int64_value.parse_show uint32_value.parse_show
      uint64_value.parse_show)

text \<open>
  C30. No integer flag truncates: a value is stored exactly when the text denotes an integer of the
  flag's range, and the stored word then denotes that integer.
\<close>

theorem int_flags_exact:
  "(Int32Value_Set s a = Inr i32 \<longleftrightarrow> ParseInt s 32 = Inr (sint i32))
   \<and> (Int64Value_Set s b = Inr i64 \<longleftrightarrow> ParseInt s 64 = Inr (sint i64))
   \<and> (Uint32Value_Set s c = Inr u32 \<longleftrightarrow> ParseUint s 32 = Inr (unat u32))
   \<and> (Uint64Value_Set s d = Inr u64 \<longleftrightarrow> ParseUint s 64 = Inr (unat u64))"
  by (auto simp: Int32Value_Set_def Int64Value_Set_def Uint32Value_Set_def Uint64Value_Set_def
      sint_word_of_int32 sint_word_of_int64 unat_of_nat32 unat_of_nat64 split: sum.splits)

text \<open>
  Repeating a flag appends: setting the printed texts of a list of values, one flag occurrence
  each, extends the slice by exactly those values in order.
\<close>

theorem slice_flags_append:
  "fold_res StringSliceValue_Set ss old_s = Inr (old_s @ ss)
   \<and> fold_res BoolSliceValue_Set (map FormatBool bs) old_b = Inr (old_b @ bs)
   \<and> fold_res Int32SliceValue_Set (map (\<lambda>v. Int32Value_String (Some v)) is) old_i = Inr (old_i @ is)
   \<and> fold_res Int64SliceValue_Set (map (\<lambda>v. Int64Value_String (Some v)) ls) old_l = Inr (old_l @ ls)
   \<and> fold_res Uint32SliceValue_Set (map (\<lambda>v. Uint32Value_String (Some v)) us) old_u = Inr (old_u @ us)
   \<and> fold_res Uint64SliceValue_Set (map (\<lambda>v. Uint64Value_String (Some v)) ws) old_w = Inr (old_w @ ws)"
  using string_slice.push_all[of ss old_s]
  by (simp add: bool_slice.push_all int32_slice.push_all int64_slice.push_all uint32_slice.push_all
      uint64_slice.push_all)

text \<open>
  An enum flag accepts the name it prints, in any letter case: with names that differ when
  lowercased, a text that equals the printed name of a declared non-zero value up to case sets that
  value.
\<close>

theorem enum_flag_round_trip:
  assumes "distinct (map (\<lambda>m. to_lower (CLIValue m)) mappings)"
    and "v \<noteq> 0" and "v \<in> Number ` set mappings"
    and "to_lower t = to_lower (EnumValue_String mappings (Some v))"
  shows "EnumValue_Set mappings typeName t old = Inr v"
proof -
  obtain name where name: "find_number v mappings = Some name"
    using find_number_present[OF assms(3)] by blast
  then obtain m where m: "m \<in> set mappings" "CLIValue m = name" "Number m = v"
    using find_number_in by blast
  have "to_lower t = to_lower (CLIValue m)"
    using assms(2,4) name m by (simp add: EnumValue_String_def)
  then have "find_cli_value (to_lower t) mappings = Some (Number m)"
    using find_cli_value_unique[OF assms(1) m(1)] by simp
  with m show ?thesis by (simp add: EnumValue_Set_def)
qed

theorem enum_flag_round_trip_witness:
  "EnumValue_Set [\<lparr>CLIValue = ''open'', Number = 1\<rparr>, \<lparr>CLIValue = ''closed'', Number = 2\<rparr>] ''State'' ''Closed'' 0
     = Inr 2"
  by (rule enum_flag_round_trip; code_simp)

end
