(* ===== verification/Bootstrap.thy ===== *)
theory Bootstrap imports Errors begin

text \<open>
  \<open>config/bootstrap.go\<close>: the parser of the bootstrap flags at the front of the command line. The
  Go loop's index \<open>i\<close> is the suffix \<open>argv[i:]\<close> of the arguments still to read; the \<open>allowed\<close> map is
  the list of its keys. A nil \<open>*BootstrapSpec\<close> is \<open>None\<close>, any other is its flag name.
\<close>

definition ReservedConfigFlag :: string where
  [go_eval]: "ReservedConfigFlag = ''config''"

record bootstrap_result =
  ConfigPath :: string
  Values :: "string \<rightharpoonup> string"
  Rest :: "string list"

section \<open>Operations\<close>

definition looksLikeFlagToken :: "string \<Rightarrow> bool" where
  [go_eval]: "looksLikeFlagToken arg \<longleftrightarrow> has_prefix arg ''--''"

definition validateBootstrapFlag :: "string \<Rightarrow> goerr option" where
  [go_eval]: "validateBootstrapFlag name =
     (if name = [] then Some (Errorf_plain ''bootstrap flag name must not be empty'')
      else if has_prefix name ''--'' then
        Some (Errorf_plain (''bootstrap flag '' @ go_quote name @ '' must not include -- prefix''))
      else if CHR ''='' \<in> set name then
        Some (Errorf_plain (''bootstrap flag '' @ go_quote name @ '' must not include '' @ [CHR 0x27, CHR ''='', CHR 0x27]))
      else None)"

fun buildAllowedBootstrapFlags :: "string option list \<Rightarrow> goerr + string list" where
  "buildAllowedBootstrapFlags [] = Inr []"
| "buildAllowedBootstrapFlags (None # specs) = Inl (Errorf_plain ''bootstrap spec must not be nil'')"
| "buildAllowedBootstrapFlags (Some flag # specs) =
     (case validateBootstrapFlag flag of
        Some e \<Rightarrow> Inl e
      | None \<Rightarrow> map_sum id (\<lambda>fs. flag # fs) (buildAllowedBootstrapFlags specs))"

text \<open>
  \<open>splitBootstrapArg\<close> on a non-empty suffix: an error, \<open>None\<close> for a token that is no bootstrap flag,
  or the flag's name, its value and the number of extra tokens consumed.
\<close>

definition splitBootstrapArg ::
  "string \<Rightarrow> string list \<Rightarrow> string list \<Rightarrow> goerr + (string \<times> string \<times> nat) option" where
  [go_eval]: "splitBootstrapArg arg later allowed =
     (if \<not> has_prefix arg ''--'' \<or> arg = ''--'' then Inr None
      else
        let nameValue = trim_prefix arg ''--'';
            idx = index_byte nameValue (CHR ''='');
            name = (case idx of None \<Rightarrow> nameValue | Some i \<Rightarrow> take i nameValue)
        in
          if name \<noteq> ReservedConfigFlag \<and> name \<notin> set allowed then Inr None
          else (case idx of
                  Some i \<Rightarrow> Inr (Some (name, drop (Suc i) nameValue, 0))
                | None \<Rightarrow>
                    (case later of
                       [] \<Rightarrow> Inl (Errorf_plain (''--'' @ name @ '' requires a value''))
                     | v # _ \<Rightarrow>
                         if looksLikeFlagToken v
                         then Inl (Errorf_plain (''--'' @ name @ '' requires a value''))
                         else Inr (Some (name, v, 1)))))"

definition applyBootstrapValue :: "bootstrap_result \<Rightarrow> string \<Rightarrow> string \<Rightarrow> goerr + bootstrap_result" where
  [go_eval]: "applyBootstrapValue out flagName val =
     (if flagName = ReservedConfigFlag then
        if ConfigPath out \<noteq> [] then Inl (Errorf_plain ''--config specified multiple times'')
        else Inr (out\<lparr>ConfigPath := val\<rparr>)
      else if Values out flagName \<noteq> None then
        Inl (Errorf_plain (''--'' @ flagName @ '' specified multiple times''))
      else Inr (out\<lparr>Values := (Values out)(flagName \<mapsto> val)\<rparr>))"

fun parse_bootstrap_loop :: "string list \<Rightarrow> string list \<Rightarrow> bootstrap_result \<Rightarrow> goerr + bootstrap_result" where
  "parse_bootstrap_loop [] allowed out = Inr out"
| "parse_bootstrap_loop (arg # later) allowed out =
     (case splitBootstrapArg arg later allowed of
        Inl e \<Rightarrow> Inl e
      | Inr None \<Rightarrow> Inr (out\<lparr>Rest := arg # later\<rparr>)
      | Inr (Some (name, val, consumed)) \<Rightarrow>
          (case applyBootstrapValue out name val of
             Inl e \<Rightarrow> Inl e
           | Inr out' \<Rightarrow> parse_bootstrap_loop (drop consumed later) allowed out'))"

definition bootstrap_empty :: bootstrap_result where
  [go_eval]: "bootstrap_empty = \<lparr>ConfigPath = [], Values = Map.empty, Rest = []\<rparr>"

definition ParseBootstrapArgs :: "string list \<Rightarrow> string option list \<Rightarrow> goerr + bootstrap_result" where
  [go_eval]: "ParseBootstrapArgs argv specs =
     (case buildAllowedBootstrapFlags specs of
        Inl e \<Rightarrow> Inl e
      | Inr allowed \<Rightarrow> parse_bootstrap_loop argv allowed bootstrap_empty)"

section \<open>What a command line means\<close>

text \<open>
  The specification: a use of a bootstrap flag is a name and a value, written as one token or two.
\<close>

datatype flag_use = Inline (use_name: string) (use_value: string) | Spaced (use_name: string) (use_value: string)

fun render_use :: "flag_use \<Rightarrow> string list" where
  "render_use (Inline n v) = [''--'' @ n @ ''='' @ v]"
| "render_use (Spaced n v) = [''--'' @ n, v]"

definition well_formed_use :: "string list \<Rightarrow> flag_use \<Rightarrow> bool" where
  "well_formed_use allowed u \<longleftrightarrow>
     (use_name u = ReservedConfigFlag \<or> use_name u \<in> set allowed) \<and>
     CHR ''='' \<notin> set (use_name u) \<and> use_name u \<noteq> [] \<and>
     (case u of Inline n v \<Rightarrow> True | Spaced n v \<Rightarrow> \<not> looksLikeFlagToken v)"

definition add_use :: "flag_use \<Rightarrow> bootstrap_result \<Rightarrow> goerr + bootstrap_result" where
  "add_use u out = applyBootstrapValue out (use_name u) (use_value u)"

text \<open>A token ends the bootstrap flags when it is not one of them.\<close>

definition ends_flags :: "string list \<Rightarrow> string list \<Rightarrow> bool" where
  "ends_flags allowed args \<longleftrightarrow>
     (case args of [] \<Rightarrow> True | a # later \<Rightarrow> splitBootstrapArg a later allowed = Inr None)"

section \<open>Lemmas\<close>

lemma buildAllowed_Inr:
  "buildAllowedBootstrapFlags specs = Inr fs \<longleftrightarrow> specs = map Some fs \<and> list_all (\<lambda>f. validateBootstrapFlag f = None) fs"
proof (induction specs arbitrary: fs rule: buildAllowedBootstrapFlags.induct)
  case (3 flag specs)
  show ?case
  proof (cases "validateBootstrapFlag flag")
    case None
    have "buildAllowedBootstrapFlags (Some flag # specs) = Inr fs \<longleftrightarrow>
        (\<exists>gs. buildAllowedBootstrapFlags specs = Inr gs \<and> fs = flag # gs)"
      using None by (cases "buildAllowedBootstrapFlags specs") auto
    also have "\<dots> \<longleftrightarrow> Some flag # specs = map Some fs \<and> list_all (\<lambda>f. validateBootstrapFlag f = None) fs"
      using None 3 by (cases fs) auto
    finally show ?thesis .
  next
    case (Some e)
    then show ?thesis by (cases fs) auto
  qed
qed auto

lemma dashes_prefix:
  "has_prefix (CHR ''-'' # CHR ''-'' # s) ''--''" "trim_prefix (CHR ''-'' # CHR ''-'' # s) ''--'' = s"
  using has_prefix_append[of "''--''" s] trim_prefix_append[of "''--''" s] by simp_all

lemma split_render_Inline:
  assumes "well_formed_use allowed (Inline n v)"
  shows "splitBootstrapArg (''--'' @ n @ ''='' @ v) later allowed = Inr (Some (n, v, 0))"
proof -
  have i: "index_byte (n @ CHR ''='' # v) (CHR ''='') = Some (length n)"
    using assms by (intro index_byte_append) (simp add: well_formed_use_def)
  show ?thesis
    using assms by (auto simp: splitBootstrapArg_def well_formed_use_def dashes_prefix i Let_def)
qed

lemma split_render_Spaced:
  assumes "well_formed_use allowed (Spaced n v)"
  shows "splitBootstrapArg (''--'' @ n) (v # later) allowed = Inr (Some (n, v, 1))"
proof -
  have "index_byte n (CHR ''='') = None"
    using assms by (simp add: index_byte_None well_formed_use_def)
  then show ?thesis
    using assms by (auto simp: splitBootstrapArg_def well_formed_use_def dashes_prefix Let_def)
qed

lemma split_recognized:
  assumes "splitBootstrapArg arg later allowed = Inr (Some (n, v, k))"
    and "list_all (\<lambda>f. validateBootstrapFlag f = None) allowed"
  shows "\<exists>u. well_formed_use allowed u \<and> use_name u = n \<and> use_value u = v \<and>
             arg # later = render_use u @ drop k later"
proof -
  define nv where "nv = trim_prefix arg ''--''"
  have pre: "has_prefix arg ''--''" "arg \<noteq> ''--''"
    using assms(1) by (auto simp: splitBootstrapArg_def split: if_splits)
  then obtain r where r: "arg = ''--'' @ r" by (auto simp: has_prefix_iff)
  then have nv: "nv = r" unfolding nv_def using trim_prefix_append[of "''--''" r] by simp
  have ok: "n = ReservedConfigFlag \<or> n \<in> set allowed"
    using assms(1) pre by (auto simp: splitBootstrapArg_def Let_def split: if_splits option.splits list.splits)
  have ne: "n \<noteq> []" "CHR ''='' \<notin> set n"
    using ok assms(2) by (auto simp: ReservedConfigFlag_def list_all_iff validateBootstrapFlag_def split: if_splits)
  show ?thesis
  proof (cases "index_byte nv (CHR ''='')")
    case None
    with assms(1) pre obtain rest where "later = v # rest" "n = nv" "k = 1" "\<not> looksLikeFlagToken v"
      by (auto simp: splitBootstrapArg_def Let_def nv_def split: if_splits list.splits)
    with r nv ok ne show ?thesis
      by (intro exI[of _ "Spaced n v"]) (auto simp: well_formed_use_def)
  next
    case (Some i)
    with assms(1) pre have "n = take i nv" "v = drop (Suc i) nv" "k = 0"
      by (auto simp: splitBootstrapArg_def Let_def nv_def split: if_splits)
    with index_byte_Some[OF Some] r nv ok ne show ?thesis
      by (intro exI[of _ "Inline n v"]) (auto simp: well_formed_use_def)
  qed
qed

lemma add_use_Rest: "add_use u out = Inr out' \<Longrightarrow> Rest out' = Rest out"
  by (auto simp: add_use_def applyBootstrapValue_def split: if_splits)

lemma parse_use:
  assumes "well_formed_use allowed u"
  shows "parse_bootstrap_loop (render_use u @ rest) allowed out =
           (case add_use u out of Inl e \<Rightarrow> Inl e | Inr out' \<Rightarrow> parse_bootstrap_loop rest allowed out')"
proof (cases u)
  case (Inline n v)
  with split_render_Inline assms show ?thesis
    by (simp add: add_use_def split: sum.splits)
next
  case (Spaced n v)
  with split_render_Spaced assms show ?thesis
    by (simp add: add_use_def split: sum.splits)
qed

lemma parse_uses:
  assumes "list_all (well_formed_use allowed) us" and "ends_flags allowed rest" and "Rest out = []"
  shows "parse_bootstrap_loop (concat (map render_use us) @ rest) allowed out =
           (case fold_res add_use us out of Inl e \<Rightarrow> Inl e | Inr out' \<Rightarrow> Inr (out'\<lparr>Rest := rest\<rparr>))"
  using assms
proof (induction us arbitrary: out)
  case Nil
  then show ?case by (cases rest) (simp_all add: ends_flags_def)
next
  case (Cons u us)
  then show ?case
    by (auto simp: parse_use dest: add_use_Rest split: sum.splits)
qed

lemma parse_decomposes:
  assumes "parse_bootstrap_loop argv allowed out = Inr r" and "Rest out = []"
    and "list_all (\<lambda>f. validateBootstrapFlag f = None) allowed"
  shows "\<exists>us. argv = concat (map render_use us) @ Rest r \<and> list_all (well_formed_use allowed) us \<and>
              ends_flags allowed (Rest r) \<and> fold_res add_use us out = Inr (r\<lparr>Rest := []\<rparr>)"
  using assms
proof (induction argv allowed out rule: parse_bootstrap_loop.induct)
  case (1 allowed out)
  then show ?case by (intro exI[of _ "[]"]) (simp add: ends_flags_def)
next
  case (2 arg later allowed out)
  from "2.prems"(1) consider (stop) "splitBootstrapArg arg later allowed = Inr None"
    | (flag) n v k out' where "splitBootstrapArg arg later allowed = Inr (Some (n, v, k))"
        "applyBootstrapValue out n v = Inr out'"
        "parse_bootstrap_loop (drop k later) allowed out' = Inr r"
    by (auto split: sum.splits option.splits)
  then show ?case
  proof cases
    case stop
    with 2 show ?thesis by (intro exI[of _ "[]"]) (auto simp: ends_flags_def)
  next
    case flag
    then obtain u where u: "well_formed_use allowed u" "use_name u = n" "use_value u = v"
        "arg # later = render_use u @ drop k later"
      using split_recognized "2.prems"(3) by blast
    have add: "add_use u out = Inr out'" using u flag by (simp add: add_use_def)
    have "Rest out' = []" using add_use_Rest[OF add] "2.prems"(2) by simp
    with "2.IH"[OF flag(1) refl refl refl flag(2,3)] "2.prems"(3) obtain us where
      "drop k later = concat (map render_use us) @ Rest r" "list_all (well_formed_use allowed) us"
      "ends_flags allowed (Rest r)" "fold_res add_use us out' = Inr (r\<lparr>Rest := []\<rparr>)" by blast
    with u add show ?thesis by (intro exI[of _ "u # us"]) simp
  qed
qed

lemma validated_flag:
  "validateBootstrapFlag f = None \<longleftrightarrow> f \<noteq> [] \<and> \<not> has_prefix f ''--'' \<and> CHR ''='' \<notin> set f"
  by (auto simp: validateBootstrapFlag_def)

text \<open>What a list of uses sets: the configuration paths and the bootstrap flags, in order.\<close>

definition config_paths :: "flag_use list \<Rightarrow> string list" where
  "config_paths us = map use_value (filter (\<lambda>u. use_name u = ReservedConfigFlag) us)"

definition bootstrap_uses :: "flag_use list \<Rightarrow> (string \<times> string) list" where
  "bootstrap_uses us = map (\<lambda>u. (use_name u, use_value u)) (filter (\<lambda>u. use_name u \<noteq> ReservedConfigFlag) us)"

definition last_path :: "string list \<Rightarrow> string" where
  "last_path ps = (if ps = [] then [] else last ps)"

lemma uses_simps [simp]:
  "config_paths [] = []" "bootstrap_uses [] = []"
  "config_paths (us @ [u]) = config_paths us @ (if use_name u = ReservedConfigFlag then [use_value u] else [])"
  "bootstrap_uses (us @ [u]) =
     bootstrap_uses us @ (if use_name u \<noteq> ReservedConfigFlag then [(use_name u, use_value u)] else [])"
  by (simp_all add: config_paths_def bootstrap_uses_def)

lemma fold_uses:
  "fold_res add_use us bootstrap_empty = Inr r \<longleftrightarrow>
     distinct (map fst (bootstrap_uses us)) \<and> set (butlast (config_paths us)) \<subseteq> {[]} \<and>
     r = \<lparr>ConfigPath = last_path (config_paths us), Values = map_of (bootstrap_uses us), Rest = []\<rparr>"
proof (induction us arbitrary: r rule: rev_induct)
  case Nil
  then show ?case by (auto simp: bootstrap_empty_def last_path_def)
next
  case (snoc u us)
  have paths: "set ps \<subseteq> {[]} \<longleftrightarrow> set (butlast ps) \<subseteq> {[]} \<and> last_path ps = []" for ps :: "string list"
    by (cases ps rule: rev_cases) (auto simp: last_path_def)
  have step: "fold_res add_use (us @ [u]) bootstrap_empty = Inr r \<longleftrightarrow>
      (\<exists>m. fold_res add_use us bootstrap_empty = Inr m \<and> add_use u m = Inr r)"
    by (auto simp: fold_res_append split: sum.splits)
  show ?case
  proof (cases "use_name u = ReservedConfigFlag")
    case True
    then have "last_path (config_paths (us @ [u])) = use_value u" by (simp add: last_path_def)
    with True show ?thesis
      by (simp add: step snoc add_use_def[of u] applyBootstrapValue_def paths[of "config_paths us"])
        (auto simp: butlast_append)
  next
    case False
    have "map_of (bootstrap_uses us) (use_name u) = None \<longleftrightarrow> use_name u \<notin> fst ` set (bootstrap_uses us)"
      by (simp add: map_of_eq_None_iff)
    with False show ?thesis
      by (simp add: step snoc add_use_def[of u] applyBootstrapValue_def del: map_of_append)
        (auto simp: map_of_snoc_fresh simp del: map_of_append)
  qed
qed

section \<open>Properties\<close>


text \<open>
  C21. On a sequence of well-formed uses the parser rejects a second use of a registered flag whatever its
  values, but of \<open>--config\<close> only a use after a non-empty path: an empty \<open>--config=\<close> may be repeated or
  overridden. Otherwise it returns each flag's one value, the last path and the untouched rest.
\<close>

theorem ParseBootstrapArgs_duplicates:
  assumes "list_all (\<lambda>f. f \<noteq> [] \<and> \<not> has_prefix f ''--'' \<and> CHR ''='' \<notin> set f) allowed"
    and "list_all (well_formed_use allowed) us" and "ends_flags allowed rest"
  shows "ParseBootstrapArgs (concat (map render_use us) @ rest) (map Some allowed) = Inr r \<longleftrightarrow>
           distinct (map fst (bootstrap_uses us)) \<and> set (butlast (config_paths us)) \<subseteq> {[]} \<and>
           r = \<lparr>ConfigPath = last_path (config_paths us), Values = map_of (bootstrap_uses us), Rest = rest\<rparr>"
proof -
  have b: "buildAllowedBootstrapFlags (map Some allowed) = Inr allowed"
    using assms(1) by (simp add: buildAllowed_Inr validated_flag)
  have "ParseBootstrapArgs (concat (map render_use us) @ rest) (map Some allowed) = Inr r \<longleftrightarrow>
      (\<exists>out. fold_res add_use us bootstrap_empty = Inr out \<and> r = out\<lparr>Rest := rest\<rparr>)"
    using parse_uses[OF assms(2,3), of bootstrap_empty] b
    by (auto simp: ParseBootstrapArgs_def bootstrap_empty_def split: sum.splits)
  then show ?thesis by (auto simp: fold_uses)
qed

theorem ParseBootstrapArgs_duplicates_witness:
  "ParseBootstrapArgs [''--config='', ''--config=b'', ''--debug'', ''1'', ''run''] [Some ''debug''] =
     Inr \<lparr>ConfigPath = ''b'', Values = map_of [(''debug'', ''1'')], Rest = [''run'']\<rparr>"
proof -
  let ?us = "[Inline ''config'' [], Inline ''config'' ''b'', Spaced ''debug'' ''1'']"
  have argv: "concat (map render_use ?us) @ [''run''] =
      [''--config='', ''--config=b'', ''--debug'', ''1'', ''run'']" by simp
  have c: "config_paths ?us = [[], ''b'']" "bootstrap_uses ?us = [(''debug'', ''1'')]" by code_simp+
  have "ParseBootstrapArgs (concat (map render_use ?us) @ [''run'']) (map Some [''debug'']) =
      Inr \<lparr>ConfigPath = ''b'', Values = map_of [(''debug'', ''1'')], Rest = [''run'']\<rparr> \<longleftrightarrow> True"
    by (subst ParseBootstrapArgs_duplicates) (code_simp, code_simp, code_simp, simp add: c last_path_def)
  then show ?thesis using argv by simp
qed

end
