(* ===== verification/ConfigParse.thy ===== *)
theory ConfigParse imports Codec begin

text \<open>
  \<open>config/parse.go\<close>, \<open>config/env.go\<close>, \<open>config/required.go\<close> and \<open>config/redact.go\<close>: the text parsers of
  configuration scalars and the helpers generated configuration code calls. The float parsers take
  the operations on floats as an argument. A byte slice is a string.
\<close>

section \<open>encoding/base64\<close>

text \<open>
  \<open>StdEncoding.DecodeString\<close>: the decoder reads quanta of four alphabet characters, skips newlines
  anywhere and accepts padding only at the end. \<open>si\<close> is the input offset of the next byte and \<open>buf\<close>
  holds the sextets read of the current quantum; an error carries the offset Go reports.
\<close>

definition b64_alphabet :: string where
  [go_std]: "b64_alphabet = ''ABCDEFGHIJKLMNOPQRSTUVWXYZabcdefghijklmnopqrstuvwxyz0123456789+/''"

definition b64_val :: "char \<Rightarrow> nat option" where
  [go_std]: "b64_val c = index_byte b64_alphabet c"

definition is_newline :: "char \<Rightarrow> bool" where
  [go_std]: "is_newline c \<longleftrightarrow> c = CHR 0x0A \<or> c = CHR 0x0D"

definition byte_of :: "nat \<Rightarrow> char" where
  [go_std]: "byte_of n = char_of (n mod 256)"

definition b64_bytes :: "nat list \<Rightarrow> string" where
  [go_std]: "b64_bytes buf =
     (case buf of
        [a, b, c, d] \<Rightarrow>
          (let n = a * 262144 + b * 4096 + c * 64 + d in [byte_of (n div 65536), byte_of (n div 256), byte_of n])
      | [a, b, c] \<Rightarrow>
          (let n = a * 262144 + b * 4096 + c * 64 in [byte_of (n div 65536), byte_of (n div 256)])
      | [a, b] \<Rightarrow> (let n = a * 262144 + b * 4096 in [byte_of (n div 65536)])
      | _ \<Rightarrow> [])"

fun skip_newlines :: "string \<Rightarrow> nat \<Rightarrow> string \<times> nat" where
  "skip_newlines [] si = ([], si)"
| "skip_newlines (c # cs) si = (if is_newline c then skip_newlines cs (Suc si) else (c # cs, si))"

text \<open>After the last padding character only newlines may follow.\<close>

definition b64_end :: "string \<Rightarrow> nat \<Rightarrow> nat list \<Rightarrow> nat + string" where
  [go_std]: "b64_end cs si buf =
     (case skip_newlines cs si of
        ([], _) \<Rightarrow> Inr (b64_bytes buf)
      | (_ # _, si') \<Rightarrow> Inl si')"

definition b64_padding :: "string \<Rightarrow> nat \<Rightarrow> nat list \<Rightarrow> nat + string" where
  [go_std]: "b64_padding cs si buf =
     (if length buf < 2 then Inl (si - 1)
      else if length buf = 2 then
        (case skip_newlines cs si of
           ([], si') \<Rightarrow> Inl si'
         | (c # cs', si') \<Rightarrow> if c \<noteq> CHR ''='' then Inl (si' - 1) else b64_end cs' (Suc si') buf)
      else b64_end cs si buf)"

fun b64_decode :: "string \<Rightarrow> nat \<Rightarrow> nat list \<Rightarrow> nat + string" where
  "b64_decode [] si buf = (if buf = [] then Inr [] else Inl (si - length buf))"
| "b64_decode (c # cs) si buf =
     (case b64_val c of
        Some v \<Rightarrow>
          if length buf = 3 then map_sum id (\<lambda>r. b64_bytes (buf @ [v]) @ r) (b64_decode cs (Suc si) [])
          else b64_decode cs (Suc si) (buf @ [v])
      | None \<Rightarrow>
          if is_newline c then b64_decode cs (Suc si) buf
          else if c \<noteq> CHR ''='' then Inl si
          else b64_padding cs (Suc si) buf)"

text \<open>The reference encoder.\<close>

definition b64_char :: "nat \<Rightarrow> char" where
  [go_std]: "b64_char v = b64_alphabet ! v"

fun b64_encode :: "string \<Rightarrow> string" where
  "b64_encode (a # b # c # r) =
     (let n = of_char a * 65536 + of_char b * 256 + of_char c in
      map b64_char [n div 262144, n div 4096 mod 64, n div 64 mod 64, n mod 64]) @ b64_encode r"
| "b64_encode [a, b] =
     (let n = of_char a * 65536 + of_char b * 256 in
      map b64_char [n div 262144, n div 4096 mod 64, n div 64 mod 64]) @ ''=''"
| "b64_encode [a] =
     (let n = of_char a * 65536 in map b64_char [n div 262144, n div 4096 mod 64]) @ ''==''"
| "b64_encode [] = []"

section \<open>Scalar parsers\<close>

record enum_mapping =
  mapping_Name :: string
  mapping_Number :: int32

definition ParseString :: "string \<Rightarrow> goerr + string" where
  [go_eval]: "ParseString raw = Inr raw"

definition ParseBytes :: "string \<Rightarrow> goerr + string" where
  [go_eval]: "ParseBytes raw =
     (case b64_decode raw 0 [] of
        Inl off \<Rightarrow> Inl (wrapf ''parse bytes: '' (Errorf_plain (''illegal base64 data at input byte '' @ show_nat off)))
      | Inr v \<Rightarrow> Inr v)"

definition ParseBool :: "string \<Rightarrow> goerr + bool" where
  [go_eval]: "ParseBool raw =
     (case ParseBool_std raw of
        Inl e \<Rightarrow> Inl (wrapf ''parse bool: '' (num_goerr ''ParseBool'' raw e))
      | Inr v \<Rightarrow> Inr v)"

definition ParseInt32 :: "string \<Rightarrow> goerr + int32" where
  [go_eval]: "ParseInt32 raw =
     (case ParseInt raw 32 of
        Inl e \<Rightarrow> Inl (wrapf ''parse int32: '' (num_goerr ''ParseInt'' raw e))
      | Inr v \<Rightarrow> Inr (word_of_int v))"

definition ParseInt64 :: "string \<Rightarrow> goerr + int64" where
  [go_eval]: "ParseInt64 raw =
     (case ParseInt raw 64 of
        Inl e \<Rightarrow> Inl (wrapf ''parse int64: '' (num_goerr ''ParseInt'' raw e))
      | Inr v \<Rightarrow> Inr (word_of_int v))"

definition ParseUint32 :: "string \<Rightarrow> goerr + uint32" where
  [go_eval]: "ParseUint32 raw =
     (case ParseUint raw 32 of
        Inl e \<Rightarrow> Inl (wrapf ''parse uint32: '' (num_goerr ''ParseUint'' raw e))
      | Inr v \<Rightarrow> Inr (of_nat v))"

definition ParseUint64 :: "string \<Rightarrow> goerr + uint64" where
  [go_eval]: "ParseUint64 raw =
     (case ParseUint raw 64 of
        Inl e \<Rightarrow> Inl (wrapf ''parse uint64: '' (num_goerr ''ParseUint'' raw e))
      | Inr v \<Rightarrow> Inr (of_nat v))"

text \<open>
  \<open>ParseEnum\<close>: nil mappings are skipped; the names passed over are collected for the error text.
\<close>

definition ParseFloat32 :: "'f float_ops \<Rightarrow> string \<Rightarrow> goerr + 'f" where
  [go_eval]: "ParseFloat32 fl raw =
     (case fl_parse fl raw 32 of
        Inl e \<Rightarrow> Inl (wrapf ''parse float32: '' (num_goerr ''ParseFloat'' raw e))
      | Inr v \<Rightarrow>
          if fl_exceeds32 fl v then Inl (Errorf_plain (''parse float32: value '' @ go_quote raw @ '' overflows float32''))
          else Inr (fl_to32 fl v))"

definition ParseFloat64 :: "'f float_ops \<Rightarrow> string \<Rightarrow> goerr + 'f" where
  [go_eval]: "ParseFloat64 fl raw =
     (case fl_parse fl raw 64 of
        Inl e \<Rightarrow> Inl (wrapf ''parse float64: '' (num_goerr ''ParseFloat'' raw e))
      | Inr v \<Rightarrow> Inr v)"

fun parse_enum_loop :: "string \<Rightarrow> enum_mapping option list \<Rightarrow> string list \<Rightarrow> string list + int32" where
  "parse_enum_loop lower [] valid = Inl valid"
| "parse_enum_loop lower (None # ms) valid = parse_enum_loop lower ms valid"
| "parse_enum_loop lower (Some m # ms) valid =
     (if to_lower (mapping_Name m) = lower then Inr (mapping_Number m) else parse_enum_loop lower ms (valid @ [mapping_Name m]))"

definition ParseEnum :: "string \<Rightarrow> enum_mapping option list \<Rightarrow> string \<Rightarrow> goerr + int32" where
  [go_eval]: "ParseEnum raw mappings typeName =
     (case parse_enum_loop (to_lower raw) mappings [] of
        Inr n \<Rightarrow> Inr n
      | Inl valid \<Rightarrow>
          Inl (Errorf_plain (''invalid '' @ (if typeName = [] then ''enum'' else typeName) @ '' value '' @
            go_quote raw @ '' (valid: '' @ join valid '', '' @ '')'')))"

section \<open>Environment, required fields and redaction\<close>

text \<open>
  A setter writes the configuration, threaded as \<open>'s\<close>; nil functions are \<open>None\<close>.
\<close>

type_synonym env_lookup = "string \<Rightarrow> string option"

definition ApplyEnv ::
  "env_lookup option \<Rightarrow> string \<Rightarrow> (string \<Rightarrow> 's \<Rightarrow> goerr + 's) option \<Rightarrow> 's \<Rightarrow> goerr + 's" where
  [go_eval]: "ApplyEnv lookup envName setter s =
     (if envName = [] then Inr s
      else case lookup of
        None \<Rightarrow> Inl (Errorf_plain ''env lookup is nil'')
      | Some look \<Rightarrow>
          (case setter of
             None \<Rightarrow> Inl (Errorf_plain ''env setter is nil'')
           | Some set_it \<Rightarrow>
               (case look envName of
                  None \<Rightarrow> Inr s
                | Some raw \<Rightarrow> map_err (wrapf (''apply env '' @ envName @ '': '')) (set_it raw s))))"

definition ValidateRequired :: "string \<Rightarrow> bool \<Rightarrow> goerr option" where
  [go_eval]: "ValidateRequired fieldName present =
     (if present then None
      else if fieldName = [] then Some (Errorf_plain ''required field is not set'')
      else Some (Errorf_plain (fieldName @ '' is required'')))"

definition RedactedPlaceholder :: string where
  [go_eval]: "RedactedPlaceholder = ''[REDACTED]''"

text \<open>The comparison and the zero value of the type argument are the first arguments.\<close>

definition RedactIfSet :: "('a \<Rightarrow> 'a \<Rightarrow> bool) \<Rightarrow> 'a \<Rightarrow> 'a \<Rightarrow> 'a \<Rightarrow> 'a" where
  [go_eval]: "RedactIfSet eq zero val replacement = (if eq val zero then val else replacement)"

definition RedactBytes :: "string \<Rightarrow> string" where
  [go_eval]: "RedactBytes val = (if length val = 0 then val else RedactedPlaceholder)"

section \<open>Lemmas\<close>

lemma b64_val_char: "v < 64 \<Longrightarrow> b64_val (b64_char v) = Some v"
proof -
  have "list_all (\<lambda>v. b64_val (b64_char v) = Some v) [0..<64]" by code_simp
  then show "v < 64 \<Longrightarrow> b64_val (b64_char v) = Some v" by (simp add: list_all_iff)
qed

lemma digits_recompose:
  "(n div 262144) * 262144 + (n div 4096 mod 64) * 4096 + (n div 64 mod 64) * 64 + n mod 64 = (n::nat)"
proof -
  have "n div 4096 = n div 64 div 64" using div_mult2_eq[of n 64 64] by simp
  moreover have "n div 262144 = n div 4096 div 64" using div_mult2_eq[of n 4096 64] by simp
  moreover have "n div 64 * 64 + n mod 64 = n" "n div 64 div 64 * 64 + n div 64 mod 64 = n div 64"
    "n div 4096 div 64 * 64 + n div 4096 mod 64 = n div 4096" by (rule div_mult_mod_eq)+
  ultimately show ?thesis by linarith
qed

lemma of_char_bound: "of_char c < (256::nat)"
  using of_char_mod_256[of c, where ?'a = nat] by (metis mod_less_divisor zero_less_numeral)

lemma bytes_of_triple:
  fixes n :: nat
  assumes "n = of_char a * 65536 + of_char b * 256 + of_char c"
  shows "byte_of (n div 65536) = a" "byte_of (n div 256) = b" "byte_of n = c"
proof -
  have "n div 65536 = of_char a" "n div 256 = of_char a * 256 + of_char b"
    using assms of_char_bound[of b] of_char_bound[of c] by linarith+
  moreover have "n mod 256 = of_char c"
  proof -
    have "n = (of_char a * 256 + of_char b) * 256 + of_char c" using assms by simp
    then show ?thesis using of_char_bound[of c] by (metis mod_less mod_mult_self3)
  qed
  ultimately show "byte_of (n div 65536) = a" "byte_of (n div 256) = b" "byte_of n = c"
    using of_char_bound[of a] of_char_bound[of b] by (simp_all add: byte_of_def)
qed

lemma sextet_bound:
  fixes n :: nat
  assumes "n < 16777216"
  shows "n div 262144 < 64" "n div 4096 mod 64 < 64" "n div 64 mod 64 < 64" "n mod 64 < 64"
  using assms by simp_all

lemma triple_bound:
  "of_char a * 65536 + of_char b * 256 + of_char c < (16777216::nat)"
  using of_char_bound[of a] of_char_bound[of b] of_char_bound[of c] by linarith

lemma b64_decode_sextet:
  "v < 64 \<Longrightarrow> b64_decode (b64_char v # cs) si buf =
     (if length buf = 3 then map_sum id (\<lambda>r. b64_bytes (buf @ [v]) @ r) (b64_decode cs (Suc si) [])
      else b64_decode cs (Suc si) (buf @ [v]))"
  by (simp add: b64_val_char)

lemma b64_val_pad: "b64_val (CHR ''='') = None" "\<not> is_newline (CHR ''='')"
  by code_simp+

lemma b64_round_trip: "b64_decode (b64_encode bs) si [] = Inr bs"
proof (induction bs arbitrary: si rule: b64_encode.induct)
  case (1 a b c r)
  define n :: nat where "n = of_char a * 65536 + of_char b * 256 + of_char c"
  note bytes = bytes_of_triple[OF n_def]
  have "n < 16777216" unfolding n_def by (rule triple_bound)
  note s = sextet_bound[OF this]
  show ?case
    using 1 by (simp add: n_def[symmetric] Let_def b64_decode_sextet s b64_bytes_def digits_recompose bytes
        del: b64_decode.simps(2))
next
  case (2 a b)
  define n :: nat where "n = of_char a * 65536 + of_char b * 256"
  have n: "n = of_char a * 65536 + of_char b * 256 + of_char (CHR 0x00)" by (simp add: n_def)
  note bytes = bytes_of_triple[OF n]
  have "n < 16777216" unfolding n by (rule triple_bound)
  note s = sextet_bound[OF this]
  have "n mod 64 = 0" by (simp add: n_def mod_simps)
  with digits_recompose[of n]
  have sum: "n div 262144 * 262144 + n div 4096 mod 64 * 4096 + n div 64 mod 64 * 64 = n" by simp
  show ?case
    by (simp add: n_def[symmetric] Let_def b64_decode_sextet s del: b64_decode.simps(2))
      (simp add: b64_val_pad b64_padding_def b64_end_def b64_bytes_def Let_def sum bytes)
next
  case (3 a)
  define n :: nat where "n = of_char a * 65536"
  have n: "n = of_char a * 65536 + of_char (CHR 0x00) * 256 + of_char (CHR 0x00)" by (simp add: n_def)
  note bytes = bytes_of_triple[OF n]
  have "n < 16777216" unfolding n by (rule triple_bound)
  note s = sextet_bound[OF this]
  have "n mod 64 = 0" "n div 64 mod 64 = 0" by (simp_all add: n_def)
  with digits_recompose[of n]
  have sum: "n div 262144 * 262144 + n div 4096 mod 64 * 4096 = n" by simp
  show ?case
    by (simp add: n_def[symmetric] Let_def b64_decode_sextet s del: b64_decode.simps(2))
      (simp add: b64_val_pad b64_padding_def b64_end_def b64_bytes_def Let_def sum bytes)
qed simp

section \<open>The codec contract holds\<close>

interpretation string_scalar: scalar_codec ParseString "\<lambda>s. s"
  by unfold_locales (simp add: ParseString_def)

interpretation bytes_scalar: scalar_codec ParseBytes b64_encode
  by unfold_locales (simp add: ParseBytes_def b64_round_trip)

interpretation bool_scalar: scalar_codec ParseBool FormatBool
  by unfold_locales (simp add: ParseBool_def)

interpretation int32_scalar: scalar_codec ParseInt32 "\<lambda>v. FormatInt (sint v)"
  by unfold_locales (simp add: ParseInt32_def)

interpretation int64_scalar: scalar_codec ParseInt64 "\<lambda>v. FormatInt (sint v)"
  by unfold_locales (simp add: ParseInt64_def)

interpretation uint32_scalar: scalar_codec ParseUint32 "\<lambda>v. FormatUint (unat v)"
  by unfold_locales (simp add: ParseUint32_def)

interpretation uint64_scalar: scalar_codec ParseUint64 "\<lambda>v. FormatUint (unat v)"
  by unfold_locales (simp add: ParseUint64_def)

lemma parse_enum_find:
  "parse_enum_loop lower ms valid =
     (case List.find (\<lambda>m. to_lower (mapping_Name m) = lower) (List.map_filter id ms) of
        Some m \<Rightarrow> Inr (mapping_Number m)
      | None \<Rightarrow> Inl (valid @ map mapping_Name (List.map_filter id ms)))"
  by (induction lower ms valid rule: parse_enum_loop.induct)
    (auto simp: map_filter_simps id_def split: option.splits)

text \<open>The bytes decoded, with the offset of an error forgotten.\<close>

definition decoded :: "nat + string \<Rightarrow> string option" where
  "decoded r = (case r of Inl _ \<Rightarrow> None | Inr bs \<Rightarrow> Some bs)"

abbreviation no_newlines :: "string \<Rightarrow> string" where
  "no_newlines s \<equiv> filter (\<lambda>c. \<not> is_newline c) s"

lemma decoded_simps [simp]: "decoded (Inl e) = None" "decoded (Inr bs) = Some bs"
  by (simp_all add: decoded_def)

lemma decoded_map [simp]: "decoded (map_sum id f r) = map_option f (decoded r)"
  by (cases r) simp_all

lemma skip_newlines_filter: "no_newlines (fst (skip_newlines cs si)) = no_newlines cs"
  by (induction cs si rule: skip_newlines.induct) auto

lemma skip_newlines_head: "fst (skip_newlines cs si) = c # r \<Longrightarrow> \<not> is_newline c"
  by (induction cs si rule: skip_newlines.induct) (auto split: if_splits)

lemma skip_filtered: "skip_newlines (no_newlines cs) si = (no_newlines cs, si)"
  by (induction cs) auto

lemma b64_end_newlines: "decoded (b64_end (no_newlines cs) si buf) = decoded (b64_end cs si' buf)"
proof -
  obtain r o1 where skip: "skip_newlines cs si' = (r, o1)" by fastforce
  have "no_newlines r = no_newlines cs" using skip_newlines_filter[of cs si'] skip by simp
  moreover have "r = c # r' \<Longrightarrow> \<not> is_newline c" for c r' using skip_newlines_head[of cs si' c r'] skip by simp
  ultimately show ?thesis
    by (cases r) (auto simp: b64_end_def skip skip_filtered[of cs] split: list.splits)
qed

lemma b64_padding_newlines:
  "decoded (b64_padding (no_newlines cs) si buf) = decoded (b64_padding cs si' buf)"
proof -
  obtain r o1 where skip: "skip_newlines cs si' = (r, o1)" by fastforce
  have eq: "no_newlines cs = no_newlines r" using skip_newlines_filter[of cs si'] skip by simp
  have hd: "r = c # r' \<Longrightarrow> \<not> is_newline c" for c r' using skip_newlines_head[of cs si' c r'] skip by simp
  have two: "decoded (case skip_newlines (no_newlines cs) si of ([], si') \<Rightarrow> Inl si'
         | (c # cs', si') \<Rightarrow> if c \<noteq> CHR ''='' then Inl (si' - 1) else b64_end cs' (Suc si') buf) =
      decoded (case skip_newlines cs si' of ([], si') \<Rightarrow> Inl si'
         | (c # cs', si') \<Rightarrow> if c \<noteq> CHR ''='' then Inl (si' - 1) else b64_end cs' (Suc si') buf)"
  proof (cases r)
    case Nil
    with eq skip show ?thesis by (simp add: skip_filtered)
  next
    case (Cons c r')
    with eq hd have "no_newlines cs = c # no_newlines r'" by simp
    then have "skip_newlines (no_newlines cs) si = (c # no_newlines r', si)"
      using skip_filtered[of cs si] by simp
    with Cons skip show ?thesis by (simp add: b64_end_newlines)
  qed
  show ?thesis by (simp add: b64_padding_def two b64_end_newlines)
qed

lemma b64_val_newline: "is_newline c \<Longrightarrow> b64_val c = None"
proof -
  have "b64_val (CHR 0x0A) = None" "b64_val (CHR 0x0D) = None" by code_simp+
  then show "is_newline c \<Longrightarrow> b64_val c = None" by (auto simp: is_newline_def)
qed

lemma b64_decode_newlines: "decoded (b64_decode (no_newlines cs) si buf) = decoded (b64_decode cs si' buf)"
proof (induction cs arbitrary: si si' buf)
  case (Cons c cs)
  have last: "map_option f (decoded (b64_decode (no_newlines cs) (Suc si) [])) =
      map_option f (decoded (b64_decode cs (Suc si') []))" for f
    by (rule arg_cong[OF Cons.IH])
  show ?case
    by (cases "is_newline c")
      (auto simp: b64_val_newline b64_padding_newlines split: option.splits intro: Cons.IH last)
qed auto

section \<open>Properties\<close>


text \<open>
  A bytes value may be wrapped over lines: line feeds and carriage returns anywhere in a base64
  text, also between and after its padding, change neither the bytes read nor whether it is accepted.
\<close>

theorem ParseBytes_ignores_newlines:
  "ParseBytes raw = Inr bs \<longleftrightarrow> ParseBytes (filter (\<lambda>c. \<not> is_newline c) raw) = Inr bs"
proof -
  have dec: "ParseBytes t = Inr bs \<longleftrightarrow> decoded (b64_decode t 0 []) = Some bs" for t bs
    by (simp add: ParseBytes_def split: sum.splits)
  show ?thesis unfolding dec using b64_decode_newlines[of raw 0 "[]" 0] by simp
qed

text \<open>
  An enum value is resolved to the first declared mapping whose name equals the text in any letter
  case, nil entries skipped; when there is none the error lists every declared name in order.
\<close>

theorem ParseEnum_first_match:
  "ParseEnum raw mappings typeName =
     (case List.find (\<lambda>m. to_lower (mapping_Name m) = to_lower raw) (List.map_filter id mappings) of
        Some m \<Rightarrow> Inr (mapping_Number m)
      | None \<Rightarrow>
          Inl (Errorf_plain (''invalid '' @ (if typeName = [] then ''enum'' else typeName) @ '' value '' @
            go_quote raw @ '' (valid: '' @ join (map mapping_Name (List.map_filter id mappings)) '', '' @ '')'')))"
  by (simp add: ParseEnum_def parse_enum_find split: option.splits)

end
