(* ===== verification/ConfigLoad.thy ===== *)
theory ConfigLoad imports Bootstrap ConfigParse "HOL-Library.Multiset" begin

text \<open>
  \<open>config/spec.go\<close> and \<open>config/load.go\<close>: the loading pipeline of a configuration. A \<open>Spec\<close>'s closures
  act on the configuration instance, threaded as \<open>'s\<close>. The type argument of \<open>Load\<close> is what reflection
  shows of it: a provider itself, or a struct with its fields.
\<close>

section \<open>Specs\<close>

record 's spec =
  EnvNames :: "(string \<times> string) list"
  BootstrapSpecs :: "string option list"
  ApplyDefaults :: "'s \<Rightarrow> goerr + 's"
  ApplyConfigFile :: "string \<Rightarrow> 's \<Rightarrow> goerr + 's"
  ApplyEnv_spec :: "env_lookup \<Rightarrow> 's \<Rightarrow> goerr + 's"
  ApplyBootstrap :: "(string \<rightharpoonup> string) \<Rightarrow> 's \<Rightarrow> goerr + 's"
  ValidateRequired_spec :: "'s \<Rightarrow> goerr option"

record 's field_info =
  Anonymous :: bool
  IsPointer :: bool
  Provider :: "'s spec option"

datatype 's config_type =
    ProviderType "'s spec"
  | StructType string "'s field_info list"
  | OtherType string

text \<open>A run that may panic.\<close>

datatype 'a outcome = Panic | Return 'a

fun bind_outcome :: "('e + 'a) outcome \<Rightarrow> ('a \<Rightarrow> ('e + 'b) outcome) \<Rightarrow> ('e + 'b) outcome" where
  "bind_outcome Panic f = Panic"
| "bind_outcome (Return (Inl e)) f = Return (Inl e)"
| "bind_outcome (Return (Inr x)) f = f x"

section \<open>Collecting the specs\<close>

fun embedded_specs :: "'s field_info list \<Rightarrow> 's spec list" where
  "embedded_specs [] = []"
| "embedded_specs (f # fs) =
     (if \<not> Anonymous f then embedded_specs fs
      else if \<not> IsPointer f then embedded_specs fs
      else case Provider f of
        Some sp \<Rightarrow> sp # embedded_specs fs
      | None \<Rightarrow> embedded_specs fs)"

fun collectSpecs :: "'s config_type \<Rightarrow> goerr + 's spec list" where
  "collectSpecs (ProviderType sp) = Inr [sp]"
| "collectSpecs (OtherType rt) =
     Inl (Errorf_plain (''config type '' @ rt @ '' must be a struct or implement SpecProvider''))"
| "collectSpecs (StructType rt fs) =
     (let specs = embedded_specs fs in
      if length specs = 0
      then Inl (Errorf_plain (''config type '' @ rt @ '' has no embedded SpecProvider fields''))
      else Inr specs)"

section \<open>Conflicts\<close>

text \<open>
  \<open>envSeen\<close> is the map's content, \<open>flagSeen\<close> the set as a list. \<open>EnvNames\<close> is listed in the order
  the run ranges over the map. Reading the flag of a nil spec panics.
\<close>

fun check_envs :: "(string \<times> string) list \<Rightarrow> (string \<rightharpoonup> string) \<Rightarrow> goerr + (string \<rightharpoonup> string)" where
  "check_envs [] seen = Inr seen"
| "check_envs ((envName, fieldPath) # es) seen =
     (case seen envName of
        Some prev \<Rightarrow>
          Inl (Errorf_plain (''env var '' @ go_quote envName @ '' conflict: '' @ prev @ '' and '' @ fieldPath))
      | None \<Rightarrow> check_envs es (seen(envName \<mapsto> fieldPath)))"

fun check_flags :: "string option list \<Rightarrow> string list \<Rightarrow> (goerr + string list) outcome" where
  "check_flags [] seen = Return (Inr seen)"
| "check_flags (None # bs) seen = Panic"
| "check_flags (Some flag # bs) seen =
     (if flag \<in> set seen
      then Return (Inl (Errorf_plain
             (''bootstrap flag --'' @ flag @ '' conflict: declared by multiple configs'')))
      else check_flags bs (flag # seen))"

fun conflict_loop ::
  "'s spec list \<Rightarrow> (string \<rightharpoonup> string) \<Rightarrow> string list \<Rightarrow> (goerr + unit) outcome" where
  "conflict_loop [] envSeen flagSeen = Return (Inr ())"
| "conflict_loop (sp # specs) envSeen flagSeen =
     (case check_envs (EnvNames sp) envSeen of
        Inl e \<Rightarrow> Return (Inl e)
      | Inr envSeen' \<Rightarrow>
          bind_outcome (check_flags (BootstrapSpecs sp) flagSeen) (conflict_loop specs envSeen'))"

definition detectConflicts :: "'s spec list \<Rightarrow> (goerr + unit) outcome" where
  "detectConflicts specs =
     (if length specs \<le> 1 then Return (Inr ()) else conflict_loop specs Map.empty [])"

section \<open>Stages\<close>

definition applyAllDefaults :: "'s spec list \<Rightarrow> 's \<Rightarrow> goerr + 's" where
  "applyAllDefaults specs s =
     fold_res (\<lambda>sp s. map_err (wrapf ''apply defaults: '') (ApplyDefaults sp s)) specs s"

definition parseUnifiedBootstrap :: "string list \<Rightarrow> 's spec list \<Rightarrow> goerr + bootstrap_result" where
  "parseUnifiedBootstrap argv specs = ParseBootstrapArgs argv (concat (map BootstrapSpecs specs))"

definition applyConfigFile :: "'s spec list \<Rightarrow> string \<Rightarrow> 's \<Rightarrow> (goerr + 's) outcome" where
  "applyConfigFile specs configPath s =
     (if configPath = [] then Return (Inr s)
      else if 1 < length specs
      then Return (Inl (Errorf_plain ''--config is not supported with composite configs''))
      else case specs of
        [] \<Rightarrow> Panic
      | sp # _ \<Rightarrow> Return (map_err (wrapf (''load config file '' @ go_quote configPath @ '': ''))
                            (ApplyConfigFile sp configPath s)))"

definition applyAllEnv :: "env_lookup \<Rightarrow> 's spec list \<Rightarrow> 's \<Rightarrow> goerr + 's" where
  "applyAllEnv os_env specs s =
     fold_res (\<lambda>sp s. map_err (wrapf ''apply env: '') (ApplyEnv_spec sp os_env s)) specs s"

definition applyAllBootstrap :: "(string \<rightharpoonup> string) \<Rightarrow> 's spec list \<Rightarrow> 's \<Rightarrow> goerr + 's" where
  "applyAllBootstrap values specs s =
     fold_res (\<lambda>sp s. map_err (wrapf ''apply bootstrap: '') (ApplyBootstrap sp values s)) specs s"

definition validateAllRequired :: "'s spec list \<Rightarrow> 's \<Rightarrow> goerr option" where
  "validateAllRequired specs s = first_err (\<lambda>sp. ValidateRequired_spec sp s) specs"

text \<open>\<open>loadInto\<close> on the zero configuration \<open>s0\<close> and the process environment \<open>os_env\<close>.\<close>

definition loadInto ::
  "'s config_type \<Rightarrow> 's \<Rightarrow> env_lookup \<Rightarrow> string list \<Rightarrow> (goerr + ('s \<times> string list)) outcome" where
  "loadInto ty s0 os_env argv =
     bind_outcome (Return (collectSpecs ty)) (\<lambda>specs.
     bind_outcome (detectConflicts specs) (\<lambda>_.
     bind_outcome (Return (applyAllDefaults specs s0)) (\<lambda>s1.
     bind_outcome (Return (parseUnifiedBootstrap argv specs)) (\<lambda>boot.
     bind_outcome (applyConfigFile specs (ConfigPath boot) s1) (\<lambda>s2.
     bind_outcome (Return (applyAllEnv os_env specs s2)) (\<lambda>s3.
     bind_outcome (Return (applyAllBootstrap (Values boot) specs s3)) (\<lambda>s4.
     case validateAllRequired specs s4 of
       Some e \<Rightarrow> Return (Inl e)
     | None \<Rightarrow> Return (Inr (s4, Rest boot)))))))))"

definition Load ::
  "'s config_type \<Rightarrow> 's \<Rightarrow> env_lookup \<Rightarrow> string list \<Rightarrow> (goerr + ('s \<times> string list)) outcome" where
  "Load ty s0 os_env argv = loadInto ty s0 os_env argv"

section \<open>Lemmas\<close>

lemma bind_outcome_Inr:
  "bind_outcome m f = Return (Inr y) \<longleftrightarrow> (\<exists>x. m = Return (Inr x) \<and> f x = Return (Inr y))"
  by (cases "(m, f)" rule: bind_outcome.cases) auto

lemma embedded_specs_eq:
  "embedded_specs fs = List.map_filter Provider (filter (\<lambda>f. Anonymous f \<and> IsPointer f) fs)"
  by (induction fs) (auto simp: map_filter_simps split: option.splits)

lemma check_envs_ok:
  "(\<exists>seen'. check_envs es seen = Inr seen') \<longleftrightarrow> distinct (map fst es) \<and> fst ` set es \<inter> dom seen = {}"
proof (induction es arbitrary: seen)
  case (Cons e es)
  obtain k v where e: "e = (k, v)" by (cases e)
  show ?case
  proof (cases "seen k")
    case None
    then show ?thesis by (auto simp: e Cons simp del: fun_upd_apply)
  next
    case (Some v')
    then show ?thesis by (auto simp: e)
  qed
qed simp

lemma check_envs_dom:
  "check_envs es seen = Inr seen' \<Longrightarrow> dom seen' = dom seen \<union> fst ` set es"
  by (induction es seen rule: check_envs.induct) (auto split: option.splits)

lemma check_flags_ok:
  "check_flags bs seen = Return (Inr seen') \<longleftrightarrow>
     None \<notin> set bs \<and> distinct bs \<and> set bs \<inter> Some ` set seen = {} \<and> seen' = rev (map the bs) @ seen"
  by (induction bs seen rule: check_flags.induct) auto

definition all_envs :: "'s spec list \<Rightarrow> string list" where
  "all_envs specs = concat (map (\<lambda>sp. map fst (EnvNames sp)) specs)"

definition all_flags :: "'s spec list \<Rightarrow> string option list" where
  "all_flags specs = concat (map BootstrapSpecs specs)"

lemma disjoint_parts: "X \<inter> (Y \<union> Z) = {} \<longleftrightarrow> X \<inter> Y = {} \<and> Z \<inter> X = {}"
  by blast

lemma disjoint_left_Un: "(X \<union> Y) \<inter> Z = {} \<longleftrightarrow> X \<inter> Z = {} \<and> Y \<inter> Z = {}"
  by blast

lemma all_Cons [simp]:
  "all_envs (sp # specs) = map fst (EnvNames sp) @ all_envs specs"
  "all_flags (sp # specs) = BootstrapSpecs sp @ all_flags specs"
  by (simp_all add: all_envs_def all_flags_def)

lemma conflict_loop_ok:
  "conflict_loop specs envSeen flagSeen = Return (Inr ()) \<longleftrightarrow>
     distinct (all_envs specs) \<and> set (all_envs specs) \<inter> dom envSeen = {} \<and>
     None \<notin> set (all_flags specs) \<and> distinct (all_flags specs) \<and>
     set (all_flags specs) \<inter> Some ` set flagSeen = {}"
proof (induction specs envSeen flagSeen rule: conflict_loop.induct)
  case (1 envSeen flagSeen)
  then show ?case by (simp add: all_envs_def all_flags_def)
next
  case (2 sp specs envSeen flagSeen)
  show ?case
  proof (cases "check_envs (EnvNames sp) envSeen")
    case (Inl e)
    then show ?thesis using check_envs_ok[of "EnvNames sp" envSeen] by (auto simp: all_envs_def)
  next
    case (Inr env')
    have dist: "distinct (map fst (EnvNames sp))" "fst ` set (EnvNames sp) \<inter> dom envSeen = {}"
      using Inr check_envs_ok[of "EnvNames sp" envSeen] by auto
    have flags: "None \<notin> set (BootstrapSpecs sp) \<Longrightarrow>
        Some ` set (rev (map the (BootstrapSpecs sp)) @ flagSeen) = set (BootstrapSpecs sp) \<union> Some ` set flagSeen"
    proof -
      assume "None \<notin> set (BootstrapSpecs sp)"
      then have "Some ` the ` set (BootstrapSpecs sp) = id ` set (BootstrapSpecs sp)"
        unfolding image_image by (intro image_cong refl) (metis id_apply option.collapse)
      then show ?thesis by (simp add: image_Un)
    qed
    define A where "A \<longleftrightarrow> None \<notin> set (BootstrapSpecs sp) \<and> distinct (BootstrapSpecs sp) \<and>
        set (BootstrapSpecs sp) \<inter> Some ` set flagSeen = {}"
    define later where "later \<longleftrightarrow> distinct (all_envs specs) \<and>
        set (all_envs specs) \<inter> (dom envSeen \<union> fst ` set (EnvNames sp)) = {} \<and>
        None \<notin> set (all_flags specs) \<and> distinct (all_flags specs) \<and>
        set (all_flags specs) \<inter> (set (BootstrapSpecs sp) \<union> Some ` set flagSeen) = {}"
    have rec: "A \<Longrightarrow> conflict_loop specs env' (rev (map the (BootstrapSpecs sp)) @ flagSeen) = Return (Inr ())
        \<longleftrightarrow> later"
      unfolding "2.IH"[OF Inr] check_envs_dom[OF Inr] later_def by (subst flags) (simp_all add: A_def)
    have "conflict_loop (sp # specs) envSeen flagSeen = Return (Inr ()) \<longleftrightarrow>
        A \<and> conflict_loop specs env' (rev (map the (BootstrapSpecs sp)) @ flagSeen) = Return (Inr ())"
      by (auto simp: Inr bind_outcome_Inr check_flags_ok A_def)
    also have "\<dots> \<longleftrightarrow> A \<and> later"
      using rec by (rule conj_cong[OF refl])
    also have "\<dots> \<longleftrightarrow> distinct (all_envs (sp # specs)) \<and> set (all_envs (sp # specs)) \<inter> dom envSeen = {} \<and>
        None \<notin> set (all_flags (sp # specs)) \<and> distinct (all_flags (sp # specs)) \<and>
        set (all_flags (sp # specs)) \<inter> Some ` set flagSeen = {}"
      using dist disjoint_parts[of "set (all_envs specs)" "dom envSeen" "fst ` set (EnvNames sp)"]
        disjoint_parts[of "set (all_flags specs)" "set (BootstrapSpecs sp)" "Some ` set flagSeen"]
      by (auto simp only: A_def later_def all_Cons distinct_append set_append set_map Un_iff disjoint_left_Un)
    finally show ?thesis .
  qed
qed

lemma detectConflicts_ok:
  "detectConflicts specs = Return (Inr ()) \<longleftrightarrow>
     length specs \<le> 1 \<or>
     (distinct (all_envs specs) \<and> None \<notin> set (all_flags specs) \<and> distinct (all_flags specs))"
  by (simp add: detectConflicts_def conflict_loop_ok)

lemma collectSpecs_nonempty: "collectSpecs ty = Inr specs \<Longrightarrow> specs \<noteq> []"
  by (cases ty) (auto simp: Let_def split: if_splits)

lemma check_flags_Panic: "check_flags bs seen = Panic \<Longrightarrow> None \<in> set bs"
  by (induction bs seen rule: check_flags.induct) (auto split: if_splits)

lemma bind_outcome_Panic:
  "bind_outcome m f = Panic \<longleftrightarrow> m = Panic \<or> (\<exists>x. m = Return (Inr x) \<and> f x = Panic)"
  by (cases "(m, f)" rule: bind_outcome.cases) auto

lemma conflict_loop_Panic: "conflict_loop specs es fs = Panic \<Longrightarrow> None \<in> set (all_flags specs)"
  by (induction specs es fs rule: conflict_loop.induct)
    (auto simp: bind_outcome_Panic check_flags_Panic split: sum.splits)

lemma detectConflicts_Panic:
  "detectConflicts specs = Panic \<Longrightarrow> 1 < length specs \<and> None \<in> set (all_flags specs)"
  using conflict_loop_Panic[of specs] by (auto simp: detectConflicts_def split: if_splits)

text \<open>The stages a successful load ran, with the configuration after each.\<close>

lemma Load_stages:
  "Load ty s0 os_env argv = Return (Inr (s, rest)) \<longleftrightarrow>
     (\<exists>specs boot s1 s2 s3.
        collectSpecs ty = Inr specs \<and> detectConflicts specs = Return (Inr ()) \<and>
        applyAllDefaults specs s0 = Inr s1 \<and> parseUnifiedBootstrap argv specs = Inr boot \<and>
        applyConfigFile specs (ConfigPath boot) s1 = Return (Inr s2) \<and>
        applyAllEnv os_env specs s2 = Inr s3 \<and> applyAllBootstrap (Values boot) specs s3 = Inr s \<and>
        validateAllRequired specs s = None \<and> rest = Rest boot)"
proof -
  have opt: "(case v of Some e \<Rightarrow> Return (Inl e) | None \<Rightarrow> Return (Inr (t, r))) = Return (Inr (s, rest)) \<longleftrightarrow>
      v = None \<and> t = s \<and> r = rest" for v :: "goerr option" and t r
    by (cases v) auto
  show ?thesis unfolding Load_def loadInto_def bind_outcome_Inr opt by auto
qed

lemma applyConfigFile_ok:
  "applyConfigFile specs p s = Return (Inr s') \<Longrightarrow> p \<noteq> [] \<Longrightarrow> length specs = 1"
  by (auto simp: applyConfigFile_def split: if_splits list.splits)

section \<open>Properties\<close>

text \<open>
  A conflict is found exactly when there is one: two or more embedded configurations load past the
  check if and only if all their environment variables are different, none of their bootstrap specs is
  nil and all their bootstrap flags are different, whatever order the maps are ranged over in.
\<close>

theorem detectConflicts_exact:
  "detectConflicts specs = Return (Inr ()) \<longleftrightarrow>
     length specs \<le> 1 \<or>
     (distinct (concat (map (\<lambda>sp. map fst (EnvNames sp)) specs)) \<and>
      None \<notin> set (concat (map BootstrapSpecs specs)) \<and> distinct (concat (map BootstrapSpecs specs)))"
  using detectConflicts_ok[of specs] by (simp only: all_envs_def all_flags_def)

text \<open>
  C28. What a successful load guarantees: every spec's required check passes on the configuration
  returned, the arguments are well-formed bootstrap flags followed by exactly the arguments handed
  back, and a non-empty \<open>--config\<close> was given only if there is a single configuration.
\<close>

theorem Load_sound:
  assumes "Load ty s0 os_env argv = Return (Inr (s, rest))"
  shows "\<exists>specs us. collectSpecs ty = Inr specs
    \<and> list_all (\<lambda>sp. ValidateRequired_spec sp s = None) specs
    \<and> argv = concat (map render_use us) @ rest
    \<and> list_all (well_formed_use (map the (concat (map BootstrapSpecs specs)))) us
    \<and> (last_path (config_paths us) = [] \<or> length specs = 1)"
proof -
  from assms obtain specs boot s1 s2 s3 where st: "collectSpecs ty = Inr specs"
    "parseUnifiedBootstrap argv specs = Inr boot"
    "applyConfigFile specs (ConfigPath boot) s1 = Return (Inr s2)"
    "validateAllRequired specs s = None" "rest = Rest boot"
    by (auto simp: Load_stages)
  from st(2) obtain fs where fs: "buildAllowedBootstrapFlags (concat (map BootstrapSpecs specs)) = Inr fs"
    and loop: "parse_bootstrap_loop argv fs bootstrap_empty = Inr boot"
    by (auto simp: parseUnifiedBootstrap_def ParseBootstrapArgs_def split: sum.splits)
  then have flags: "concat (map BootstrapSpecs specs) = map Some fs"
    and valid: "list_all (\<lambda>f. validateBootstrapFlag f = None) fs" by (simp_all add: buildAllowed_Inr)
  have "Rest bootstrap_empty = []" by (simp add: bootstrap_empty_def)
  from parse_decomposes[OF loop this valid] obtain us where us: "argv = concat (map render_use us) @ Rest boot"
    "list_all (well_formed_use fs) us" "fold_res add_use us bootstrap_empty = Inr (boot\<lparr>Rest := []\<rparr>)" by blast
  have "map the (concat (map BootstrapSpecs specs)) = fs" by (simp only: flags map_map o_def option.sel map_ident)
  moreover have "ConfigPath boot = last_path (config_paths us)"
    using us(3)[unfolded fold_uses] by (metis bootstrap_result.select_convs(1) bootstrap_result.update_convs(3)
        bootstrap_result.surjective)
  moreover have "list_all (\<lambda>sp. ValidateRequired_spec sp s = None) specs"
    using st(4) by (simp add: validateAllRequired_def first_err_None list_all_iff)
  ultimately show ?thesis using st us applyConfigFile_ok[OF st(3)] by metis
qed

definition example_spec :: "string option list \<Rightarrow> nat spec" where
  "example_spec flags =
     \<lparr>EnvNames = [], BootstrapSpecs = flags, ApplyDefaults = (\<lambda>s. Inr 1), ApplyConfigFile = (\<lambda>p s. Inr (s + length p)),
      ApplyEnv_spec = (\<lambda>env s. Inr s), ApplyBootstrap = (\<lambda>vs s. Inr (s + 10)),
      ValidateRequired_spec = (\<lambda>s. if s = 0 then Some (Errorf_plain ''n is required'') else None)\<rparr>"

theorem Load_sound_witness:
  "\<exists>specs us. collectSpecs (ProviderType (example_spec [Some ''debug''])) = Inr specs
    \<and> list_all (\<lambda>sp. ValidateRequired_spec sp (14::nat) = None) specs
    \<and> [''--config=abc'', ''--debug'', ''on'', ''run''] = concat (map render_use us) @ [''run'']
    \<and> list_all (well_formed_use (map the (concat (map BootstrapSpecs specs)))) us
    \<and> (last_path (config_paths us) = [] \<or> length specs = 1)"
  by (rule Load_sound[where ty = "ProviderType (example_spec [Some ''debug''])" and ?s0.0 = 0 and os_env = "\<lambda>_. None"
        and argv = "[''--config=abc'', ''--debug'', ''on'', ''run'']" and s = 14 and rest = "[''run'']"]) code_simp

text \<open>
  Loading panics only in one case, and in that case it does: two or more embedded configurations of
  which one lists a nil bootstrap spec. A single configuration reports the nil spec as an error.
\<close>

theorem Load_panics_only_on_nil_spec:
  assumes "Load ty s0 os_env argv = Panic"
  shows "\<exists>specs. collectSpecs ty = Inr specs \<and> 1 < length specs \<and> None \<in> set (concat (map BootstrapSpecs specs))"
proof -
  have "applyConfigFile specs p s1 \<noteq> Panic" if "collectSpecs ty = Inr specs" for specs p s1
    using collectSpecs_nonempty[OF that] by (cases specs) (auto simp: applyConfigFile_def)
  with assms obtain specs where "collectSpecs ty = Inr specs" "detectConflicts specs = Panic"
    by (auto simp: Load_def loadInto_def bind_outcome_Panic split: option.splits)
  with detectConflicts_Panic[of specs] show ?thesis by (auto simp: all_flags_def)
qed

theorem Load_panics_only_on_nil_spec_witness:
  "\<exists>specs. collectSpecs (StructType ''cfg''
       [\<lparr>Anonymous = True, IsPointer = True, Provider = Some (example_spec [None])\<rparr>,
        \<lparr>Anonymous = True, IsPointer = True, Provider = Some (example_spec [])\<rparr>]) = Inr specs
     \<and> 1 < length specs \<and> None \<in> set (concat (map BootstrapSpecs specs))"
  by (rule Load_panics_only_on_nil_spec[where ?s0.0 = 0 and os_env = "\<lambda>_. None" and argv = "[]"]) code_simp

end
