(* ===== verification/ConfigFile.thy ===== *)
theory ConfigFile imports ConfigParse begin

text \<open>
  \<open>config/file.go\<close>: the overlay of a JSON file onto a configuration message and the redaction of the
  errors it reports. The JSON decoder's results, the protobuf runtime and the file system are the
  arguments collected in \<open>json_env\<close>; a decoded JSON object is its members with their raw texts, in the order
  the run ranges over the map. JSON values are of type \<open>'v\<close>, messages of type \<open>'m\<close>.
\<close>

type_synonym members = "(string \<times> string) list"

record ('v, 'm) json_env =
  ReadFile :: "string \<Rightarrow> goerr + string"
  DecodeObject :: "string \<Rightarrow> goerr + members"
  DecodeString :: "string \<Rightarrow> string option"
  DecodeAny :: "string \<Rightarrow> goerr + 'v"
  DecodeAnyObject :: "string \<Rightarrow> goerr + (string \<rightharpoonup> 'v option)"
  MarshalMembers :: "members \<Rightarrow> string option"
  MarshalObject :: "(string \<rightharpoonup> 'v option) \<Rightarrow> goerr + string"
  ProtoMarshal :: "'m \<Rightarrow> goerr + string"
  ProtoUnmarshal :: "string \<Rightarrow> 'm \<Rightarrow> goerr + 'm"
  ProtoFields :: "'m \<Rightarrow> (string \<times> string) list"

section \<open>Field names\<close>

text \<open>\<open>ProtoFields\<close> lists each field's proto name and JSON name, in descriptor order.\<close>

fun field_names_loop :: "(string \<times> string) list \<Rightarrow> (string \<rightharpoonup> string) \<Rightarrow> (string \<rightharpoonup> string)" where
  "field_names_loop [] names = names"
| "field_names_loop ((name, jsonName) # fs) names =
     field_names_loop fs (names(jsonName \<mapsto> jsonName, name \<mapsto> jsonName))"

definition configJSONFieldNames :: "(string \<times> string) list \<Rightarrow> (string \<rightharpoonup> string)" where
  [go_eval]: "configJSONFieldNames field_list = field_names_loop field_list Map.empty"

definition canonicalJSONFieldName :: "string \<Rightarrow> (string \<rightharpoonup> string) \<Rightarrow> string" where
  [go_eval]: "canonicalJSONFieldName field fieldNames =
     (case fieldNames field of Some canonical \<Rightarrow> canonical | None \<Rightarrow> field)"

definition appendUniqueToken :: "string list \<Rightarrow> string set \<Rightarrow> string \<Rightarrow> string list \<times> string set" where
  [go_eval]: "appendUniqueToken tokens seen token =
     (if token = [] then (tokens, seen)
      else if token \<in> seen then (tokens, seen)
      else (tokens @ [token], insert token seen))"

fun normalize_names_loop ::
  "string list \<Rightarrow> (string \<rightharpoonup> string) \<Rightarrow> string list \<Rightarrow> string set \<Rightarrow> string list" where
  "normalize_names_loop [] fieldNames normalized seen = normalized"
| "normalize_names_loop (f # fs) fieldNames normalized seen =
     (case appendUniqueToken normalized seen (canonicalJSONFieldName f fieldNames) of
        (normalized', seen') \<Rightarrow> normalize_names_loop fs fieldNames normalized' seen')"

definition normalizeJSONFieldNames :: "string list \<Rightarrow> (string \<rightharpoonup> string) \<Rightarrow> string list" where
  [go_eval]: "normalizeJSONFieldNames field_list fieldNames =
     (if length field_list = 0 then [] else normalize_names_loop field_list fieldNames [] {})"

text \<open>A nil parser is \<open>None\<close>. The parsers are listed in the order the run ranges over the map.\<close>

type_synonym 'v field_parser = "(string \<Rightarrow> goerr + 'v) option"

fun normalize_parsers_loop ::
  "(string \<times> 'v field_parser) list \<Rightarrow> (string \<rightharpoonup> string) \<Rightarrow> (string \<rightharpoonup> 'v field_parser) \<Rightarrow>
     (string \<rightharpoonup> string) \<Rightarrow> goerr + (string \<rightharpoonup> 'v field_parser)" where
  "normalize_parsers_loop [] fieldNames normalized origins = Inr normalized"
| "normalize_parsers_loop ((field, parser) # ps) fieldNames normalized origins =
     (let canonical = canonicalJSONFieldName field fieldNames in
      case origins canonical of
        Some prev \<Rightarrow>
          Inl (Errorf_plain (''parser keys '' @ go_quote prev @ '' and '' @ go_quote field @
            '' normalize to the same field '' @ go_quote canonical))
      | None \<Rightarrow>
          normalize_parsers_loop ps fieldNames (normalized(canonical \<mapsto> parser)) (origins(canonical \<mapsto> field)))"

definition normalizeJSONFieldParsers ::
  "(string \<times> 'v field_parser) list \<Rightarrow> (string \<rightharpoonup> string) \<Rightarrow> goerr + (string \<rightharpoonup> 'v field_parser)" where
  "normalizeJSONFieldParsers parsers fieldNames =
     (if length parsers = 0 then Inr Map.empty
      else normalize_parsers_loop parsers fieldNames Map.empty Map.empty)"

section \<open>The overlay\<close>

text \<open>\<open>bytes.TrimSpace\<close> on a JSON text, whose white space is ASCII.\<close>

definition is_space :: "char \<Rightarrow> bool" where
  [go_std]: "is_space c \<longleftrightarrow> c \<in> set [CHR 0x09, CHR 0x0A, CHR 0x0B, CHR 0x0C, CHR 0x0D, CHR '' '']"

definition trim_space :: "string \<Rightarrow> string" where
  [go_std]: "trim_space s = rev (dropWhile is_space (rev (dropWhile is_space s)))"

definition is_null :: "string \<Rightarrow> bool" where
  [go_eval]: "is_null raw \<longleftrightarrow> trim_space raw = ''null''"

fun overlay_loop ::
  "members \<Rightarrow> (string \<rightharpoonup> string) \<Rightarrow> members \<Rightarrow> string set \<Rightarrow> (string \<rightharpoonup> string) \<Rightarrow>
     goerr + members \<times> string set" where
  "overlay_loop [] fieldNames overlay present seen = Inr (overlay, present)"
| "overlay_loop ((field, raw) # ms) fieldNames overlay present seen =
     (let canonicalField = canonicalJSONFieldName field fieldNames in
      case seen canonicalField of
        Some prev \<Rightarrow>
          Inl (Errorf_plain (''duplicate config field '' @ go_quote canonicalField @ '' via '' @
            go_quote prev @ '' and '' @ go_quote field))
      | None \<Rightarrow>
          overlay_loop ms fieldNames (put canonicalField raw overlay)
            (if is_null raw then present else insert canonicalField present)
            (seen(canonicalField \<mapsto> field)))"

definition parseJSONOverlay ::
  "('v, 'm) json_env \<Rightarrow> string \<Rightarrow> (string \<rightharpoonup> string) \<Rightarrow> goerr + members \<times> string set" where
  "parseJSONOverlay env data fieldNames =
     (case DecodeObject env data of
        Inl e \<Rightarrow> Inl e
      | Inr raw \<Rightarrow> overlay_loop raw fieldNames [] {} Map.empty)"

definition decodeJSONOverlayValue ::
  "('v, 'm) json_env \<Rightarrow> string \<Rightarrow> string \<Rightarrow> (string \<rightharpoonup> 'v field_parser) \<Rightarrow> goerr + 'v option" where
  "decodeJSONOverlayValue env field val parsers =
     (if is_null val then Inr None
      else case parsers field of
        Some (Some parser) \<Rightarrow> map_sum id Some (parser val)
      | _ \<Rightarrow> map_sum id Some (DecodeAny env val))"

section \<open>Redaction\<close>

fun secret_tokens_loop ::
  "('v, 'm) json_env \<Rightarrow> string list \<Rightarrow> (string \<rightharpoonup> string) \<Rightarrow> string list \<Rightarrow> string set \<Rightarrow> string list" where
  "secret_tokens_loop env [] values tokens seen = tokens"
| "secret_tokens_loop env (field # fs) values tokens seen =
     (case values field of
        None \<Rightarrow> secret_tokens_loop env fs values tokens seen
      | Some raw \<Rightarrow>
          if length raw = 0 then secret_tokens_loop env fs values tokens seen
          else
            let (tokens1, seen1) = appendUniqueToken tokens seen raw;
                (tokens2, seen2) = (case DecodeString env raw of
                                      Some str \<Rightarrow> appendUniqueToken tokens1 seen1 str
                                    | None \<Rightarrow> (tokens1, seen1))
            in secret_tokens_loop env fs values tokens2 seen2)"

definition secretJSONValueTokens :: "('v, 'm) json_env \<Rightarrow> string \<Rightarrow> string list \<Rightarrow> string list" where
  "secretJSONValueTokens env merged secretFields =
     (if length secretFields = 0 then []
      else case DecodeObject env merged of
        Inl e \<Rightarrow> []
      | Inr vals \<Rightarrow> secret_tokens_loop env secretFields (map_of vals) [] {})"

fun redact_tokens :: "string list \<Rightarrow> string \<Rightarrow> string" where
  "redact_tokens [] text = text"
| "redact_tokens (token # ts) text = redact_tokens ts (replace_all text token RedactedPlaceholder)"

text \<open>\<open>redactedError\<close> is an error with a text and no \<open>Unwrap\<close>.\<close>

definition redactSecretError ::
  "('v, 'm) json_env \<Rightarrow> string \<Rightarrow> goerr \<Rightarrow> string \<Rightarrow> string list \<Rightarrow> goerr" where
  "redactSecretError env prefix err data secretFields =
     Errorf_plain (prefix @ '': '' @ redact_tokens (secretJSONValueTokens env data secretFields) (error_text err))"

section \<open>Merging\<close>

definition currentJSONMap :: "('v, 'm) json_env \<Rightarrow> 'm \<Rightarrow> goerr + (string \<rightharpoonup> 'v option)" where
  "currentJSONMap env msg =
     (case ProtoMarshal env msg of
        Inl e \<Rightarrow> Inl (wrapf ''marshal current config: '' e)
      | Inr raw \<Rightarrow> map_err (wrapf ''parse current config JSON: '') (DecodeAnyObject env raw))"

fun merge_loop ::
  "('v, 'm) json_env \<Rightarrow> members \<Rightarrow> (string \<rightharpoonup> 'v field_parser) \<Rightarrow> string \<Rightarrow> string list \<Rightarrow> members \<Rightarrow>
     (string \<rightharpoonup> 'v option) \<Rightarrow> goerr + (string \<rightharpoonup> 'v option)" where
  "merge_loop env rawOverlay parsers data secrets [] base = Inr base"
| "merge_loop env rawOverlay parsers data secrets ((k, raw) # ms) base =
     (case decodeJSONOverlayValue env k raw parsers of
        Inl decodeErr \<Rightarrow>
          let redactionData = (case MarshalMembers env rawOverlay of Some d \<Rightarrow> d | None \<Rightarrow> data) in
          Inl (redactSecretError env (''parse config JSON field '' @ go_quote k) decodeErr redactionData secrets)
      | Inr v \<Rightarrow> merge_loop env rawOverlay parsers data secrets ms (base(k \<mapsto> v)))"

definition mergeJSONFile ::
  "('v, 'm) json_env \<Rightarrow> string \<Rightarrow> 'm option \<Rightarrow> (string \<times> 'v field_parser) list \<Rightarrow> string list \<Rightarrow>
     goerr + string set \<times> 'm" where
  "mergeJSONFile env path dst parsers secretFields =
     (case dst of
        None \<Rightarrow> Inl (Errorf_plain ''destination message is nil'')
      | Some m \<Rightarrow>
     (case ReadFile env path of
        Inl e \<Rightarrow> Inl (wrapf (''read config file '' @ go_quote path @ '': '') e)
      | Inr data \<Rightarrow>
     (case currentJSONMap env m of
        Inl e \<Rightarrow> Inl e
      | Inr base \<Rightarrow>
          let fieldNames = configJSONFieldNames (ProtoFields env m) in
     (case parseJSONOverlay env data fieldNames of
        Inl e \<Rightarrow> Inl (wrapf (''parse config file '' @ go_quote path @ '': '') e)
      | Inr (rawOverlay, presentFields) \<Rightarrow>
          let secrets = normalizeJSONFieldNames secretFields fieldNames in
     (case normalizeJSONFieldParsers parsers fieldNames of
        Inl e \<Rightarrow> Inl (wrapf ''normalize config field parsers: '' e)
      | Inr normalizedParsers \<Rightarrow>
     (case merge_loop env rawOverlay normalizedParsers data secrets rawOverlay base of
        Inl e \<Rightarrow> Inl e
      | Inr merged_map \<Rightarrow>
     (case MarshalObject env merged_map of
        Inl e \<Rightarrow> Inl (wrapf ''marshal merged config JSON: '' e)
      | Inr merged \<Rightarrow>
     (case ProtoUnmarshal env merged m of
        Inl e \<Rightarrow> Inl (redactSecretError env ''unmarshal merged config JSON'' e merged secrets)
      | Inr m' \<Rightarrow> Inr (presentFields, m')))))))))"

definition MergeJSONFile ::
  "('v, 'm) json_env \<Rightarrow> string \<Rightarrow> 'm option \<Rightarrow> string list \<Rightarrow> goerr + string set \<times> 'm" where
  "MergeJSONFile env path dst secretFields = mergeJSONFile env path dst [] secretFields"

definition MergeJSONFileWithParsers ::
  "('v, 'm) json_env \<Rightarrow> string \<Rightarrow> 'm option \<Rightarrow> (string \<times> 'v field_parser) list \<Rightarrow> string list \<Rightarrow>
     goerr + string set \<times> 'm" where
  "MergeJSONFileWithParsers env path dst parsers secretFields = mergeJSONFile env path dst parsers secretFields"

section \<open>Lemmas\<close>

lemma occurs_skip: "set t \<inter> set new = {} \<Longrightarrow> t \<noteq> [] \<Longrightarrow> occurs_in t (new @ r) \<longleftrightarrow> occurs_in t r"
proof (induction new)
  case (Cons x new)
  then have "\<not> has_prefix (x # new @ r) t" by (cases t) (auto simp: has_prefix_def)
  with Cons show ?case by simp
qed simp

lemma occurs_drop: "occurs_in t (drop n s) \<Longrightarrow> occurs_in t s"
  unfolding occurs_in_iff by (metis append.assoc append_take_drop_id)

lemma replaced_prefix:
  assumes "set t \<inter> set new = {}" and "new \<noteq> []" and "has_prefix (replace_all s old new) t"
  shows "has_prefix s t"
  using assms
proof (induction s old new arbitrary: t rule: replace_all.induct)
  case (2 c cs old new)
  show ?case
  proof (cases t)
    case (Cons d t')
    have kept: "\<not> (old \<noteq> [] \<and> has_prefix (c # cs) old)"
    proof
      assume "old \<noteq> [] \<and> has_prefix (c # cs) old"
      then have "has_prefix (new @ replace_all (drop (length old) (c # cs)) old new) (d # t')"
        using "2.prems"(3) Cons by simp
      with "2.prems"(1,2) Cons show False by (cases new) (auto simp: has_prefix_def)
    qed
    then have "has_prefix (c # replace_all cs old new) (d # t')"
      using "2.prems"(3) Cons kept by (auto split: if_splits)
    then have "d = c" "has_prefix (replace_all cs old new) t'" by (auto simp: has_prefix_def)
    with "2.IH"(2)[OF kept, of t'] "2.prems"(1,2) Cons show ?thesis by (simp add: has_prefix_def)
  qed simp
qed (auto simp: has_prefix_def)

lemma replace_all_hides:
  assumes "set t \<inter> set new = {}" and "new \<noteq> []" and "t \<noteq> []" and "old = t \<or> \<not> occurs_in t s"
  shows "\<not> occurs_in t (replace_all s old new)"
  using assms
proof (induction s old new rule: replace_all.induct)
  case (2 c cs old new)
  show ?case
  proof (cases "old \<noteq> [] \<and> has_prefix (c # cs) old")
    case True
    have "old = t \<or> \<not> occurs_in t (drop (length old) (c # cs))"
      using "2.prems"(4) occurs_drop by blast
    with 2 True show ?thesis by (simp add: occurs_skip)
  next
    case False
    have "\<not> has_prefix (c # replace_all cs old new) t"
    proof
      assume "has_prefix (c # replace_all cs old new) t"
      with False have "has_prefix (replace_all (c # cs) old new) t" by auto
      with replaced_prefix 2 have "has_prefix (c # cs) t" by blast
      with False "2.prems"(3,4) show False by auto
    qed
    moreover have "\<not> occurs_in t (replace_all cs old new)" using 2 False by auto
    moreover have "replace_all (c # cs) old new = c # replace_all cs old new" using False by auto
    ultimately show ?thesis by simp
  qed
qed auto

lemma redact_tokens_hides:
  assumes "set t \<inter> set RedactedPlaceholder = {}" and "t \<noteq> []" and "t \<in> set ts \<or> \<not> occurs_in t msg"
  shows "\<not> occurs_in t (redact_tokens ts msg)"
  using assms(3)
proof (induction ts arbitrary: msg)
  case (Cons u ts)
  have "RedactedPlaceholder \<noteq> []" by (simp add: RedactedPlaceholder_def)
  with Cons show ?case using replace_all_hides[OF assms(1) _ assms(2)] by auto
qed simp

text \<open>\<open>tokens\<close> and \<open>seen\<close> of the accumulating loops hold the same non-empty strings.\<close>

definition same_tokens :: "string list \<Rightarrow> string set \<Rightarrow> bool" where
  "same_tokens tokens seen \<longleftrightarrow> seen = set tokens \<and> [] \<notin> set tokens \<and> distinct tokens"

lemma appendUniqueToken_inv [inv_intros]:
  assumes "same_tokens tokens seen" and "appendUniqueToken tokens seen t = (tokens', seen')"
  shows "same_tokens tokens' seen' \<and> set tokens' = set tokens \<union> ({t} - {[]})"
  using assms by (auto simp: same_tokens_def appendUniqueToken_def split: if_splits)

lemma secret_tokens_keep:
  assumes "same_tokens tokens seen" and "t \<in> set tokens"
  shows "t \<in> set (secret_tokens_loop env fs vals tokens seen)"
  using assms
proof (induction env fs vals tokens seen rule: secret_tokens_loop.induct)
  case (2 env field fs vals tokens seen)
  show ?case
  proof (cases "vals field")
    case None
    with 2 show ?thesis by simp
  next
    case (Some raw)
    obtain tk1 s1 where a1: "appendUniqueToken tokens seen raw = (tk1, s1)" by fastforce
    note i1 = appendUniqueToken_inv[OF "2.prems"(1) a1]
    obtain tk2 s2 where a2: "(case DecodeString env raw of Some d \<Rightarrow> appendUniqueToken tk1 s1 d
        | None \<Rightarrow> (tk1, s1)) = (tk2, s2)" by fastforce
    have i2: "same_tokens tk2 s2 \<and> set tk1 \<subseteq> set tk2"
      using i1 a2 by (auto dest: appendUniqueToken_inv split: option.splits)
    show ?thesis
    proof (cases "raw = []")
      case True
      with 2 Some show ?thesis by simp
    next
      case False
      have "t \<in> set (secret_tokens_loop env fs vals tk2 s2)"
        using "2.IH"(3)[OF Some _ a1[symmetric] refl a2[symmetric] refl] False i1 i2 "2.prems"(2) by auto
      with Some False a1 a2 show ?thesis by simp
    qed
  qed
qed simp

lemma secret_tokens_complete:
  assumes "same_tokens tokens seen" and "field \<in> set fs" and "vals field = Some raw" and "raw \<noteq> []"
    and "t = raw \<or> DecodeString env raw = Some t" and "t \<noteq> []"
  shows "t \<in> set (secret_tokens_loop env fs vals tokens seen)"
  using assms
proof (induction env fs vals tokens seen rule: secret_tokens_loop.induct)
  case (2 env g fs vals tokens seen)
  show ?case
  proof (cases "vals g = None \<or> vals g = Some []")
    case True
    then have "g \<noteq> field" using "2.prems" by auto
    with 2 True show ?thesis by auto
  next
    case False
    then obtain rg where rg: "vals g = Some rg" "rg \<noteq> []" by auto
    obtain tk1 s1 where a1: "appendUniqueToken tokens seen rg = (tk1, s1)" by fastforce
    note i1 = appendUniqueToken_inv[OF "2.prems"(1) a1]
    obtain tk2 s2 where a2: "(case DecodeString env rg of Some d \<Rightarrow> appendUniqueToken tk1 s1 d
        | None \<Rightarrow> (tk1, s1)) = (tk2, s2)" by fastforce
    have i2: "same_tokens tk2 s2 \<and> set tk1 \<subseteq> set tk2 \<and> (\<forall>d. DecodeString env rg = Some d \<longrightarrow> d \<noteq> [] \<longrightarrow> d \<in> set tk2)"
      using i1 a2 by (auto dest: appendUniqueToken_inv split: option.splits)
    have step: "secret_tokens_loop env (g # fs) vals tokens seen = secret_tokens_loop env fs vals tk2 s2"
      using rg a1 a2 by simp
    show ?thesis
    proof (cases "g = field")
      case True
      then have "t \<in> set tk2" using i1 i2 rg "2.prems" by auto
      with i2 show ?thesis unfolding step by (blast intro: secret_tokens_keep)
    next
      case other: False
      show ?thesis unfolding step
        using "2.IH"(3)[OF rg(1) _ a1[symmetric] refl a2[symmetric] refl] i2 rg other "2.prems" by auto
    qed
  qed
qed simp

lemma overlay_loop_ok:
  "overlay_loop ms names ov present seen = Inr (ov', present') \<longleftrightarrow>
     (let canon = \<lambda>k. canonicalJSONFieldName k names in
      distinct (map (canon \<circ> fst) ms) \<and> (canon \<circ> fst) ` set ms \<inter> dom seen = {} \<and>
      ov' = foldl (\<lambda>o' (k, raw). put (canon k) raw o') ov ms \<and>
      present' = present \<union> set (map (canon \<circ> fst) (filter (\<lambda>m. \<not> is_null (snd m)) ms)))"
proof (induction ms arbitrary: ov present seen)
  case (Cons m ms)
  obtain k raw where m: "m = (k, raw)" by (cases m)
  show ?case
  proof (cases "seen (canonicalJSONFieldName k names)")
    case None
    then show ?thesis
      by (simp add: m Cons Let_def domIff o_def del: fun_upd_apply) blast
  next
    case (Some v)
    then show ?thesis by (auto simp: m Let_def)
  qed
qed (auto simp: Let_def)

lemma foldl_put_fresh:
  "distinct (map (f \<circ> fst) ms) \<Longrightarrow> (f \<circ> fst) ` set ms \<inter> fst ` set ov = {} \<Longrightarrow>
     foldl (\<lambda>o' (k, raw). put (f k) raw o') ov ms = ov @ map (\<lambda>(k, raw). (f k, raw)) ms"
proof (induction ms arbitrary: ov)
  case (Cons m ms)
  obtain k raw where m: "m = (k, raw)" by (cases m)
  have "map_of ov (f k) = None" using Cons.prems m by (auto simp: map_of_eq_None_iff)
  then have "put (f k) raw ov = ov @ [(f k, raw)]" by (rule put_fresh)
  with Cons.IH[of "ov @ [(f k, raw)]"] Cons.prems show ?case by (auto simp: m)
qed simp

lemma merge_loop_ok:
  "merge_loop env rawOverlay parsers data secrets ms base = Inr merged \<Longrightarrow> distinct (map fst ms) \<Longrightarrow>
     (\<forall>k. k \<notin> fst ` set ms \<longrightarrow> merged k = base k) \<and>
     (\<forall>(k, raw) \<in> set ms. \<exists>v. decodeJSONOverlayValue env k raw parsers = Inr v \<and> merged k = Some v)"
proof (induction env rawOverlay parsers data secrets ms base rule: merge_loop.induct)
  case (2 env rawOverlay parsers data secrets k raw ms base)
  then obtain v where v: "decodeJSONOverlayValue env k raw parsers = Inr v"
    and rest: "merge_loop env rawOverlay parsers data secrets ms (base(k \<mapsto> v)) = Inr merged"
    by (auto split: sum.splits)
  with "2.IH"[OF v rest] "2.prems"(2) show ?case by auto
qed simp

section \<open>Properties\<close>

text \<open>
  The overlay of a file is exact: it is read if and only if the JSON decodes to an object of which no
  two members name the same field, by proto or JSON name; it then holds each member under its JSON
  name with its raw text, and the fields present are those not null.
\<close>

theorem parseJSONOverlay_exact:
  "parseJSONOverlay env data names = Inr (overlay, present) \<longleftrightarrow>
     (\<exists>ms. DecodeObject env data = Inr ms
       \<and> distinct (map (\<lambda>m. canonicalJSONFieldName (fst m) names) ms)
       \<and> overlay = map (\<lambda>(k, raw). (canonicalJSONFieldName k names, raw)) ms
       \<and> present = set (map (\<lambda>m. canonicalJSONFieldName (fst m) names) (filter (\<lambda>m. \<not> is_null (snd m)) ms)))"
  using foldl_put_fresh[of "\<lambda>k. canonicalJSONFieldName k names" _ "[]"]
  by (auto simp: parseJSONOverlay_def overlay_loop_ok Let_def o_def split: sum.splits)



text \<open>A concrete file: the message is its JSON members, \<open>token\<close> is a secret field.\<close>

definition example_env :: "(string, string) json_env" where
  "example_env =
     \<lparr>ReadFile = (\<lambda>p. Inr ''file''),
      DecodeObject = (\<lambda>s. Inr [(''token'', ''^hunter^''), (''n'', ''null'')]),
      DecodeString = (\<lambda>raw. Some (filter (\<lambda>c. c \<noteq> CHR ''^'') raw)),
      DecodeAny = (\<lambda>raw. Inr raw),
      DecodeAnyObject = (\<lambda>s. Inr (map_of [(''n'', Some ''1''), (''kept'', Some ''2'')])),
      MarshalMembers = (\<lambda>ms. Some ''merged''),
      MarshalObject = (\<lambda>m. Inr ''merged''),
      ProtoMarshal = (\<lambda>m. Inr m),
      ProtoUnmarshal = (\<lambda>s m. Inr s),
      ProtoFields = (\<lambda>m. [(''token'', ''token''), (''n'', ''n''), (''kept'', ''kept'')])\<rparr>"



end
