(* ===== verification/Boundary.thy ===== *)
theory Boundary imports Errors begin

text \<open>
  The contract of an error boundary. Every transport classifies a handler's error the same way before it
  reports it: the status of the chain first, then the configured mapper, then a fallback. A transport
  supplies what it reports for an error, for a status and as its fallback; what follows from the contract is
  proved once here.
\<close>

definition boundary_status :: "error_mapper \<Rightarrow> goerr \<Rightarrow> status option" where
  [go_eval]: "boundary_status mapper e =
     (case StatusOf e of
        Some st \<Rightarrow> Some st
      | None \<Rightarrow> (case mapper of None \<Rightarrow> None | Some f \<Rightarrow> f e))"

locale error_boundary =
  fixes report :: "error_mapper \<Rightarrow> goerr \<Rightarrow> 'r"
    and of_status :: "status \<Rightarrow> 'r"
    and fallback :: "goerr \<Rightarrow> 'r"
  assumes structured_first: "StatusOf e = Some st \<Longrightarrow> report mapper e = of_status st"
    and mapper_next: "StatusOf e = None \<Longrightarrow> f e = Some st \<Longrightarrow> report (Some f) e = of_status st"
    and mapper_declines: "StatusOf e = None \<Longrightarrow> f e = None \<Longrightarrow> report (Some f) e = fallback e"
    and no_mapper: "StatusOf e = None \<Longrightarrow> report None e = fallback e"
begin

lemma report_eq:
  "report mapper e = (case boundary_status mapper e of Some st \<Rightarrow> of_status st | None \<Rightarrow> fallback e)"
proof (cases "StatusOf e")
  case None
  then show ?thesis
  proof (cases mapper)
    case (Some f)
    with None show ?thesis by (cases "f e") (simp_all add: boundary_status_def mapper_next mapper_declines)
  qed (simp add: boundary_status_def no_mapper)
next
  case (Some st)
  then show ?thesis by (simp add: boundary_status_def structured_first)
qed

lemma wrapping_keeps_report: "StatusOf e = Some st \<Longrightarrow> report mapper (wrapf p e) = report mapper e"
  by (simp add: structured_first)

lemma mapper_ignored: "StatusOf e = Some st \<Longrightarrow> report mapper e = report mapper' e"
  by (simp add: structured_first)

end

end
