(* ===== verification/GoJson.thy ===== *)
theory GoJson imports GoStrconv begin

text \<open>
  The part of \<open>encoding/json\<close> the transports print with: the encoding of a string, of a boolean and of
  a struct from its fields in order. Bytes from 128 on are copied, as the library does for valid UTF-8
  other than the two Unicode line separators. The decoder of string literals is the reference of the round trip.
\<close>

section \<open>Encoding\<close>

definition backslash :: char where [go_std]: "backslash = CHR 0x5C"

definition hex_byte :: "nat \<Rightarrow> string" where
  [go_std]: "hex_byte n = [hex_digit (n div 16), hex_digit (n mod 16)]"

definition json_escape :: "char \<Rightarrow> string" where
  [go_std]: "json_escape c =
     (let n = of_char c :: nat in
      if n = 34 \<or> n = 92 then [backslash, c]
      else if n = 8 then [backslash, CHR ''b'']
      else if n = 12 then [backslash, CHR ''f'']
      else if n = 10 then [backslash, CHR ''n'']
      else if n = 13 then [backslash, CHR ''r'']
      else if n = 9 then [backslash, CHR ''t'']
      else if n < 32 \<or> n = 60 \<or> n = 62 \<or> n = 38 then [backslash, CHR ''u'', CHR ''0'', CHR ''0''] @ hex_byte n
      else [c])"

definition json_string :: "string \<Rightarrow> string" where
  [go_std]: "json_string s = [CHR 0x22] @ concat (map json_escape s) @ [CHR 0x22]"

definition json_bool :: "bool \<Rightarrow> string" where
  [go_std]: "json_bool b = (if b then ''true'' else ''false'')"

text \<open>An object from its members, each a name and an already encoded value.\<close>

definition json_object :: "(string \<times> string) list \<Rightarrow> string" where
  [go_std]: "json_object ms = ''{'' @ join (map (\<lambda>(k, v). json_string k @ '':'' @ v) ms) '','' @ ''}''"

section \<open>Decoding a string literal\<close>

definition hex_val :: "char \<Rightarrow> nat option" where
  [go_std]: "hex_val c =
     (let n = of_char c :: nat in
      if 48 \<le> n \<and> n \<le> 57 then Some (n - 48)
      else if 97 \<le> n \<and> n \<le> 102 then Some (n - 87)
      else if 65 \<le> n \<and> n \<le> 70 then Some (n - 55)
      else None)"

definition json_short_escape :: "char \<Rightarrow> char option" where
  [go_std]: "json_short_escape e =
     map_of [(CHR 0x22, CHR 0x22), (CHR 0x5C, CHR 0x5C), (CHR ''/'', CHR ''/''), (CHR ''b'', CHR 0x08),
             (CHR ''f'', CHR 0x0C), (CHR ''n'', CHR 0x0A), (CHR ''r'', CHR 0x0D), (CHR ''t'', CHR 0x09)] e"

text \<open>
  The characters of a literal up to its closing quote, and the rest; \<open>\\u\<close> escapes of a code below 128.
\<close>

fun json_chars :: "string \<Rightarrow> (string \<times> string) option" where
  "json_chars [] = None"
| "json_chars (c # cs) =
     (if c = CHR 0x22 then Some ([], cs)
      else if c = backslash then
        (case cs of
           [] \<Rightarrow> None
         | e # r \<Rightarrow>
             if e = CHR ''u'' then
               (case r of
                  a # b # x # y # r' \<Rightarrow>
                    (case (hex_val a, hex_val b, hex_val x, hex_val y) of
                       (Some 0, Some 0, Some h, Some l) \<Rightarrow>
                         if h < 8 then map_option (apfst ((#) (char_of (h * 16 + l)))) (json_chars r') else None
                     | _ \<Rightarrow> None)
                | _ \<Rightarrow> None)
             else (case json_short_escape e of
                     Some d \<Rightarrow> map_option (apfst ((#) d)) (json_chars r)
                   | None \<Rightarrow> None))
      else if of_char c < (32::nat) then None
      else map_option (apfst ((#) c)) (json_chars cs))"

definition json_unstring :: "string \<Rightarrow> (string \<times> string) option" where
  [go_std]: "json_unstring s = (case s of c # cs \<Rightarrow> if c = CHR 0x22 then json_chars cs else None | [] \<Rightarrow> None)"

section \<open>Round trip\<close>

lemma hex_val_digit: "d < 16 \<Longrightarrow> hex_val (hex_digit d) = Some d"
  by (cases "d < 10") (simp_all add: hex_val_def hex_digit_def Let_def)

lemma json_chars_escape: "json_chars (json_escape c @ r) = map_option (apfst ((#) c)) (json_chars r)"
proof -
  define n :: nat where "n = of_char c"
  have c: "c = char_of n" by (simp add: n_def)
  have zero: "hex_val (CHR ''0'') = Some 0" by code_simp
  have chars: "char_of (34::nat) = CHR 0x22" "char_of (92::nat) = CHR 0x5C" "char_of (8::nat) = CHR 0x08"
    "char_of (12::nat) = CHR 0x0C" "char_of (10::nat) = CHR 0x0A" "char_of (13::nat) = CHR 0x0D"
    "char_of (9::nat) = CHR 0x09" by code_simp+
  consider "n = 34" | "n = 92" | "n = 8" | "n = 12" | "n = 10" | "n = 13" | "n = 9"
    | (u) "n \<notin> {34, 92, 8, 12, 10, 13, 9}" "n < 32 \<or> n = 60 \<or> n = 62 \<or> n = 38"
    | (plain) "n \<notin> {34, 92, 8, 12, 10, 13, 9}" "\<not> (n < 32 \<or> n = 60 \<or> n = 62 \<or> n = 38)"
    by blast
  then show ?thesis
  proof cases
    case u
    then have "n div 16 < 8" "n mod 16 < 16" "n div 16 < 16" by auto
    then show ?thesis using u
      by (simp add: json_escape_def n_def[symmetric] Let_def backslash_def hex_byte_def zero hex_val_digit c
          split: option.splits)
  next
    case plain
    have "c \<noteq> CHR 0x22" "c \<noteq> backslash" using plain by (auto simp: n_def backslash_def)
    with plain show ?thesis by (simp add: json_escape_def n_def[symmetric] Let_def)
  qed (simp_all add: json_escape_def n_def[symmetric] Let_def backslash_def json_short_escape_def c chars)
qed

lemma json_unstring_string: "json_unstring (json_string s @ r) = Some (s, r)"
proof -
  have "json_chars (concat (map json_escape s) @ CHR 0x22 # r) = Some (s, r)"
    by (induction s) (simp_all add: json_chars_escape)
  then show ?thesis by (simp add: json_unstring_def json_string_def)
qed

lemma hex_byte_printable: "n < 256 \<Longrightarrow> c' \<in> set (hex_byte n) \<Longrightarrow> 32 \<le> (of_char c' :: nat)"
  by (auto simp: hex_byte_def hex_digit_def)

lemma json_escape_printable:
  assumes "c' \<in> set (json_escape c)"
  shows "32 \<le> (of_char c' :: nat)"
proof -
  define n :: nat where "n = of_char c"
  have "n < 256" using of_char_mod_256[of c, where ?'a = nat] by (metis mod_less_divisor n_def zero_less_numeral)
  note hex = hex_byte_printable[OF this]
  show ?thesis
  proof (cases "n < 32 \<or> n = 60 \<or> n = 62 \<or> n = 38")
    case True
    then have "c' \<in> {backslash, CHR ''b'', CHR ''f'', CHR ''n'', CHR ''r'', CHR ''t'', CHR ''u'', CHR ''0''}
        \<or> c' \<in> set (hex_byte n)" using assms
      by (auto simp: json_escape_def n_def[symmetric] Let_def backslash_def split: if_splits)
    then show ?thesis using hex by (auto simp: backslash_def n_def)
  next
    case False
    then have "c' \<in> {backslash, c}" using assms
      by (auto simp: json_escape_def n_def[symmetric] Let_def split: if_splits)
    with False show ?thesis by (auto simp: backslash_def n_def)
  qed
qed

lemma json_string_printable: "c \<in> set (json_string s) \<Longrightarrow> 32 \<le> (of_char c :: nat)"
  using json_escape_printable by (auto simp: json_string_def)

end
