(* ===== verification/CliGlobal.thy ===== *)
theory CliGlobal imports Boundary GoJson begin

text \<open>
  The program-wide parts of the command line transport: \<open>transport/cli/exitcode.go\<close>, the context
  values and the structured error of \<open>transport/cli/format.go\<close>, and of \<open>transport/cli/runner.go\<close> the
  extraction of the global flags and the error boundary.
\<close>

section \<open>Exit codes\<close>

definition ExitCode :: "err_code \<Rightarrow> int" where
  [go_eval]: "ExitCode code =
     (if code = CodeInternal then 1
      else if code = CodeInvalidArgument then 2
      else if code = CodeNotFound then 3
      else if code = CodeUnauthenticated then 4
      else if code = CodePermissionDenied then 5
      else if code = CodeConflict then 6
      else if code = CodeAlreadyExists then 7
      else if code = CodeUnavailable then 8
      else 1)"

section \<open>The context\<close>

text \<open>
  The values the runner puts into the context; a key that was never set is \<open>None\<close>. \<open>'i\<close> is the type of
  the interceptor chain, \<open>'r\<close> of readers.
\<close>

record ('i, 'r) cli_ctx =
  keyOutputFormat :: "string option"
  keyJSONPayload :: "string option"
  interceptorsKey :: "'i list option"
  stdinKey :: "'r option"

definition outputText :: string where [go_eval]: "outputText = ''text''"
definition OutputJSON :: string where [go_eval]: "OutputJSON = ''json''"

definition WithOutputFormat :: "('i, 'r) cli_ctx \<Rightarrow> string \<Rightarrow> ('i, 'r) cli_ctx" where
  [go_eval]: "WithOutputFormat ctx format = ctx\<lparr>keyOutputFormat := Some format\<rparr>"

definition OutputFormatFromContext :: "('i, 'r) cli_ctx \<Rightarrow> string" where
  [go_eval]: "OutputFormatFromContext ctx = (case keyOutputFormat ctx of Some v \<Rightarrow> v | None \<Rightarrow> outputText)"

definition WithJSONPayload :: "('i, 'r) cli_ctx \<Rightarrow> string \<Rightarrow> ('i, 'r) cli_ctx" where
  [go_eval]: "WithJSONPayload ctx payload = ctx\<lparr>keyJSONPayload := Some payload\<rparr>"

definition JSONPayloadFromContext :: "('i, 'r) cli_ctx \<Rightarrow> string option" where
  [go_eval]: "JSONPayloadFromContext ctx = keyJSONPayload ctx"

definition withInterceptors :: "('i, 'r) cli_ctx \<Rightarrow> 'i list \<Rightarrow> ('i, 'r) cli_ctx" where
  [go_eval]: "withInterceptors ctx interceptors = ctx\<lparr>interceptorsKey := Some interceptors\<rparr>"

definition InterceptorsFromContext :: "('i, 'r) cli_ctx \<Rightarrow> 'i list" where
  [go_eval]: "InterceptorsFromContext ctx = (case interceptorsKey ctx of Some is \<Rightarrow> is | None \<Rightarrow> [])"

definition withStdin :: "('i, 'r) cli_ctx \<Rightarrow> 'r \<Rightarrow> ('i, 'r) cli_ctx" where
  [go_eval]: "withStdin ctx stdin = ctx\<lparr>stdinKey := Some stdin\<rparr>"

definition StdinFromContext :: "'r \<Rightarrow> ('i, 'r) cli_ctx \<Rightarrow> 'r" where
  [go_eval]: "StdinFromContext os_stdin ctx = (case stdinKey ctx of Some r \<Rightarrow> r | None \<Rightarrow> os_stdin)"

section \<open>Structured errors\<close>

text \<open>The line \<open>formatErrorJSON\<close> writes.\<close>

definition formatErrorJSON :: "status \<Rightarrow> string" where
  [go_eval]: "formatErrorJSON st =
     json_object [(''error'',
       json_object [(''code'', json_string (Code st)), (''message'', json_string (Message st)),
                    (''retryable'', json_bool (Retryable st))])] @ [CHR 0x0A]"

section \<open>Global flags\<close>

record global_flags =
  jsonPayload :: string
  outputFmt :: string

fun split_prefixes :: "string list \<Rightarrow> string \<Rightarrow> string list \<Rightarrow> string \<times> string \<times> nat" where
  "split_prefixes [] arg later = ([], [], 0)"
| "split_prefixes (prefix # ps) arg later =
     (if arg = prefix then
        (case later of v # _ \<Rightarrow> (prefix, v, 1) | [] \<Rightarrow> (prefix, [], 0))
      else if has_prefix arg (prefix @ ''='') then (prefix, drop (length prefix + 1) arg, 0)
      else split_prefixes ps arg later)"

definition splitGlobalFlag :: "string \<Rightarrow> string list \<Rightarrow> string \<times> string \<times> nat" where
  [go_eval]: "splitGlobalFlag arg later = split_prefixes [''--json'', ''--output''] arg later"

text \<open>The variables a setter writes through its pointers are its last arguments, returned updated.\<close>

definition setOnce :: "string \<Rightarrow> string \<Rightarrow> string \<Rightarrow> bool \<Rightarrow> goerr + string \<times> bool" where
  [go_eval]: "setOnce val name dst seen =
     (if seen then Inl (Errorf_plain (name @ '' specified multiple times'')) else Inr (val, True))"

definition setOutputFormat :: "string \<Rightarrow> string \<Rightarrow> bool \<Rightarrow> goerr + string \<times> bool" where
  [go_eval]: "setOutputFormat val dst seen =
     (if seen then Inl (Errorf_plain ''--output specified multiple times'')
      else if val = ''text'' then Inr (outputText, True)
      else if val = ''json'' then Inr (OutputJSON, True)
      else Inl (Errorf_plain (''--output must be '' @ [CHR 0x22] @ ''text'' @ [CHR 0x22] @ '' or '' @
             [CHR 0x22] @ ''json'' @ [CHR 0x22] @ '', got '' @ go_quote val)))"

fun pre_parse_loop ::
  "string list \<Rightarrow> string list \<Rightarrow> global_flags \<Rightarrow> bool \<Rightarrow> bool \<Rightarrow> goerr + string list \<times> global_flags" where
  "pre_parse_loop [] remaining gf jsonSeen outputSeen = Inr (remaining, gf)"
| "pre_parse_loop (arg # later) remaining gf jsonSeen outputSeen =
     (case splitGlobalFlag arg later of
        (key, val, consumed) \<Rightarrow>
          if key = [] then pre_parse_loop later (remaining @ [arg]) gf jsonSeen outputSeen
          else if val = [] then Inl (Errorf_plain (key @ '' requires a value''))
          else if key = ''--json'' then
            (case setOnce val key (jsonPayload gf) jsonSeen of
               Inl e \<Rightarrow> Inl e
             | Inr (dst, seen) \<Rightarrow>
                 pre_parse_loop (drop consumed later) remaining (gf\<lparr>jsonPayload := dst\<rparr>) seen outputSeen)
          else if key = ''--output'' then
            (case setOutputFormat val (outputFmt gf) outputSeen of
               Inl e \<Rightarrow> Inl e
             | Inr (dst, seen) \<Rightarrow>
                 pre_parse_loop (drop consumed later) remaining (gf\<lparr>outputFmt := dst\<rparr>) jsonSeen seen)
          else pre_parse_loop (drop consumed later) remaining gf jsonSeen outputSeen)"

definition no_globals :: global_flags where
  [go_eval]: "no_globals = \<lparr>jsonPayload = [], outputFmt = []\<rparr>"

definition preParseGlobalFlags :: "string list \<Rightarrow> goerr + string list \<times> global_flags" where
  [go_eval]: "preParseGlobalFlags args = pre_parse_loop args [] no_globals False False"

section \<open>The error boundary\<close>

text \<open>The status reported, if any, and the error returned.\<close>

definition mapError :: "error_mapper \<Rightarrow> goerr \<Rightarrow> status option \<times> goerr" where
  [go_eval]: "mapError mapper err =
     (case StatusOf err of
        Some st \<Rightarrow> (Some st, err)
      | None \<Rightarrow>
          (case mapper of
             None \<Rightarrow> (None, err)
           | Some f \<Rightarrow>
               (case f err of
                  None \<Rightarrow> (None, err)
                | Some st \<Rightarrow>
                    let mapped = WrapError (Code st) (Message st) err in
                    (Some st, if Retryable st then WithRetryable mapped else mapped))))"

interpretation cli_boundary: error_boundary "\<lambda>mapper e. fst (mapError mapper e)" Some "\<lambda>e. None"
  by unfold_locales (simp_all add: mapError_def Let_def split: option.splits)

section \<open>What an argument list means\<close>

text \<open>The specification: an argument list is made of plain arguments and uses of the two global flags.\<close>

datatype piece = Plain string | Global (piece_key: string) (piece_inline: bool) (piece_val: string)

fun render_piece :: "piece \<Rightarrow> string list" where
  "render_piece (Plain a) = [a]"
| "render_piece (Global k True v) = [k @ ''='' @ v]"
| "render_piece (Global k False v) = [k, v]"

definition is_global :: "string \<Rightarrow> bool" where
  "is_global a \<longleftrightarrow> a = ''--json'' \<or> a = ''--output'' \<or> has_prefix a ''--json='' \<or> has_prefix a ''--output=''"

fun wf_piece :: "piece \<Rightarrow> bool" where
  "wf_piece (Plain a) \<longleftrightarrow> \<not> is_global a"
| "wf_piece (Global k i v) \<longleftrightarrow> k \<in> set [''--json'', ''--output''] \<and> v \<noteq> []"

fun plain_args :: "piece list \<Rightarrow> string list" where
  "plain_args [] = []"
| "plain_args (Plain a # ps) = a # plain_args ps"
| "plain_args (Global k i v # ps) = plain_args ps"

fun global_vals :: "string \<Rightarrow> piece list \<Rightarrow> string list" where
  "global_vals key [] = []"
| "global_vals key (Plain a # ps) = global_vals key ps"
| "global_vals key (Global k i v # ps) = (if k = key then v # global_vals key ps else global_vals key ps)"

definition once :: "bool \<Rightarrow> string list \<Rightarrow> bool" where
  "once seen vs \<longleftrightarrow> length vs \<le> (if seen then 0 else 1)"

definition value_or :: "string \<Rightarrow> string list \<Rightarrow> string" where
  "value_or old vs = (case vs of [] \<Rightarrow> old | v # _ \<Rightarrow> v)"

lemma split_Global:
  "k \<in> set [''--json'', ''--output''] \<Longrightarrow> splitGlobalFlag (k @ ''='' @ v) later = (k, v, 0)"
  "k \<in> set [''--json'', ''--output''] \<Longrightarrow> splitGlobalFlag k (v # later) = (k, v, 1)"
  by (auto simp: splitGlobalFlag_def has_prefix_def)

lemma split_Plain: "\<not> is_global a \<Longrightarrow> splitGlobalFlag a later = ([], [], 0)"
  by (auto simp: splitGlobalFlag_def is_global_def)

lemma split_cases:
  assumes "splitGlobalFlag arg later = (key, val, consumed)" and "key \<noteq> []" and "val \<noteq> []"
  shows "\<exists>i. wf_piece (Global key i val) \<and> arg # later = render_piece (Global key i val) @ drop consumed later"
proof (cases "arg = ''--json'' \<or> arg = ''--output''")
  case True
  with assms obtain r where "later = val # r" "consumed = 1" "key = arg" "key \<in> set [''--json'', ''--output'']"
    by (cases later) (auto simp: splitGlobalFlag_def has_prefix_def split: if_splits)
  with assms(3) show ?thesis by (intro exI[of _ False]) auto
next
  case False
  from assms False consider v where "arg = ''--json='' @ v" "key = ''--json''" "val = v" "consumed = 0"
    | v where "arg = ''--output='' @ v" "key = ''--output''" "val = v" "consumed = 0"
    by (auto simp: splitGlobalFlag_def has_prefix_iff split: if_splits)
  then show ?thesis using assms(3) by cases (auto intro!: exI[of _ True])
qed

lemma split_no_key: "splitGlobalFlag arg later = (key, val, consumed) \<Longrightarrow> key = [] \<Longrightarrow> \<not> is_global arg"
  by (auto simp: splitGlobalFlag_def is_global_def split: if_splits list.splits)

lemma pre_parse_pieces:
  "list_all wf_piece ps \<Longrightarrow>
     pre_parse_loop (concat (map render_piece ps)) remaining gf js os = Inr (rem', gf') \<longleftrightarrow>
       once js (global_vals ''--json'' ps) \<and> once os (global_vals ''--output'' ps) \<and>
       set (global_vals ''--output'' ps) \<subseteq> {''text'', ''json''} \<and> rem' = remaining @ plain_args ps \<and>
       gf' = \<lparr>jsonPayload = value_or (jsonPayload gf) (global_vals ''--json'' ps),
              outputFmt = value_or (outputFmt gf) (global_vals ''--output'' ps)\<rparr>"
proof (induction ps arbitrary: remaining gf js os)
  case Nil
  then show ?case by (auto simp: once_def value_or_def)
next
  case (Cons p ps)
  show ?case
  proof (cases p)
    case (Plain a)
    with Cons show ?thesis by (simp add: split_Plain)
  next
    case (Global k i v)
    with Cons.prems have k: "k \<in> set [''--json'', ''--output'']" "v \<noteq> []" by auto
    have "pre_parse_loop (render_piece p @ concat (map render_piece ps)) remaining gf js os = Inr (rem', gf') \<longleftrightarrow>
        (if k = ''--json'' then \<not> js \<and> pre_parse_loop (concat (map render_piece ps)) remaining (gf\<lparr>jsonPayload := v\<rparr>) True os = Inr (rem', gf')
         else \<not> os \<and> v \<in> {''text'', ''json''} \<and> pre_parse_loop (concat (map render_piece ps)) remaining (gf\<lparr>outputFmt := v\<rparr>) js True = Inr (rem', gf'))"
      using split_Global[of k v] k
      by (cases i) (auto simp: Global setOnce_def setOutputFormat_def outputText_def OutputJSON_def)
    then show ?thesis
      using Cons k by (auto simp: Global once_def value_or_def split: if_splits list.splits)
  qed
qed

lemma pre_parse_decomposes:
  "pre_parse_loop args remaining gf js os = Inr r \<Longrightarrow>
     \<exists>ps. args = concat (map render_piece ps) \<and> list_all wf_piece ps"
proof (induction args remaining gf js os rule: pre_parse_loop.induct)
  case (1 remaining gf js os)
  then show ?case by (intro exI[of _ "[]"]) simp
next
  case (2 arg later remaining gf js os)
  obtain key val n where sp: "splitGlobalFlag arg later = (key, val, n)" by (cases "splitGlobalFlag arg later")
  show ?case
  proof (cases "key = []")
    case True
    with "2.prems" sp have "pre_parse_loop later (remaining @ [arg]) gf js os = Inr r" by simp
    with "2.IH"(1)[OF sp[symmetric] refl True] obtain ps where
      "later = concat (map render_piece ps)" "list_all wf_piece ps" by blast
    moreover have "\<not> is_global arg" using sp True by (rule split_no_key)
    ultimately show ?thesis by (intro exI[of _ "Plain arg # ps"]) simp
  next
    case False
    with "2.prems" sp have v: "val \<noteq> []" by (auto split: if_splits)
    from split_cases[OF sp False v] obtain i where i: "wf_piece (Global key i val)"
      "arg # later = render_piece (Global key i val) @ drop n later" by blast
    have "\<exists>ps. drop n later = concat (map render_piece ps) \<and> list_all wf_piece ps"
      using "2.prems" "2.IH"(2-4)[OF sp[symmetric] refl False v] sp False v
      by (auto split: if_splits sum.splits)
    then obtain ps where "drop n later = concat (map render_piece ps)" "list_all wf_piece ps" by blast
    with i show ?thesis by (intro exI[of _ "Global key i val # ps"]) simp
  qed
qed

lemma plain_args_pieces: "list_all wf_piece ps \<Longrightarrow> list_all wf_piece (map Plain (plain_args ps))"
  by (induction ps rule: plain_args.induct) auto

lemma plain_args_map [simp]: "plain_args (map Plain as) = as" "global_vals k (map Plain as) = []"
    "concat (map render_piece (map Plain as)) = as"
  by (induction as) auto

section \<open>Properties\<close>

text \<open>
  C31. The extraction of global flags is exact: it succeeds if and only if the arguments are plain ones and
  uses of \<open>--json\<close> and \<open>--output\<close>, inline or in two tokens, with a non-empty value, each flag used at most
  once and the output format \<open>text\<close> or \<open>json\<close>; it then hands on the plain arguments in order and the
  values given.
\<close>

theorem preParseGlobalFlags_exact:
  "preParseGlobalFlags args = Inr (remaining, gf) \<longleftrightarrow>
     (\<exists>ps. args = concat (map render_piece ps) \<and> list_all wf_piece ps
       \<and> length (global_vals ''--json'' ps) \<le> 1 \<and> length (global_vals ''--output'' ps) \<le> 1
       \<and> set (global_vals ''--output'' ps) \<subseteq> {''text'', ''json''} \<and> remaining = plain_args ps
       \<and> gf = \<lparr>jsonPayload = value_or [] (global_vals ''--json'' ps),
               outputFmt = value_or [] (global_vals ''--output'' ps)\<rparr>)"
proof
  assume L: "preParseGlobalFlags args = Inr (remaining, gf)"
  then obtain ps where ps: "args = concat (map render_piece ps)" "list_all wf_piece ps"
    using pre_parse_decomposes unfolding preParseGlobalFlags_def by blast
  with L pre_parse_pieces[OF ps(2), of "[]" no_globals False False remaining gf]
  show "\<exists>ps. args = concat (map render_piece ps) \<and> list_all wf_piece ps
       \<and> length (global_vals ''--json'' ps) \<le> 1 \<and> length (global_vals ''--output'' ps) \<le> 1
       \<and> set (global_vals ''--output'' ps) \<subseteq> {''text'', ''json''} \<and> remaining = plain_args ps
       \<and> gf = \<lparr>jsonPayload = value_or [] (global_vals ''--json'' ps),
               outputFmt = value_or [] (global_vals ''--output'' ps)\<rparr>"
    by (intro exI[of _ ps]) (simp add: preParseGlobalFlags_def no_globals_def once_def)
qed (auto simp: preParseGlobalFlags_def pre_parse_pieces no_globals_def once_def)

text \<open>
  No global flag survives its extraction: what is handed to the command tree parses again to itself
  with no flag found, so a command never sees a global flag in any spelling.
\<close>

theorem preParseGlobalFlags_idempotent:
  assumes "preParseGlobalFlags args = Inr (remaining, gf)"
  shows "preParseGlobalFlags remaining = Inr (remaining, no_globals)"
proof -
  obtain ps where ps: "args = concat (map render_piece ps)" "list_all wf_piece ps"
    using assms pre_parse_decomposes unfolding preParseGlobalFlags_def by blast
  then have "remaining = plain_args ps"
    using assms pre_parse_pieces[OF ps(2), of "[]" no_globals False False remaining gf]
    by (simp add: preParseGlobalFlags_def)
  with pre_parse_pieces[OF plain_args_pieces[OF ps(2)], of "[]" no_globals False False remaining no_globals]
  show ?thesis unfolding plain_args_map(3) by (simp add: preParseGlobalFlags_def once_def value_or_def no_globals_def)
qed

theorem preParseGlobalFlags_idempotent_witness:
  "preParseGlobalFlags [''repo'', ''--limit=3'', ''x''] = Inr ([''repo'', ''--limit=3'', ''x''], no_globals)"
  by (rule preParseGlobalFlags_idempotent[where args = "[''repo'', ''--output=json'', ''--limit=3'', ''--json'', ''{}'', ''x'']"
        and gf = "\<lparr>jsonPayload = ''{}'', outputFmt = ''json''\<rparr>"]) code_simp

text \<open>
  The error returned and the status reported agree: classifying the returned error again gives the
  reported status, retryable flag included, and the original error stays reachable in its chain.
\<close>

theorem mapError_consistent:
  "StatusOf (snd (mapError mapper err)) = fst (mapError mapper err) \<and> in_chain (snd (mapError mapper err)) err"
proof (cases "StatusOf err = None \<and> boundary_status mapper err \<noteq> None")
  case True
  then obtain f st where f: "mapper = Some f" "f err = Some st" "StatusOf err = None"
    by (cases mapper) (auto simp: boundary_status_def)
  let ?out = "if Retryable st then WithRetryable (WrapError (Code st) (Message st) err)
    else WrapError (Code st) (Message st) err"
  have "err \<in> set (Unwrap ?out)" by (simp add: WrapError_def)
  then have "in_chain ?out err" by (rule in_chain.below) (rule in_chain.here)
  moreover have "StatusOf ?out = Some st" by (cases st) (simp add: WrapError_def)
  ultimately show ?thesis using f by (simp add: mapError_def Let_def)
next
  case False
  then have "mapError mapper err = (StatusOf err, err)"
    by (auto simp: mapError_def boundary_status_def split: option.splits)
  then show ?thesis using in_chain.here by simp
qed

text \<open>
  Exit codes tell the canonical codes apart: the eight codes have the exit codes 1 to 8, no two the
  same and none the code of success, and any other code exits with 1.
\<close>

theorem ExitCode_canonical:
  "distinct (map ExitCode canonical_codes) \<and> set (map ExitCode canonical_codes) = {1..8}
   \<and> (code \<in> set canonical_codes \<or> ExitCode code = 1)"
proof (intro conjI)
  show "distinct (map ExitCode canonical_codes)" by code_simp
  have "set (map ExitCode canonical_codes) = set [1, 2, 3, 4, 5, 6, 7, 8]" by code_simp
  also have "\<dots> = {1..8}" by (auto simp: atLeastAtMost_iff)
  finally show "set (map ExitCode canonical_codes) = {1..8}" .
  show "code \<in> set canonical_codes \<or> ExitCode code = 1"
    by (simp add: ExitCode_def canonical_codes_def)
qed

lemma json_string_eq: "json_string a @ r = json_string b @ r' \<longleftrightarrow> a = b \<and> r = r'"
  by (metis Pair_inject json_unstring_string option.inject)

lemma json_bool_eq: "json_bool a = json_bool b \<longleftrightarrow> a = b"
  by (simp add: json_bool_def)

lemma error_line:
  "formatErrorJSON st = ''{'' @ json_string ''error'' @ '':{'' @ json_string ''code'' @ '':'' @
     json_string (Code st) @ '','' @ json_string ''message'' @ '':'' @ json_string (Message st) @ '','' @
     json_string ''retryable'' @ '':'' @ json_bool (Retryable st) @ ''}}'' @ [CHR 0x0A]"
  by (simp add: formatErrorJSON_def json_object_def)

text \<open>
  A structured error is one line that determines its status: it ends with a line feed, contains no
  other control character whatever the message holds, and two statuses print alike only if they are equal.
\<close>

theorem formatErrorJSON_line:
  "(\<exists>line. formatErrorJSON st = line @ [CHR 0x0A] \<and> list_all (\<lambda>c. 32 \<le> (of_char c :: nat)) line)
   \<and> (formatErrorJSON st = formatErrorJSON st' \<longleftrightarrow> st = st')"
proof
  have "list_all (\<lambda>c. 32 \<le> (of_char c :: nat)) (json_string s)" for s
    by (simp add: list_all_iff json_string_printable)
  then show "\<exists>line. formatErrorJSON st = line @ [CHR 0x0A] \<and> list_all (\<lambda>c. 32 \<le> (of_char c :: nat)) line"
    by (intro exI[of _ "butlast (formatErrorJSON st)"]) (simp add: error_line butlast_append json_bool_def)
  show "formatErrorJSON st = formatErrorJSON st' \<longleftrightarrow> st = st'"
    unfolding error_line by (cases st; cases st') (simp add: json_string_eq json_bool_eq)
qed

end
