(* ===== verification/CliTree.thy ===== *)
theory CliTree imports CliGlobal begin

text \<open>
  The command tree of the command line transport: \<open>transport/cli/node.go\<close>, \<open>transport/cli/help.go\<close> and
  the dispatch of \<open>transport/cli/runner.go\<close>, with the part of the standard \<open>flag\<close> package they call.
  Flags and commands act on the state \<open>'w\<close> of the program, which holds standard output too; help
  text goes to standard error and is collected as a string.
\<close>

section \<open>Package flag\<close>

record 'w flag_def =
  fName :: string
  fUsage :: string
  fDefValue :: string
  fIsBool :: bool
  fSet :: "string \<Rightarrow> 'w \<Rightarrow> goerr option \<times> 'w"

text \<open>A flag set with error handling \<open>ContinueOnError\<close>: its formal flags, one per name.\<close>

type_synonym 'w flagset = "'w flag_def list"

fun lookup_flag :: "string \<Rightarrow> 'w flagset \<Rightarrow> 'w flag_def option" where
  "lookup_flag name [] = None"
| "lookup_flag name (f # fs) = (if fName f = name then Some f else lookup_flag name fs)"

definition VisitAll :: "'w flagset \<Rightarrow> 'w flag_def list" where
  [go_std]: "VisitAll fs = sort_key fName fs"

text \<open>
  A token that is an argument ends the flags and stays, \<open>--\<close> ends them and is dropped, any other token is a
  flag with its name and inline value or has a bad syntax.
\<close>

datatype flag_token = ArgToken | Terminator | BadSyntax | FlagToken string "string option"

definition split_value :: "string \<Rightarrow> flag_token" where
  [go_std]: "split_value name =
     (case name of
        [] \<Rightarrow> BadSyntax
      | c # cs \<Rightarrow>
          if c = CHR ''-'' \<or> c = CHR ''='' then BadSyntax
          else (case index_byte cs (CHR ''='') of
                  None \<Rightarrow> FlagToken name None
                | Some i \<Rightarrow> FlagToken (c # take i cs) (Some (drop (Suc i) cs))))"

definition classify_token :: "string \<Rightarrow> flag_token" where
  [go_std]: "classify_token s =
     (case s of
        c # d # r \<Rightarrow>
          if c \<noteq> CHR ''-'' then ArgToken
          else if d = CHR ''-'' then (if r = [] then Terminator else split_value r)
          else split_value (d # r)
      | _ \<Rightarrow> ArgToken)"

definition set_flag :: "'w flag_def \<Rightarrow> string \<Rightarrow> string \<Rightarrow> 'w \<Rightarrow> goerr option \<times> 'w" where
  [go_std]: "set_flag f val prefix w =
     (case fSet f val w of
        (None, w') \<Rightarrow> (None, w')
      | (Some e, w') \<Rightarrow> (Some (Errorf_plain (prefix @ error_text e)), w'))"

text \<open>
  \<open>parseOne\<close>: a flag was seen and set, leaving arguments and state; the flags end; or it fails.
\<close>

datatype 'w one_flag = Seen "string list" 'w | Stop "string list" | Fail goerr 'w

definition invalid_flag :: "string \<Rightarrow> string \<Rightarrow> string \<Rightarrow> string" where
  [go_std]: "invalid_flag what val name = ''invalid '' @ what @ go_quote val @ name @ '': ''"

definition after_set :: "string list \<Rightarrow> goerr option \<times> 'w \<Rightarrow> 'w one_flag" where
  [go_std]: "after_set args r = (case r of (None, w) \<Rightarrow> Seen args w | (Some e, w) \<Rightarrow> Fail e w)"

definition parse_known :: "'w flag_def \<Rightarrow> string \<Rightarrow> string option \<Rightarrow> string list \<Rightarrow> 'w \<Rightarrow> 'w one_flag" where
  [go_std]: "parse_known f name inline args w =
     (if fIsBool f then
        (case inline of
           Some val \<Rightarrow> after_set args (set_flag f val (invalid_flag ''boolean value '' val ('' for -'' @ name)) w)
         | None \<Rightarrow> after_set args (set_flag f ''true'' (''invalid boolean flag '' @ name @ '': '') w))
      else
        (case inline of
           Some val \<Rightarrow> after_set args (set_flag f val (invalid_flag ''value '' val ('' for flag -'' @ name)) w)
         | None \<Rightarrow>
             (case args of
                [] \<Rightarrow> Fail (Errorf_plain (''flag needs an argument: -'' @ name)) w
              | val # args' \<Rightarrow>
                  after_set args' (set_flag f val (invalid_flag ''value '' val ('' for flag -'' @ name)) w))))"

fun parseOne :: "'w flagset \<Rightarrow> string list \<Rightarrow> 'w \<Rightarrow> 'w one_flag" where
  "parseOne fs [] w = Stop []"
| "parseOne fs (s # args) w =
     (case classify_token s of
        ArgToken \<Rightarrow> Stop (s # args)
      | Terminator \<Rightarrow> Stop args
      | BadSyntax \<Rightarrow> Fail (Errorf_plain (''bad flag syntax: '' @ s)) w
      | FlagToken name inline \<Rightarrow>
          (case lookup_flag name fs of
             None \<Rightarrow>
               if name = ''help'' \<or> name = ''h'' then Fail ErrHelp w
               else Fail (Errorf_plain (''flag provided but not defined: -'' @ name)) w
           | Some f \<Rightarrow> parse_known f name inline args w))"

lemma parse_known_Seen: "parse_known f name inline args w = Seen rest w' \<Longrightarrow> length rest \<le> length args"
  by (auto simp: parse_known_def after_set_def split: if_splits option.splits list.splits prod.splits)

lemma parseOne_Seen: "parseOne fs args w = Seen rest w' \<Longrightarrow> length rest < length args"
  by (cases args) (auto split: flag_token.splits option.splits if_splits dest!: parse_known_Seen)

lemma parseOne_Stop: "parseOne fs args w = Stop rest \<Longrightarrow> length rest \<le> length args"
  by (cases args)
    (auto simp: parse_known_def after_set_def split: flag_token.splits option.splits if_splits list.splits prod.splits)

text \<open>\<open>FlagSet.Parse\<close>: the arguments that remain, or the error, and the state its flags were set in.\<close>

function FlagSet_Parse :: "'w flagset \<Rightarrow> string list \<Rightarrow> 'w \<Rightarrow> (goerr + string list) \<times> 'w" where
  "FlagSet_Parse fs args w =
     (case parseOne fs args w of
        Seen rest w' \<Rightarrow> FlagSet_Parse fs rest w'
      | Stop rest \<Rightarrow> (Inr rest, w)
      | Fail e w' \<Rightarrow> (Inl e, w'))"
  by pat_completeness auto
termination
  by (relation "measure (\<lambda>(fs, args, w). length args)") (auto dest: parseOne_Seen)

declare FlagSet_Parse.simps [simp del]

lemma FlagSet_Parse_length: "FlagSet_Parse fs args w = (Inr rest, w') \<Longrightarrow> length rest \<le> length args"
proof (induction fs args w rule: FlagSet_Parse.induct)
  case (1 fs args w)
  show ?case
  proof (cases "parseOne fs args w")
    case (Seen r v)
    with 1 parseOne_Seen[OF Seen] show ?thesis by (simp add: FlagSet_Parse.simps[of fs args])
  next
    case (Stop r)
    with "1.prems" parseOne_Stop[OF Stop] show ?thesis by (simp add: FlagSet_Parse.simps[of fs args])
  next
    case (Fail e v)
    with "1.prems" show ?thesis by (simp add: FlagSet_Parse.simps[of fs args])
  qed
qed

section \<open>Nodes\<close>

text \<open>
  A map of children is an association list with one entry per name; a nil map is \<open>None\<close>. A nil \<open>HelpFlags\<close>
  or one returning nil is \<open>None\<close>.
\<close>

datatype ('x, 'w) node = Node
  (Segment: string) (Summary: string) (Hidden: bool)
  (NodeFlagSet: "'w flagset option") (HelpFlags: "'w flagset option")
  (Children: "(string \<times> ('x, 'w) node) list option")
  (Run: "('x \<Rightarrow> string list \<Rightarrow> 'w \<Rightarrow> goerr option \<times> 'w) option")

definition isGroup :: "('x, 'w) node \<Rightarrow> bool" where
  [go_eval]: "isGroup n \<longleftrightarrow> Children n \<noteq> None"

definition child_list :: "('x, 'w) node \<Rightarrow> (string \<times> ('x, 'w) node) list" where
  [go_eval]: "child_list n = (case Children n of None \<Rightarrow> [] | Some cs \<Rightarrow> cs)"

section \<open>Help\<close>

definition newline :: string where [go_eval]: "newline = [CHR 0x0A]"

fun visible_loop :: "(string \<times> ('x, 'w) node) list \<Rightarrow> string list" where
  "visible_loop [] = []"
| "visible_loop ((name, child) # cs) = (if \<not> Hidden child then name # visible_loop cs else visible_loop cs)"

definition visibleChildren :: "('x, 'w) node \<Rightarrow> string list" where
  [go_eval]: "visibleChildren g = sort (visible_loop (child_list g))"

definition writeFlags :: "'w flagset \<Rightarrow> string" where
  [go_eval]: "writeFlags fs =
     (let flags = map (\<lambda>f. ''  --'' @ fName f @ '' '' @ fDefValue f @ newline @ ''    '' @ [CHR 0x09] @ fUsage f) (VisitAll fs) in
      if length flags > 0
      then newline @ ''Flags:'' @ newline @ concat (map (\<lambda>f. f @ newline) flags)
      else [])"

fun max_len :: "string list \<Rightarrow> nat \<Rightarrow> nat" where
  "max_len [] m = m"
| "max_len (n # ns) m = max_len ns (if m < length n then length n else m)"

definition pad_right :: "nat \<Rightarrow> string \<Rightarrow> string" where
  [go_eval]: "pad_right width s = s @ replicate (width - length s) (CHR '' '')"

definition child_summary :: "('x, 'w) node \<Rightarrow> string \<Rightarrow> string" where
  [go_eval]: "child_summary g name = (case map_of (child_list g) name of Some c \<Rightarrow> Summary c | None \<Rightarrow> [])"

definition writeGroupHelp :: "('x, 'w) node \<Rightarrow> string list \<Rightarrow> string" where
  [go_eval]: "writeGroupHelp g path =
     (let pathStr = join path '' ''; visible = visibleChildren g in
      ''Usage: '' @ pathStr @ '' <command>'' @ newline @
      (if Summary g \<noteq> [] then newline @ Summary g @ newline else []) @
      (if length visible > 0 then
         newline @ ''Available commands:'' @ newline @
         concat (map (\<lambda>name. ''  '' @ pad_right (max_len visible 0) name @ ''  '' @ child_summary g name @ newline) visible)
       else []) @
      (case NodeFlagSet g of None \<Rightarrow> [] | Some fs \<Rightarrow> writeFlags fs) @
      newline @ ''Use '' @ [CHR 0x22] @ pathStr @ '' <command> --help'' @ [CHR 0x22] @
      '' for more information.'' @ newline)"

definition writeCommandHelp :: "('x, 'w) node \<Rightarrow> string list \<Rightarrow> 'w flagset option \<Rightarrow> string" where
  [go_eval]: "writeCommandHelp cmd path fs =
     ''Usage: '' @ join path '' '' @ '' [flags]'' @ newline @
     (if Summary cmd \<noteq> [] then newline @ Summary cmd @ newline else []) @
     (case fs of None \<Rightarrow> [] | Some f \<Rightarrow> writeFlags f)"

section \<open>Dispatch\<close>

text \<open>The state of a run: what was written to standard error, and the program's state.\<close>

type_synonym 'w run_state = "string \<times> 'w"

datatype flags_outcome = FlagsErr goerr | FlagsHelp | FlagsArgs "string list"

definition parseNodeFlags ::
  "('x, 'w) node \<Rightarrow> string list \<Rightarrow> string list \<Rightarrow> 'w run_state \<Rightarrow> flags_outcome \<times> 'w run_state" where
  [go_eval]: "parseNodeFlags n args path st =
     (case NodeFlagSet n of
        None \<Rightarrow> (FlagsArgs args, st)
      | Some fs \<Rightarrow>
          (case FlagSet_Parse fs args (snd st) of
             (Inr rest, w) \<Rightarrow> (FlagsArgs rest, (fst st, w))
           | (Inl e, w) \<Rightarrow>
               if Is_sentinel ''flag: help requested'' e
               then (FlagsHelp, (fst st @ (if isGroup n then writeGroupHelp n path else []), w))
               else (FlagsErr e, (fst st, w))))"

definition on_program :: "string \<Rightarrow> goerr option \<times> 'w \<Rightarrow> goerr option \<times> 'w run_state" where
  [go_eval]: "on_program err r = (fst r, (err, snd r))"

definition handleNoArgs ::
  "'x \<Rightarrow> ('x, 'w) node \<Rightarrow> string list \<Rightarrow> string list \<Rightarrow> 'w run_state \<Rightarrow> goerr option \<times> 'w run_state" where
  [go_eval]: "handleNoArgs ctx n args path st =
     (if isGroup n then
        (Some (if length path = 0 then Errorf_plain ''no command specified''
               else Errorf_plain (''no command specified for '' @ go_quote (last path))),
         (fst st @ writeGroupHelp n path, snd st))
      else case Run n of
        Some run \<Rightarrow> on_program (fst st) (run ctx args (snd st))
      | None \<Rightarrow> (Some (Errorf_plain ''no command specified''), st))"

definition is_help :: "string \<Rightarrow> bool" where
  [go_eval]: "is_help a \<longleftrightarrow> a = ''--help'' \<or> a = ''-h''"

lemma parseNodeFlags_length: "parseNodeFlags n args path st = (FlagsArgs rest, st') \<Longrightarrow> length rest \<le> length args"
  by (auto simp: parseNodeFlags_def split: option.splits prod.splits sum.splits if_splits dest: FlagSet_Parse_length)

text \<open>
  \<open>traverse\<close> and \<open>dispatch\<close> call each other on ever shorter argument lists. \<open>dispatch\<close> is called with
  at least one argument; it takes the first and the others apart.
\<close>

function traverse ::
    "'x \<Rightarrow> ('x, 'w) node \<Rightarrow> string list \<Rightarrow> string list \<Rightarrow> 'w run_state \<Rightarrow> goerr option \<times> 'w run_state"
  and dispatch ::
    "'x \<Rightarrow> ('x, 'w) node \<Rightarrow> string \<Rightarrow> string list \<Rightarrow> string list \<Rightarrow> 'w run_state \<Rightarrow> goerr option \<times> 'w run_state" where
  "traverse ctx n args path st =
     (case parseNodeFlags n args path st of
        (FlagsHelp, st') \<Rightarrow> (None, st')
      | (FlagsErr e, st') \<Rightarrow> (Some e, st')
      | (FlagsArgs rest, st') \<Rightarrow>
          (case rest of
             [] \<Rightarrow> handleNoArgs ctx n rest path st'
           | name # remaining \<Rightarrow> dispatch ctx n name remaining path st'))"
| "dispatch ctx n name remaining path st =
     (if is_help name then (None, (fst st @ (if isGroup n then writeGroupHelp n path else []), snd st))
      else if \<not> isGroup n then (Some (Errorf_plain (''unknown argument '' @ go_quote name)), st)
      else case map_of (child_list n) name of
        None \<Rightarrow> (Some (Errorf_plain (''unknown command '' @ go_quote name)), st)
      | Some child \<Rightarrow>
          let childPath = path @ [name] in
          if isGroup child then traverse ctx child remaining childPath st
          else if remaining \<noteq> [] \<and> is_help (hd remaining)
          then (None, (fst st @ writeCommandHelp child childPath (HelpFlags child), snd st))
          else case Run child of
            None \<Rightarrow> (Some (Errorf_plain (''command '' @ go_quote name @ '' is not runnable'')), st)
          | Some run \<Rightarrow> on_program (fst st) (run ctx remaining (snd st)))"
  by pat_completeness auto
termination
  by (relation "measure (\<lambda>x. case x of Inl (ctx, n, args, path, st) \<Rightarrow> 2 * length args + 1
                                  | Inr (ctx, n, name, remaining, path, st) \<Rightarrow> 2 * length remaining + 2)")
    (auto dest!: parseNodeFlags_length[OF sym])

declare traverse.simps [simp del] dispatch.simps [simp del]

section \<open>The runner\<close>

record ('i, 'r, 'w) runner =
  runner_root :: "(('i, 'r) cli_ctx, 'w) node"
  runner_name :: string
  runner_stdin :: 'r
  runner_errorMapper :: error_mapper
  runner_interceptors :: "'i list"

definition empty_ctx :: "('i, 'r) cli_ctx" where
  [go_eval]: "empty_ctx = \<lparr>keyOutputFormat = None, keyJSONPayload = None, interceptorsKey = None, stdinKey = None\<rparr>"

definition run_ctx :: "('i, 'r, 'w) runner \<Rightarrow> global_flags \<Rightarrow> ('i, 'r) cli_ctx \<Rightarrow> ('i, 'r) cli_ctx" where
  [go_eval]: "run_ctx r gf ctx =
     (let ctx1 = withStdin (withInterceptors ctx (runner_interceptors r)) (runner_stdin r);
          ctx2 = (if jsonPayload gf \<noteq> [] then WithJSONPayload ctx1 (jsonPayload gf) else ctx1)
      in if outputFmt gf \<noteq> [] then WithOutputFormat ctx2 (outputFmt gf) else ctx2)"

definition Runner_Run ::
  "('i, 'r, 'w) runner \<Rightarrow> ('i, 'r) cli_ctx \<Rightarrow> string list \<Rightarrow> 'w run_state \<Rightarrow> goerr option \<times> 'w run_state" where
  [go_eval]: "Runner_Run r ctx args st =
     (case preParseGlobalFlags args of
        Inl e \<Rightarrow> (Some e, st)
      | Inr (remaining, gf) \<Rightarrow>
          let ctx' = run_ctx r gf ctx;
              path = (if runner_name r \<noteq> [] then [runner_name r] else [])
          in case traverse ctx' (runner_root r) remaining path st of
               (None, st') \<Rightarrow> (None, st')
             | (Some runErr, st') \<Rightarrow>
                 (case mapError (runner_errorMapper r) runErr of
                    (status, mappedErr) \<Rightarrow>
                      (Some mappedErr,
                       (fst st' @ (case status of
                                     Some s \<Rightarrow> if OutputFormatFromContext ctx' = OutputJSON then formatErrorJSON s else []
                                   | None \<Rightarrow> []),
                        snd st'))))"

section \<open>Paths in the tree\<close>

fun node_at :: "('x, 'w) node \<Rightarrow> string list \<Rightarrow> ('x, 'w) node option" where
  "node_at n [] = Some n"
| "node_at n (p # ps) = (case map_of (child_list n) p of None \<Rightarrow> None | Some c \<Rightarrow> node_at c ps)"

text \<open>
  A group passes a name on to its dispatch when it has no flags of its own or the name cannot be taken for one. On
  a plain path every group does, and no segment is a spelling of help.
\<close>

definition passes :: "('x, 'w) node \<Rightarrow> string \<Rightarrow> bool" where
  [go_eval]: "passes n p \<longleftrightarrow> NodeFlagSet n = None \<or> classify_token p = ArgToken"

fun plain_path :: "('x, 'w) node \<Rightarrow> string list \<Rightarrow> bool" where
  "plain_path n [] \<longleftrightarrow> True"
| "plain_path n (p # ps) \<longleftrightarrow> passes n p \<and> \<not> is_help p \<and>
     (case map_of (child_list n) p of None \<Rightarrow> True | Some c \<Rightarrow> plain_path c ps)"

lemma child_isGroup: "map_of (child_list n) p = Some c \<Longrightarrow> isGroup n"
  by (auto simp: child_list_def isGroup_def split: option.splits)

lemma traverse_plain:
  "passes n p \<Longrightarrow> traverse ctx n (p # args) path st = dispatch ctx n p args path st"
  by (auto simp: traverse.simps passes_def parseNodeFlags_def FlagSet_Parse.simps split: option.splits)

lemma passes_no_flags [simp]: "NodeFlagSet n = None \<Longrightarrow> passes n p"
  by (simp add: passes_def)

lemma traverse_descend:
  assumes "node_at n ps = Some m" and "plain_path n ps" and "isGroup m"
  shows "traverse ctx n (ps @ rest) path st = traverse ctx m rest (path @ ps) st"
  using assms
proof (induction ps arbitrary: n path)
  case (Cons p ps)
  then obtain c where c: "map_of (child_list n) p = Some c" "node_at c ps = Some m" "plain_path c ps"
    by (auto split: option.splits)
  have "isGroup c"
  proof (cases ps)
    case Nil
    with c Cons.prems(3) show ?thesis by simp
  next
    case (Cons q qs)
    with c(2) show ?thesis by (auto split: option.splits intro: child_isGroup)
  qed
  with Cons c child_isGroup[OF c(1)] show ?case
    by (simp add: traverse_plain dispatch.simps Let_def)
qed simp

lemma dispatch_reached:
  assumes "node_at n (ps @ [p]) = Some m" and "plain_path n (ps @ [p])"
  shows "\<exists>g. isGroup g \<and> passes g p \<and> \<not> is_help p \<and> map_of (child_list g) p = Some m \<and>
    (\<forall>rest path st. traverse ctx n (ps @ p # rest) path st = dispatch ctx g p rest (path @ ps) st)"
proof -
  have "\<exists>g. node_at n ps = Some g \<and> plain_path n ps \<and> passes g p \<and> \<not> is_help p \<and>
      map_of (child_list g) p = Some m"
    using assms by (induction ps arbitrary: n) (auto split: option.splits)
  then obtain g where g: "node_at n ps = Some g" "plain_path n ps" "passes g p" "\<not> is_help p"
    "map_of (child_list g) p = Some m" by blast
  with traverse_descend[OF g(1,2) child_isGroup[OF g(5)]] show ?thesis
    by (intro exI[of _ g]) (simp add: child_isGroup traverse_plain)
qed

lemma visible_loop_set: "set (visible_loop cs) = {n. \<exists>c. (n, c) \<in> set cs \<and> \<not> Hidden c}"
  by (induction cs rule: visible_loop.induct) auto

lemma visible_loop_distinct: "distinct (map fst cs) \<Longrightarrow> distinct (visible_loop cs)"
proof (induction cs rule: visible_loop.induct)
  case (2 n c cs)
  then show ?case by (auto simp: visible_loop_set image_iff)
qed simp

section \<open>Properties\<close>

text \<open>
  A command line reaches its command: when the first arguments name a path to a runnable leaf through
  groups that have no flags of their own or names that are no flags, and help is not asked for, the run is exactly the leaf's run on the
  remaining arguments, in the given context, and the tree adds nothing to standard error.
\<close>

theorem traverse_runs_leaf:
  assumes "node_at n (ps @ [p]) = Some leaf" and "plain_path n (ps @ [p])"
    and "\<not> isGroup leaf" and "Run leaf = Some run" and "rest = [] \<or> \<not> is_help (hd rest)"
  shows "traverse ctx n (ps @ p # rest) path (err, w) = (fst (run ctx rest w), (err, snd (run ctx rest w)))"
proof -
  obtain g where "isGroup g" "\<not> is_help p" "map_of (child_list g) p = Some leaf"
    "traverse ctx n (ps @ p # rest) path (err, w) = dispatch ctx g p rest (path @ ps) (err, w)"
    using dispatch_reached[OF assms(1,2)] by blast
  with assms(3-5) show ?thesis by (auto simp: dispatch.simps Let_def on_program_def)
qed

text \<open>
  C30. Asking for help never runs a command: after any path of names, \<open>--help\<close> or \<open>-h\<close> ends the run
  successfully, prints exactly the help of the group or command named, and leaves the program's state alone.
\<close>

theorem traverse_help:
  assumes "node_at n (ps @ [p]) = Some m" and "plain_path n (ps @ [p])" and "NodeFlagSet m = None" and "is_help h"
  shows "traverse ctx n (ps @ p # h # rest) path (err, w) =
    (None, (err @ (if isGroup m then writeGroupHelp m (path @ ps @ [p])
                   else writeCommandHelp m (path @ ps @ [p]) (HelpFlags m)), w))"
proof -
  obtain g where g: "isGroup g" "\<not> is_help p" "map_of (child_list g) p = Some m"
    "traverse ctx n (ps @ p # h # rest) path (err, w) = dispatch ctx g p (h # rest) (path @ ps) (err, w)"
    using dispatch_reached[OF assms(1,2)] by blast
  have hlp: "dispatch ctx m h rest path' (err, w) =
      (None, (err @ (if isGroup m then writeGroupHelp m path' else []), w))" for path'
    using assms(4) by (simp add: dispatch.simps)
  show ?thesis
    using g hlp assms(3,4) by (simp add: dispatch.simps[of ctx g] Let_def traverse_plain)
qed

text \<open>
  An unknown command changes nothing: below a group reached by its path, a name that is no child and no
  help spelling ends the run with an error that quotes the name; nothing runs and nothing is printed.
\<close>

theorem traverse_unknown:
  assumes "node_at n ps = Some g" and "plain_path n ps" and "isGroup g" and "NodeFlagSet g = None"
    and "map_of (child_list g) name = None" and "\<not> is_help name"
  shows "traverse ctx n (ps @ name # rest) path st = (Some (Errorf_plain (''unknown command '' @ go_quote name)), st)"
  unfolding traverse_descend[OF assms(1-3)] traverse_plain[OF passes_no_flags[OF assms(4)]]
  using assms(3,5,6) by (simp add: dispatch.simps)

text \<open>
  The listing of a group's help is exact: it is sorted, has no repetition and holds the names of
  precisely the children that are not hidden.
\<close>

theorem visibleChildren_exact:
  assumes "distinct (map fst (child_list g))"
  shows "sorted (visibleChildren g) \<and> distinct (visibleChildren g)
    \<and> set (visibleChildren g) = {name. \<exists>c. map_of (child_list g) name = Some c \<and> \<not> Hidden c}"
  using assms by (auto simp: visibleChildren_def visible_loop_distinct visible_loop_set map_of_eq_Some_iff)


section \<open>A concrete tree\<close>

definition example_tree :: "(('i, 'r) cli_ctx, nat) node" where
  "example_tree =
     Node ''app'' ''An app'' False None None (Some
       [(''repo'', Node ''repo'' ''Repositories'' False None None (Some
           [(''list'', Node ''list'' ''List'' False None None None
               (Some (\<lambda>ctx args w. (if args = [] then Some (NewError CodeNotFound ''none'') else None, w + length args)))),
            (''gc'', Node ''gc'' ''Internal'' True None None None None)]) None)]) None"

lemmas example_simps = example_tree_def child_list_def isGroup_def is_help_def

theorem traverse_runs_leaf_witness:
  "traverse (empty_ctx :: (nat, nat) cli_ctx) example_tree [''repo'', ''list'', ''a'', ''b''] [''app''] ([], 5) = (None, ([], 7))"
proof -
  let ?run = "\<lambda>(ctx :: (nat, nat) cli_ctx) args (w :: nat).
    (if args = [] then Some (NewError CodeNotFound ''none'') else None, w + length (args :: string list))"
  have "traverse (empty_ctx :: (nat, nat) cli_ctx) example_tree ([''repo''] @ ''list'' # [''a'', ''b'']) [''app''] ([], 5) =
    (fst (?run empty_ctx [''a'', ''b''] 5), ([], snd (?run empty_ctx [''a'', ''b''] 5)))"
    by (rule traverse_runs_leaf[where leaf = "Node ''list'' ''List'' False None None None (Some ?run)"])
      (simp_all add: example_simps)
  then show ?thesis by simp
qed

theorem traverse_help_witness:
  "traverse (empty_ctx :: (nat, nat) cli_ctx) example_tree [''repo'', ''list'', ''-h''] [''app''] ([], 5) =
    (None, (writeCommandHelp (Node ''list'' ''List'' False None None None
       (Some (\<lambda>(ctx :: (nat, nat) cli_ctx) args w. (if args = [] then Some (NewError CodeNotFound ''none'') else None, w + length args))))
       [''app'', ''repo'', ''list''] None, 5))"
  using traverse_help[where n = "example_tree :: ((nat, nat) cli_ctx, nat) node" and ps = "[''repo'']" and p = "''list''"
      and h = "''-h''" and rest = "[]" and path = "[''app'']" and err = "[]" and w = 5 and ctx = empty_ctx]
  by (simp add: example_simps)

theorem traverse_unknown_witness:
  "traverse (empty_ctx :: (nat, nat) cli_ctx) example_tree [''repo'', ''lst''] [''app''] ([], 5) =
    (Some (Errorf_plain (''unknown command '' @ go_quote ''lst'')), ([], 5))"
  using traverse_unknown[where n = "example_tree :: ((nat, nat) cli_ctx, nat) node" and ps = "[''repo'']" and name = "''lst''"
      and rest = "[]" and path = "[''app'']" and st = "([], 5)" and ctx = empty_ctx]
  by (simp add: example_simps)

theorem visibleChildren_exact_witness:
  "set (visibleChildren (example_tree :: ((nat, nat) cli_ctx, nat) node)) =
     {name. \<exists>c. map_of (child_list (example_tree :: ((nat, nat) cli_ctx, nat) node)) name = Some c \<and> \<not> Hidden c}"
  using visibleChildren_exact[of "example_tree :: ((nat, nat) cli_ctx, nat) node"] by (simp add: example_simps)

definition example_runner :: "(nat, nat, nat) runner" where
  "example_runner = \<lparr>runner_root = example_tree, runner_name = ''app'', runner_stdin = 0, runner_errorMapper = None,
     runner_interceptors = []\<rparr>"


end
