(* ===== verification/Connect.thy ===== *)
theory Connect imports Interceptor Boundary begin

text \<open>
  \<open>transport/connect/errors.go\<close> and \<open>transport/connect/connect.go\<close>: the Connect transport. The connectrpc
  package is not part of the repository: its streams are records of the functions the adapters call,
  its error constructor is a datatype and its codes are the names the program uses. Dereferencing a nil
  response would crash the process; what a crash does is the parameter \<open>crash\<close>.
\<close>

section \<open>Errors\<close>

datatype connect_code =
    ConnectInvalidArgument
  | ConnectNotFound
  | ConnectInternal
  | ConnectUnauthenticated
  | ConnectUnavailable
  | ConnectAlreadyExists
  | ConnectPermissionDenied
  | ConnectAborted

datatype connect_error = ConnectError connect_code goerr

definition mapCode :: "err_code \<Rightarrow> connect_code" where
  [go_eval]: "mapCode code =
     (if code = CodeInvalidArgument then ConnectInvalidArgument
      else if code = CodeNotFound then ConnectNotFound
      else if code = CodeInternal then ConnectInternal
      else if code = CodeUnauthenticated then ConnectUnauthenticated
      else if code = CodeUnavailable then ConnectUnavailable
      else if code = CodeAlreadyExists then ConnectAlreadyExists
      else if code = CodePermissionDenied then ConnectPermissionDenied
      else if code = CodeConflict then ConnectAborted
      else ConnectInternal)"

definition connect_of_status :: "status \<Rightarrow> connect_error" where
  [go_eval]: "connect_of_status st = ConnectError (mapCode (Code st)) (Errorf_plain (Message st))"

definition toConnectError :: "goerr \<Rightarrow> error_mapper \<Rightarrow> connect_error" where
  [go_eval]: "toConnectError err mapper =
     (case StatusOf err of
        Some st \<Rightarrow> connect_of_status st
      | None \<Rightarrow>
          (case mapper of
             Some f \<Rightarrow> (case f err of Some st \<Rightarrow> connect_of_status st | None \<Rightarrow> ConnectError ConnectInternal err)
           | None \<Rightarrow> ConnectError ConnectInternal err))"

interpretation connect_boundary: error_boundary "\<lambda>mapper e. toConnectError e mapper" connect_of_status
    "\<lambda>e. ConnectError ConnectInternal e"
  by unfold_locales (simp_all add: toConnectError_def)

section \<open>Options\<close>

record ('c, 'v, 's) connect_options =
  co_errorMapper :: error_mapper
  co_interceptors :: "('c, 'v, 's) interceptor option list"

definition connect_WithErrorMapper :: "error_mapper \<Rightarrow> ('c, 'v, 's) connect_options \<Rightarrow> ('c, 'v, 's) connect_options" where
  [go_eval]: "connect_WithErrorMapper mapper co = co\<lparr>co_errorMapper := mapper\<rparr>"

definition connect_WithInterceptors ::
  "('c, 'v, 's) interceptor option list \<Rightarrow> ('c, 'v, 's) connect_options \<Rightarrow> ('c, 'v, 's) connect_options" where
  [go_eval]: "connect_WithInterceptors is co = co\<lparr>co_interceptors := is\<rparr>"

definition buildOptions ::
  "(('c, 'v, 's) connect_options \<Rightarrow> ('c, 'v, 's) connect_options) list \<Rightarrow> ('c, 'v, 's) connect_options" where
  [go_eval]: "buildOptions opts = fold (\<lambda>opt co. opt co) opts \<lparr>co_errorMapper = None, co_interceptors = []\<rparr>"

section \<open>Stream adapters\<close>

record ('v, 's) connect_client_stream =
  ccs_Receive :: "'s \<Rightarrow> bool \<times> 's"
  ccs_Err :: "'s \<Rightarrow> goerr option"
  ccs_Msg :: "'s \<Rightarrow> 'v option"

definition connect_clientStream_Receive ::
  "('v, 's) connect_client_stream \<Rightarrow> 's \<Rightarrow> (goerr + 'v request option) \<times> 's" where
  [go_eval]: "connect_clientStream_Receive st s =
     (case ccs_Receive st s of
        (False, s') \<Rightarrow> (case ccs_Err st s' of Some e \<Rightarrow> (Inl e, s') | None \<Rightarrow> (Inl EOF, s'))
      | (True, s') \<Rightarrow> (Inr (Some \<lparr>req_Msg = ccs_Msg st s', req_Meta = meta_zero\<rparr>), s'))"

definition connect_Send ::
  "('s \<Rightarrow> goerr option \<times> 's) \<Rightarrow> ('v option \<Rightarrow> 's \<Rightarrow> goerr option \<times> 's) \<Rightarrow> 'v response option \<Rightarrow> 's
   \<Rightarrow> goerr option \<times> 's" where
  [go_eval]: "connect_Send crash send resp s = (case resp of None \<Rightarrow> crash s | Some r \<Rightarrow> send (resp_Msg r) s)"

record ('v, 's) connect_bidi_stream =
  cbs_Receive :: "'s \<Rightarrow> (goerr + 'v option) \<times> 's"
  cbs_Send :: "'v option \<Rightarrow> 's \<Rightarrow> goerr option \<times> 's"

definition connect_bidiStream_Receive ::
  "('v, 's) connect_bidi_stream \<Rightarrow> 's \<Rightarrow> (goerr + 'v request option) \<times> 's" where
  [go_eval]: "connect_bidiStream_Receive st s =
     (case cbs_Receive st s of
        (Inl e, s') \<Rightarrow> (Inl e, s')
      | (Inr msg, s') \<Rightarrow> (Inr (Some \<lparr>req_Msg = msg, req_Meta = meta_zero\<rparr>), s'))"

section \<open>Handlers\<close>

definition connect_meta :: "string \<Rightarrow> meta" where
  [go_eval]: "connect_meta procedure = meta_zero\<lparr>meta_Procedure := procedure\<rparr>"

definition connect_spec :: "string \<Rightarrow> string \<Rightarrow> call_spec" where
  [go_eval]: "connect_spec procedure shape =
     \<lparr>cs_Procedure = procedure, cs_Transport = TransportConnect, cs_Shape = shape\<rparr>"

text \<open>How a handler's response becomes the answer of a unary or client-streaming procedure.\<close>

definition connect_answer ::
  "error_mapper \<Rightarrow> (goerr + 'v response option) \<times> 'w \<Rightarrow> (connect_error + 'v) \<times> 'w" where
  [go_eval]: "connect_answer mapper out =
     (case out of
        (Inl err, w) \<Rightarrow> (Inl (toConnectError err mapper), w)
      | (Inr pResp, w) \<Rightarrow>
          (case pResp of
             None \<Rightarrow> (Inl (ConnectError ConnectInternal (Errorf_plain ''handler returned nil response'')), w)
           | Some r \<Rightarrow>
               (case resp_Msg r of
                  None \<Rightarrow> (Inl (ConnectError ConnectInternal (Errorf_plain ''handler returned nil response'')), w)
                | Some msg \<Rightarrow> (Inr msg, w))))"

definition connect_stream_answer :: "error_mapper \<Rightarrow> goerr option \<times> 'w \<Rightarrow> connect_error option \<times> 'w" where
  [go_eval]: "connect_stream_answer mapper out =
     (case out of (Some err, w) \<Rightarrow> (Some (toConnectError err mapper), w) | (None, w) \<Rightarrow> (None, w))"

definition NewUnaryHandler ::
  "string \<Rightarrow> string \<Rightarrow> string \<Rightarrow> ('c, 'v, 'w) unary_handler
   \<Rightarrow> (('c, 'v, ('v, 'w) conn_state) connect_options \<Rightarrow> ('c, 'v, ('v, 'w) conn_state) connect_options) list
   \<Rightarrow> string \<times> ('c \<Rightarrow> 'v option \<Rightarrow> 'w \<Rightarrow> (connect_error + 'v) \<times> 'w)" where
  [go_eval]: "NewUnaryHandler tq ts procedure handler opts =
     (let co = buildOptions opts in
      (procedure, \<lambda>ctx msg w.
         connect_answer (co_errorMapper co)
           (InvokeUnary tq ts ctx (connect_spec procedure CallShapeUnary)
              (Some \<lparr>req_Msg = msg, req_Meta = connect_meta procedure\<rparr>) handler (co_interceptors co) w)))"

definition NewClientStreamHandler ::
  "string \<Rightarrow> string \<Rightarrow> string \<Rightarrow> ('c, 'v, ('v, 'w) conn_state) client_stream_handler
   \<Rightarrow> (('c, 'v, ('v, 'w) conn_state) connect_options \<Rightarrow> ('c, 'v, ('v, 'w) conn_state) connect_options) list
   \<Rightarrow> string \<times> ('c \<Rightarrow> ('v, 'w) connect_client_stream \<Rightarrow> 'w \<Rightarrow> (connect_error + 'v) \<times> 'w)" where
  [go_eval]: "NewClientStreamHandler tq ts procedure handler opts =
     (let co = buildOptions opts in
      (procedure, \<lambda>ctx stream w.
         connect_answer (co_errorMapper co)
           (InvokeClientStream tq ts ctx (connect_spec procedure CallShapeClientStream)
              \<lparr>cl_Context = ctx, cl_Receive = connect_clientStream_Receive stream\<rparr> handler (co_interceptors co) w)))"

definition NewServerStreamHandler ::
  "('w \<Rightarrow> goerr option \<times> 'w) \<Rightarrow> string \<Rightarrow> string \<Rightarrow> string \<Rightarrow> ('c, 'v, ('v, 'w) conn_state) server_stream_handler
   \<Rightarrow> (('c, 'v, ('v, 'w) conn_state) connect_options \<Rightarrow> ('c, 'v, ('v, 'w) conn_state) connect_options) list
   \<Rightarrow> string \<times> ('c \<Rightarrow> 'v option \<Rightarrow> ('v option \<Rightarrow> 'w \<Rightarrow> goerr option \<times> 'w) \<Rightarrow> 'w \<Rightarrow> connect_error option \<times> 'w)" where
  [go_eval]: "NewServerStreamHandler crash tq ts procedure handler opts =
     (let co = buildOptions opts in
      (procedure, \<lambda>ctx msg send w.
         connect_stream_answer (co_errorMapper co)
           (InvokeServerStream tq ts ctx (connect_spec procedure CallShapeServerStream)
              (Some \<lparr>req_Msg = msg, req_Meta = connect_meta procedure\<rparr>)
              \<lparr>ss_Context = ctx, ss_Send = connect_Send crash send\<rparr> handler (co_interceptors co) w)))"

definition NewBidiStreamHandler ::
  "('w \<Rightarrow> goerr option \<times> 'w) \<Rightarrow> string \<Rightarrow> string \<Rightarrow> string \<Rightarrow> ('c, 'v, ('v, 'w) conn_state) bidi_handler
   \<Rightarrow> (('c, 'v, ('v, 'w) conn_state) connect_options \<Rightarrow> ('c, 'v, ('v, 'w) conn_state) connect_options) list
   \<Rightarrow> string \<times> ('c \<Rightarrow> ('v, 'w) connect_bidi_stream \<Rightarrow> 'w \<Rightarrow> connect_error option \<times> 'w)" where
  [go_eval]: "NewBidiStreamHandler crash tq ts procedure handler opts =
     (let co = buildOptions opts in
      (procedure, \<lambda>ctx stream w.
         connect_stream_answer (co_errorMapper co)
           (InvokeBidi tq ts ctx (connect_spec procedure CallShapeBidi)
              \<lparr>bs_Context = ctx, bs_Receive = connect_bidiStream_Receive stream,
               bs_Send = connect_Send crash (cbs_Send stream)\<rparr> handler (co_interceptors co) w)))"

section \<open>A connectrpc stream from its messages\<close>

text \<open>
  The documented behaviour of a connectrpc client stream, on the list of messages it will yield and its
  final error: each \<open>Receive\<close> makes the next message the current one; at the end it returns false, for good.
\<close>

type_synonym 'v list_stream = "'v option \<times> 'v list \<times> goerr option"

definition list_client_stream :: "('v, 'v list_stream) connect_client_stream" where
  [go_eval]: "list_client_stream =
     \<lparr>ccs_Receive = (\<lambda>(cur, ms, e). case ms of [] \<Rightarrow> (False, (None, [], e)) | m # r \<Rightarrow> (True, (Some m, r, e))),
      ccs_Err = (\<lambda>(cur, ms, e). e),
      ccs_Msg = (\<lambda>(cur, ms, e). cur)\<rparr>"

section \<open>Properties\<close>

lemma list_client_step [simp]:
  "connect_clientStream_Receive list_client_stream (cur, [], e) =
     (Inl (case e of Some err \<Rightarrow> err | None \<Rightarrow> EOF), (None, [], e))"
  "connect_clientStream_Receive list_client_stream (cur, m # ms, e) =
     (Inr (Some \<lparr>req_Msg = Some m, req_Meta = meta_zero\<rparr>), (Some m, ms, e))"
  by (simp_all add: connect_clientStream_Receive_def list_client_stream_def split: option.splits)

lemma receive_n_list:
  "receive_n (connect_clientStream_Receive list_client_stream) (length ms + k) (cur, ms, e) =
     map (\<lambda>m. Inr (Some \<lparr>req_Msg = Some m, req_Meta = meta_zero\<rparr>)) ms
     @ replicate k (Inl (case e of Some err \<Rightarrow> err | None \<Rightarrow> EOF))"
proof (induction ms arbitrary: cur)
  case Nil
  have "receive_n (connect_clientStream_Receive list_client_stream) k (cur, [], e) =
      replicate k (Inl (case e of Some err \<Rightarrow> err | None \<Rightarrow> EOF))" for cur
    by (induction k arbitrary: cur) simp_all
  then show ?case by simp
qed simp

lemma connect_Send_non_nil: "connect_Send crash send (Some r) w = connect_Send crash' send (Some r) w"
  by (simp add: connect_Send_def)

text \<open>
  C32. A Connect client stream reaches the handler unchanged: it receives the messages in order, once each,
  and then, however often it asks, the stream's error or, after a clean end, \<open>io.EOF\<close>.
\<close>

theorem connect_client_stream_in_order:
  "receive_n (connect_clientStream_Receive list_client_stream) (length ms + k) (None, ms, e) =
     map (\<lambda>m. Inr (Some \<lparr>req_Msg = Some m, req_Meta = meta_zero\<rparr>)) ms
     @ replicate k (Inl (case e of Some err \<Rightarrow> err | None \<Rightarrow> EOF))"
  by (rule receive_n_list)

text \<open>
  No handler, middleware or stream can crash a Connect procedure through a nil response: the outcome of
  server-streaming and bidirectional handlers does not depend on what dereferencing nil would do.
\<close>

theorem connect_handlers_crash_free:
  "NewServerStreamHandler crash tq ts procedure sh opts = NewServerStreamHandler crash' tq ts procedure sh opts
   \<and> NewBidiStreamHandler crash tq ts procedure bh opts = NewBidiStreamHandler crash' tq ts procedure bh opts"
proof
  show "NewServerStreamHandler crash tq ts procedure sh opts = NewServerStreamHandler crash' tq ts procedure sh opts"
    unfolding NewServerStreamHandler_def Let_def
    by (simp add: InvokeServerStream_cong[of "connect_Send crash _" "connect_Send crash' _", OF connect_Send_non_nil])
  show "NewBidiStreamHandler crash tq ts procedure bh opts = NewBidiStreamHandler crash' tq ts procedure bh opts"
    unfolding NewBidiStreamHandler_def Let_def
    by (simp add: InvokeBidi_cong[of "connect_Send crash _" "connect_Send crash' _", OF connect_Send_non_nil])
qed

text \<open>
  C35. A unary Connect procedure behind pass-through middleware answers with the handler's message, or with
  an error whose code is the one of the error's status, of the mapper's status, or internal, in this order.
\<close>

theorem connect_unary_answers:
  assumes "co_interceptors (buildOptions opts) = chain" and "\<forall>i\<in>set chain. \<forall>h. wrap_slot i h = h"
  shows "snd (NewUnaryHandler tq ts procedure handler opts) ctx msg w =
    (case handler ctx (Some \<lparr>req_Msg = msg, req_Meta = connect_meta procedure\<rparr>) w of
       (Inr (Some r), w') \<Rightarrow>
         (case resp_Msg r of
            Some m \<Rightarrow> Inr m
          | None \<Rightarrow> Inl (ConnectError ConnectInternal (Errorf_plain ''handler returned nil response'')), w')
     | (Inr None, w') \<Rightarrow> (Inl (ConnectError ConnectInternal (Errorf_plain ''handler returned nil response'')), w')
     | (Inl e, w') \<Rightarrow>
         (Inl (case boundary_status (co_errorMapper (buildOptions opts)) e of
                 Some st \<Rightarrow> ConnectError (mapCode (Code st)) (Errorf_plain (Message st))
               | None \<Rightarrow> ConnectError ConnectInternal e), w'))"
  using InvokeUnary_identity[OF assms(2)] assms(1)
  by (auto simp: NewUnaryHandler_def Let_def connect_answer_def connect_boundary.report_eq connect_of_status_def
      split: prod.splits sum.splits option.splits)

theorem connect_unary_answers_witness:
  "snd (NewUnaryHandler ''Req'' ''Res'' ''/p.S/M'' (\<lambda>ctx req w. (Inl (NewError CodeConflict ''busy''), Suc w))
      [connect_WithInterceptors [None]]) () (Some (7::nat)) (0::nat)
   = (Inl (ConnectError ConnectAborted (Errorf_plain ''busy'')), 1)"
  by (subst connect_unary_answers[where chain = "[None]"])
    (simp_all add: buildOptions_def connect_WithInterceptors_def boundary_status_def mapCode_def
      CodeConflict_def CodeInvalidArgument_def CodeNotFound_def CodeInternal_def CodeUnauthenticated_def
      CodeUnavailable_def CodeAlreadyExists_def CodePermissionDenied_def)

text \<open>
  Connect codes tell the canonical codes apart, and every other code is reported as internal.
\<close>

theorem mapCode_canonical:
  "distinct (map mapCode canonical_codes) \<and> (code \<in> set canonical_codes \<or> mapCode code = ConnectInternal)"
proof
  show "distinct (map mapCode canonical_codes)" by code_simp
  show "code \<in> set canonical_codes \<or> mapCode code = ConnectInternal"
    by (simp add: mapCode_def canonical_codes_def)
qed

end
