(* ===== verification/CodegenNaming.thy ===== *)
theory CodegenNaming imports ConfigParse CliFlag begin

text \<open>
  \<open>internal/codegen/naming.go\<close> and \<open>internal/codegen/params.go\<close>: how the generator names flags and enum values
  and which files it takes for configurations. Identifiers of the protobuf language are ASCII, on which
  runes are bytes.
\<close>

section \<open>Flag names\<close>

definition fieldToFlagName :: "string \<Rightarrow> string" where
  [go_eval]: "fieldToFlagName name = replace_byte CHR ''_'' CHR ''-'' name"

section \<open>Enum values\<close>

record enum_value_info =
  ev_ProtoName :: string
  ev_Number :: int32

text \<open>The rune before and the runes from the current one on.\<close>

fun camel_loop :: "char option \<Rightarrow> string \<Rightarrow> string" where
  "camel_loop prev [] = []"
| "camel_loop prev (r # rs) =
     (case prev of
        None \<Rightarrow> []
      | Some p \<Rightarrow>
          if \<not> is_upper r then []
          else if is_lower p then ''_''
          else if is_upper p \<and> (case rs of [] \<Rightarrow> False | n # _ \<Rightarrow> is_lower n) then ''_''
          else []) @ upper_char r # camel_loop (Some r) rs"

definition camelToUpperSnake :: "string \<Rightarrow> string" where
  [go_eval]: "camelToUpperSnake s = camel_loop None s"

text \<open>The name of a value on the command line and in configuration texts.\<close>

definition cli_name :: "string \<Rightarrow> string \<Rightarrow> string" where
  [go_eval]: "cli_name prefix protoName = to_lower (trim_prefix protoName prefix)"

fun enum_values_loop ::
  "string \<Rightarrow> string \<Rightarrow> enum_value_info list \<Rightarrow> (string \<rightharpoonup> string) \<Rightarrow> cli_enum_mapping list \<Rightarrow> goerr + cli_enum_mapping list" where
  "enum_values_loop typeName prefix [] seen mappings = Inr mappings"
| "enum_values_loop typeName prefix (v # vs) seen mappings =
     (if ev_Number v = 0 then enum_values_loop typeName prefix vs seen mappings
      else
        let cliVal = cli_name prefix (ev_ProtoName v) in
        case seen cliVal of
          Some prev \<Rightarrow>
            Inl (Errorf_plain (''enum '' @ typeName @ '': stripped value '' @ go_quote cliVal @
              '' collides between '' @ prev @ '' and '' @ ev_ProtoName v))
        | None \<Rightarrow>
            enum_values_loop typeName prefix vs (seen(cliVal \<mapsto> ev_ProtoName v))
              (mappings @ [\<lparr>CLIValue = cliVal, Number = ev_Number v\<rparr>]))"

definition enumCLIValues :: "string \<Rightarrow> enum_value_info list \<Rightarrow> goerr + cli_enum_mapping list" where
  [go_eval]: "enumCLIValues typeName vals =
     enum_values_loop typeName (camelToUpperSnake typeName @ ''_'') vals Map.empty []"

section \<open>Parameters\<close>

text \<open>\<open>path.Base\<close>: the last element of a path without its trailing slashes.\<close>

fun last_element :: "string \<Rightarrow> string \<Rightarrow> string" where
  "last_element [] acc = acc"
| "last_element (c # cs) acc = (if c = CHR ''/'' then last_element cs [] else last_element cs (acc @ [c]))"

definition path_base :: "string \<Rightarrow> string" where
  [go_std]: "path_base p =
     (if p = [] then ''.''
      else let q = rev (dropWhile (\<lambda>c. c = CHR ''/'') (rev p)) in
        if q = [] then ''/'' else last_element q [])"

record params =
  ConfigProto :: string

definition defaultConfigProtoBasename :: string where
  [go_eval]: "defaultConfigProtoBasename = ''config.proto''"

definition containsSlash :: "string \<Rightarrow> bool" where
  [go_eval]: "containsSlash s \<longleftrightarrow> CHR ''/'' \<in> set s"

definition isConfigProto :: "params \<Rightarrow> string \<Rightarrow> bool" where
  [go_eval]: "isConfigProto p protoPath \<longleftrightarrow>
     (let pattern = ConfigProto p in
      if pattern = [] then path_base protoPath = defaultConfigProtoBasename
      else if containsSlash pattern then protoPath = pattern
      else path_base protoPath = pattern)"

definition Params_Set :: "string \<Rightarrow> string \<Rightarrow> params \<Rightarrow> goerr + params" where
  [go_eval]: "Params_Set name val p =
     (if name = ''config_proto'' then Inr (p\<lparr>ConfigProto := val\<rparr>)
      else Inl (Errorf_plain (''unknown parameter '' @ go_quote name)))"

section \<open>Lemmas\<close>

definition nonzero :: "enum_value_info list \<Rightarrow> enum_value_info list" where
  "nonzero vs = filter (\<lambda>v. ev_Number v \<noteq> 0) vs"

lemma nonzero_simps [simp]:
  "nonzero [] = []" "nonzero (v # vs) = (if ev_Number v = 0 then nonzero vs else v # nonzero vs)"
  by (simp_all add: nonzero_def)

definition enum_names :: "string \<Rightarrow> enum_value_info list \<Rightarrow> string list" where
  "enum_names typeName vs = map (\<lambda>v. cli_name (camelToUpperSnake typeName @ ''_'') (ev_ProtoName v)) (nonzero vs)"

lemma seen_upd_None:
  "(\<forall>w \<in> S. (seen(k \<mapsto> x)) (f w) = None) \<longleftrightarrow> k \<notin> f ` S \<and> (\<forall>w \<in> S. seen (f w) = None)"
  by auto

lemma enum_values_loop_ok:
  "enum_values_loop T p vs seen ms = Inr ms' \<longleftrightarrow>
     distinct (map (\<lambda>v. cli_name p (ev_ProtoName v)) (nonzero vs))
     \<and> (\<forall>v \<in> set (nonzero vs). seen (cli_name p (ev_ProtoName v)) = None)
     \<and> ms' = ms @ map (\<lambda>v. \<lparr>CLIValue = cli_name p (ev_ProtoName v), Number = ev_Number v\<rparr>) (nonzero vs)"
proof (induction T p vs seen ms rule: enum_values_loop.induct)
  case (2 T p v vs seen ms)
  show ?case
  proof (cases "ev_Number v = 0")
    case False
    show ?thesis
    proof (cases "seen (cli_name p (ev_ProtoName v))")
      case None
      with False have step: "enum_values_loop T p (v # vs) seen ms = enum_values_loop T p vs
          (seen(cli_name p (ev_ProtoName v) \<mapsto> ev_ProtoName v))
          (ms @ [\<lparr>CLIValue = cli_name p (ev_ProtoName v), Number = ev_Number v\<rparr>])" by (simp add: Let_def)
      show ?thesis unfolding step 2(2)[OF False refl None] seen_upd_None using False None by auto
    next
      case (Some prev)
      with False show ?thesis by (simp add: Let_def)
    qed
  qed (simp add: 2)
qed auto

lemma enumCLIValues_ok:
  "enumCLIValues T vs = Inr ms \<longleftrightarrow> distinct (enum_names T vs)
     \<and> ms = map (\<lambda>v. \<lparr>CLIValue = cli_name (camelToUpperSnake T @ ''_'') (ev_ProtoName v), Number = ev_Number v\<rparr>) (nonzero vs)"
  by (simp add: enumCLIValues_def enum_values_loop_ok enum_names_def)

lemma find_cli_value_map_of:
  "find_cli_value l ms = map_of (map (\<lambda>m. (to_lower (CLIValue m), Number m)) ms) l"
  by (induction ms) auto

lemma cli_name_lower [simp]: "to_lower (cli_name p n) = cli_name p n"
  by (simp add: cli_name_def)

lemma last_element_append: "CHR ''/'' \<notin> set b \<Longrightarrow> last_element (d @ CHR ''/'' # b) acc = b"
proof (induction d arbitrary: acc)
  case Nil
  have "last_element b x = x @ b" if "CHR ''/'' \<notin> set b" for x
    using that by (induction b arbitrary: x) auto
  with Nil show ?case by simp
qed simp

section \<open>Properties\<close>

text \<open>
  A generated enum flag is faithful: an enum the generator accepts has flag mappings with which every value
  but zero is read, in any letter case, from its name and only from it.
\<close>

theorem generated_enum_flag:
  assumes "enumCLIValues T vs = Inr ms"
  shows "EnumValue_Set ms T s cur = Inr n \<longleftrightarrow>
    (\<exists>v. v \<in> set vs \<and> ev_Number v = n \<and> n \<noteq> 0 \<and> to_lower s = cli_name (camelToUpperSnake T @ ''_'') (ev_ProtoName v))"
proof -
  let ?k = "\<lambda>v. cli_name (camelToUpperSnake T @ ''_'') (ev_ProtoName v)"
  have ms: "map (\<lambda>m. (to_lower (CLIValue m), Number m)) ms = map (\<lambda>v. (?k v, ev_Number v)) (nonzero vs)"
    and d: "distinct (map fst (map (\<lambda>v. (?k v, ev_Number v)) (nonzero vs)))"
    using assms by (auto simp: enumCLIValues_ok enum_names_def o_def)
  have "EnumValue_Set ms T s cur = Inr n \<longleftrightarrow> find_cli_value (to_lower s) ms = Some n"
    by (simp add: EnumValue_Set_def split: option.splits)
  also have "\<dots> \<longleftrightarrow> (to_lower s, n) \<in> set (map (\<lambda>v. (?k v, ev_Number v)) (nonzero vs))"
    unfolding find_cli_value_map_of ms by (rule map_of_eq_Some_iff[OF d])
  finally show ?thesis by (auto simp: nonzero_def)
qed

text \<open>
  C1. A bare file name selects configuration files by their base name in any directory, and the default does so
  for \<open>config.proto\<close>.
\<close>

theorem isConfigProto_basename:
  assumes "CHR ''/'' \<notin> set b" and "b \<noteq> []" and "CHR ''/'' \<notin> set pat"
  shows "isConfigProto \<lparr>ConfigProto = pat\<rparr> (d @ ''/'' @ b) \<longleftrightarrow> b = (if pat = [] then ''config.proto'' else pat)"
proof -
  have "path_base (d @ ''/'' @ b) = b"
    using assms(1,2) last_element_append[OF assms(1), of d]
    by (cases b rule: rev_cases) (auto simp: path_base_def Let_def)
  then show ?thesis
    using assms by (simp add: isConfigProto_def containsSlash_def defaultConfigProtoBasename_def Let_def)
qed

section \<open>Witnesses\<close>

definition level_values :: "enum_value_info list" where
  [go_eval]: "level_values = [\<lparr>ev_ProtoName = ''LOG_LEVEL_UNSPECIFIED'', ev_Number = 0\<rparr>,
     \<lparr>ev_ProtoName = ''LOG_LEVEL_DEBUG'', ev_Number = 1\<rparr>, \<lparr>ev_ProtoName = ''LOG_LEVEL_INFO'', ev_Number = 2\<rparr>]"

definition level_mappings :: "cli_enum_mapping list" where
  [go_eval]: "level_mappings = [\<lparr>CLIValue = ''debug'', Number = 1\<rparr>, \<lparr>CLIValue = ''info'', Number = 2\<rparr>]"

lemma level_ok: "enumCLIValues ''LogLevel'' level_values = Inr level_mappings"
  by code_simp

theorem generated_enum_flag_witness: "EnumValue_Set level_mappings ''LogLevel'' ''Info'' 0 = Inr 2"
proof -
  have v: "\<lparr>ev_ProtoName = ''LOG_LEVEL_INFO'', ev_Number = 2\<rparr> \<in> set level_values" by (simp add: level_values_def)
  have n: "to_lower ''Info'' = cli_name (camelToUpperSnake ''LogLevel'' @ ''_'') ''LOG_LEVEL_INFO''" by code_simp
  show ?thesis unfolding generated_enum_flag[OF level_ok] using v n by (intro exI conjI) auto
qed

theorem isConfigProto_basename_witness: "isConfigProto \<lparr>ConfigProto = []\<rparr> (''acme/v1'' @ ''/'' @ ''config.proto'')"
  by (subst isConfigProto_basename) simp_all

end
