(* ===== verification/CodegenConfig.thy ===== *)
theory CodegenConfig imports CodegenNaming Bootstrap begin

text \<open>
  The configuration side of the generator: the descriptors it reads, \<open>internal/codegen/config_model.go\<close>,
  the extraction of configuration messages in \<open>options.go\<close> and their validation in \<open>validate.go\<close>. A
  descriptor is a record of what the generator reads of it; an extension that is not set is \<open>None\<close>.
  A pointer to another message is the full name of that message. The argument \<open>pf\<close> holds the operations on
  floats, whose values are of the type \<open>'f\<close>.
\<close>

section \<open>Descriptors\<close>

datatype kind = BoolKind | EnumKind | Int32Kind | Sint32Kind | Uint32Kind | Int64Kind | Sint64Kind | Uint64Kind
  | Sfixed32Kind | Fixed32Kind | FloatKind | Sfixed64Kind | Fixed64Kind | DoubleKind | StringKind | BytesKind
  | MessageKind | GroupKind

fun kind_string :: "kind \<Rightarrow> string" where
  "kind_string BoolKind = ''bool''" | "kind_string EnumKind = ''enum''" | "kind_string Int32Kind = ''int32''"
| "kind_string Sint32Kind = ''sint32''" | "kind_string Uint32Kind = ''uint32''" | "kind_string Int64Kind = ''int64''"
| "kind_string Sint64Kind = ''sint64''" | "kind_string Uint64Kind = ''uint64''" | "kind_string Sfixed32Kind = ''sfixed32''"
| "kind_string Fixed32Kind = ''fixed32''" | "kind_string FloatKind = ''float''" | "kind_string Sfixed64Kind = ''sfixed64''"
| "kind_string Fixed64Kind = ''fixed64''" | "kind_string DoubleKind = ''double''" | "kind_string StringKind = ''string''"
| "kind_string BytesKind = ''bytes''" | "kind_string MessageKind = ''message''" | "kind_string GroupKind = ''group''"

record enum_desc =
  en_Name :: string
  en_FullName :: string
  en_GoName :: string
  en_Values :: "enum_value_info list"

record config_options =
  opt_Env :: "string option"
  opt_Default :: "string option"
  opt_Required :: bool
  opt_Secret :: bool
  opt_Bootstrap :: bool

record proto_field =
  pf_Name :: string
  pf_JSONName :: string
  pf_GoName :: string
  pf_Kind :: kind
  pf_IsList :: bool
  pf_IsMap :: bool
  pf_Enum :: "enum_desc option"
  pf_Message :: "string option"
  pf_MapKey :: kind
  pf_MapValue :: kind
  pf_Description :: "string option"
  pf_Config :: "config_options option"

record proto_message =
  pm_GoName :: string
  pm_Fields :: "proto_field list"

record proto_file =
  file_Path :: string
  file_Generate :: bool
  file_Messages :: "proto_message list"

section \<open>The configuration model\<close>

record config_field_info =
  cf_ProtoName :: string
  cf_JSONName :: string
  cf_GoName :: string
  cf_Kind :: kind
  cf_IsList :: bool
  cf_IsMap :: bool
  cf_EnumTypeName :: string
  cf_EnumGoIdent :: string
  cf_EnumValues :: "enum_value_info list"
  cf_Env :: string
  cf_HasEnv :: bool
  cf_Default :: string
  cf_HasDefault :: bool
  cf_Required :: bool
  cf_Secret :: bool
  cf_Bootstrap :: bool

record config_message_info =
  cm_GoName :: string
  cm_Fields :: "config_field_info list"

record config_info =
  ci_FilePath :: string
  ci_Message :: config_message_info

definition FlagName :: "config_field_info \<Rightarrow> string" where
  [go_eval]: "FlagName f = fieldToFlagName (cf_ProtoName f)"

definition NeedsStringParser :: "config_field_info \<Rightarrow> bool" where
  [go_eval]: "NeedsStringParser f \<longleftrightarrow> cf_HasDefault f \<or> cf_HasEnv f \<or> cf_Bootstrap f"

definition NeedsJSONFieldParser :: "config_field_info \<Rightarrow> bool" where
  [go_eval]: "NeedsJSONFieldParser f \<longleftrightarrow> cf_Kind f = EnumKind \<and> \<not> cf_IsList f \<and> \<not> cf_IsMap f"

section \<open>Extraction\<close>

definition extractConfigFieldInfo :: "proto_field \<Rightarrow> config_options \<Rightarrow> config_field_info" where
  [go_eval]: "extractConfigFieldInfo field opt =
     \<lparr>cf_ProtoName = pf_Name field, cf_JSONName = pf_JSONName field, cf_GoName = pf_GoName field,
      cf_Kind = pf_Kind field, cf_IsList = pf_IsList field, cf_IsMap = pf_IsMap field,
      cf_EnumTypeName = (case pf_Enum field of Some en \<Rightarrow> en_Name en | None \<Rightarrow> []),
      cf_EnumGoIdent = (case pf_Enum field of Some en \<Rightarrow> en_GoName en | None \<Rightarrow> []),
      cf_EnumValues = (case pf_Enum field of Some en \<Rightarrow> en_Values en | None \<Rightarrow> []),
      cf_Env = (case opt_Env opt of Some e \<Rightarrow> e | None \<Rightarrow> []), cf_HasEnv = (opt_Env opt \<noteq> None),
      cf_Default = (case opt_Default opt of Some d \<Rightarrow> d | None \<Rightarrow> []), cf_HasDefault = (opt_Default opt \<noteq> None),
      cf_Required = opt_Required opt, cf_Secret = opt_Secret opt, cf_Bootstrap = opt_Bootstrap opt\<rparr>"

fun config_fields :: "proto_field list \<Rightarrow> config_field_info list" where
  "config_fields [] = []"
| "config_fields (f # fs) =
     (case pf_Config f of
        None \<Rightarrow> config_fields fs
      | Some opt \<Rightarrow> extractConfigFieldInfo f opt # config_fields fs)"

definition extractConfigMessageInfo :: "proto_message \<Rightarrow> config_message_info option" where
  [go_eval]: "extractConfigMessageInfo msg =
     (let fs = config_fields (pm_Fields msg) in
      if length fs = 0 then None else Some \<lparr>cm_GoName = pm_GoName msg, cm_Fields = fs\<rparr>)"

fun collectConfigCandidates :: "proto_message list \<Rightarrow> config_message_info list" where
  "collectConfigCandidates [] = []"
| "collectConfigCandidates (m # ms) =
     (case extractConfigMessageInfo m of
        None \<Rightarrow> collectConfigCandidates ms
      | Some info \<Rightarrow> info # collectConfigCandidates ms)"

definition errMultipleConfigMessages :: "string \<Rightarrow> config_message_info list \<Rightarrow> goerr" where
  [go_eval]: "errMultipleConfigMessages filePath msgs =
     Errorf_plain (filePath @ '': exactly one top-level config message with field options is allowed; found ''
       @ join (sort (map cm_GoName msgs)) '', '')"

definition extractConfigInfo :: "proto_file \<Rightarrow> params \<Rightarrow> goerr + config_info option" where
  [go_eval]: "extractConfigInfo file p =
     (if \<not> isConfigProto p (file_Path file) then Inr None
      else case collectConfigCandidates (file_Messages file) of
        [] \<Rightarrow> Inr None
      | [m] \<Rightarrow> Inr (Some \<lparr>ci_FilePath = file_Path file, ci_Message = m\<rparr>)
      | m # m' # ms \<Rightarrow> Inl (errMultipleConfigMessages (file_Path file) (m # m' # ms)))"

section \<open>Values\<close>

datatype 'f config_value = VBool bool | VInt32 int32 | VInt64 int64 | VUint32 uint32 | VUint64 uint64
  | VFloat32 'f | VFloat64 'f | VString string | VBytes string | VEnum int32

definition val_map :: "('a \<Rightarrow> 'b) \<Rightarrow> 'e + 'a \<Rightarrow> 'e + 'b" where
  [go_eval]: "val_map g r = (case r of Inl e \<Rightarrow> Inl e | Inr v \<Rightarrow> Inr (g v))"

definition config_mappings :: "cli_enum_mapping list \<Rightarrow> enum_mapping option list" where
  [go_eval]: "config_mappings ms = map (\<lambda>m. Some \<lparr>mapping_Name = CLIValue m, mapping_Number = Number m\<rparr>) ms"

fun number_of_name :: "string \<Rightarrow> enum_value_info list \<Rightarrow> int32 option" where
  "number_of_name raw [] = None"
| "number_of_name raw (v # vs) = (if raw = ev_ProtoName v then Some (ev_Number v) else number_of_name raw vs)"

definition parse_enum_text :: "config_field_info \<Rightarrow> cli_enum_mapping list \<Rightarrow> string \<Rightarrow> goerr + 'f config_value" where
  [go_eval]: "parse_enum_text field mappings raw =
     (case ParseEnum raw (config_mappings mappings) (cf_EnumTypeName field) of
        Inr v \<Rightarrow> Inr (VEnum v)
      | Inl enumErr \<Rightarrow>
          (case number_of_name raw (cf_EnumValues field) of
             Some n \<Rightarrow> Inr (VEnum n)
           | None \<Rightarrow> (case ParseInt raw 32 of Inr v \<Rightarrow> Inr (VEnum (word_of_int v)) | Inl _ \<Rightarrow> Inl enumErr)))"

definition unsupported_kind :: "kind \<Rightarrow> goerr" where
  [go_eval]: "unsupported_kind k = Errorf_plain (''unsupported kind '' @ kind_string k)"

definition parseConfigValueForValidation :: "'f float_ops \<Rightarrow> config_field_info \<Rightarrow> string \<Rightarrow> goerr + 'f config_value" where
  "parseConfigValueForValidation pf field raw =
     (case cf_Kind field of
        BoolKind \<Rightarrow> val_map VBool (ParseBool raw)
      | Int32Kind \<Rightarrow> val_map VInt32 (ParseInt32 raw)
      | Sint32Kind \<Rightarrow> val_map VInt32 (ParseInt32 raw)
      | Sfixed32Kind \<Rightarrow> val_map VInt32 (ParseInt32 raw)
      | Int64Kind \<Rightarrow> val_map VInt64 (ParseInt64 raw)
      | Sint64Kind \<Rightarrow> val_map VInt64 (ParseInt64 raw)
      | Sfixed64Kind \<Rightarrow> val_map VInt64 (ParseInt64 raw)
      | Uint32Kind \<Rightarrow> val_map VUint32 (ParseUint32 raw)
      | Fixed32Kind \<Rightarrow> val_map VUint32 (ParseUint32 raw)
      | Uint64Kind \<Rightarrow> val_map VUint64 (ParseUint64 raw)
      | Fixed64Kind \<Rightarrow> val_map VUint64 (ParseUint64 raw)
      | FloatKind \<Rightarrow> val_map VFloat32 (ParseFloat32 pf raw)
      | DoubleKind \<Rightarrow> val_map VFloat64 (ParseFloat64 pf raw)
      | StringKind \<Rightarrow> val_map VString (ParseString raw)
      | BytesKind \<Rightarrow> val_map VBytes (ParseBytes raw)
      | EnumKind \<Rightarrow>
          (case enumCLIValues (cf_EnumTypeName field) (cf_EnumValues field) of
             Inl e \<Rightarrow> Inl e
           | Inr mappings \<Rightarrow> parse_enum_text field mappings raw)
      | MessageKind \<Rightarrow> Inl (unsupported_kind MessageKind)
      | GroupKind \<Rightarrow> Inl (unsupported_kind GroupKind))"

section \<open>Validation\<close>

definition isComplexConfigField :: "config_field_info \<Rightarrow> bool" where
  [go_eval]: "isComplexConfigField f \<longleftrightarrow> cf_IsList f \<or> cf_IsMap f \<or> cf_Kind f = MessageKind \<or> cf_Kind f = GroupKind"

definition complex_error :: "string \<Rightarrow> string \<Rightarrow> goerr" where
  [go_eval]: "complex_error fieldPath opt =
     Errorf_plain (''config field '' @ fieldPath @ '': complex field (list/map/message) cannot use '' @ opt)"

definition validateComplexConfigFieldOptions :: "string \<Rightarrow> config_field_info \<Rightarrow> goerr option" where
  [go_eval]: "validateComplexConfigFieldOptions fieldPath f =
     (if cf_HasEnv f then Some (complex_error fieldPath ''env'')
      else if cf_Bootstrap f then Some (complex_error fieldPath ''bootstrap'')
      else if cf_HasDefault f then Some (complex_error fieldPath ''default_string'')
      else None)"

definition validateConfigFieldType :: "string \<Rightarrow> config_field_info \<Rightarrow> goerr option" where
  [go_eval]: "validateConfigFieldType fieldPath field =
     (if isComplexConfigField field then validateComplexConfigFieldOptions fieldPath field else None)"

text \<open>The map of names seen, updated where the check passes.\<close>

definition validateConfigEnv ::
  "string \<Rightarrow> config_field_info \<Rightarrow> (string \<rightharpoonup> string) \<Rightarrow> goerr + (string \<rightharpoonup> string)" where
  [go_eval]: "validateConfigEnv fieldPath field envSeen =
     (if \<not> cf_HasEnv field then Inr envSeen
      else if cf_Env field = [] then Inl (Errorf_plain (''config field '' @ fieldPath @ '': env must not be empty''))
      else case envSeen (cf_Env field) of
        Some prev \<Rightarrow>
          Inl (Errorf_plain (''config field '' @ fieldPath @ '': env '' @ go_quote (cf_Env field) @ '' duplicates '' @ prev))
      | None \<Rightarrow> Inr (envSeen(cf_Env field \<mapsto> fieldPath)))"

definition validateConfigBootstrap ::
  "string \<Rightarrow> config_field_info \<Rightarrow> (string \<rightharpoonup> string) \<Rightarrow> goerr + (string \<rightharpoonup> string)" where
  [go_eval]: "validateConfigBootstrap fieldPath field bootstrapSeen =
     (if \<not> cf_Bootstrap field then Inr bootstrapSeen
      else let flagName = FlagName field in
        if flagName = ReservedConfigFlag
        then Inl (Errorf_plain (''config field '' @ fieldPath @ '': bootstrap flag --'' @ ReservedConfigFlag @ '' is reserved''))
        else case bootstrapSeen flagName of
          Some prev \<Rightarrow>
            Inl (Errorf_plain (''config field '' @ fieldPath @ '': bootstrap flag --'' @ flagName @ '' duplicates '' @ prev))
        | None \<Rightarrow> Inr (bootstrapSeen(flagName \<mapsto> fieldPath)))"

type_synonym seen_names = "(string \<rightharpoonup> string) \<times> (string \<rightharpoonup> string)"

definition validateConfigFieldMetadata ::
  "string \<Rightarrow> config_field_info \<Rightarrow> seen_names \<Rightarrow> goerr + seen_names" where
  [go_eval]: "validateConfigFieldMetadata fieldPath field seen =
     (case validateConfigEnv fieldPath field (fst seen) of
        Inl e \<Rightarrow> Inl e
      | Inr envSeen \<Rightarrow>
          (case validateConfigBootstrap fieldPath field (snd seen) of
             Inl e \<Rightarrow> Inl e
           | Inr bootstrapSeen \<Rightarrow> Inr (envSeen, bootstrapSeen)))"

definition validateConfigDefault :: "'f float_ops \<Rightarrow> string \<Rightarrow> config_field_info \<Rightarrow> goerr option" where
  [go_eval]: "validateConfigDefault pf fieldPath field =
     (case parseConfigValueForValidation pf field (cf_Default field) of
        Inl err \<Rightarrow> Some (wrapf (''config field '' @ fieldPath @ '': default_string '' @ go_quote (cf_Default field) @ '' is invalid: '') err)
      | Inr v \<Rightarrow> None)"

definition field_path :: "config_message_info \<Rightarrow> config_field_info \<Rightarrow> string" where
  [go_eval]: "field_path msg field = cm_GoName msg @ ''.'' @ cf_ProtoName field"

definition validate_field ::
  "'f float_ops \<Rightarrow> config_message_info \<Rightarrow> config_field_info \<Rightarrow> seen_names \<Rightarrow> goerr + seen_names" where
  [go_eval]: "validate_field pf msg field seen =
     (let fieldPath = field_path msg field in
      case validateConfigFieldType fieldPath field of
        Some err \<Rightarrow> Inl err
      | None \<Rightarrow>
          (case validateConfigFieldMetadata fieldPath field seen of
             Inl err \<Rightarrow> Inl err
           | Inr seen' \<Rightarrow>
               (case (if cf_HasDefault field then validateConfigDefault pf fieldPath field else None) of
                  Some err \<Rightarrow> Inl err
                | None \<Rightarrow> Inr seen')))"

definition shouldValidateConfig :: "config_info option \<Rightarrow> params \<Rightarrow> bool" where
  [go_eval]: "shouldValidateConfig cfg p \<longleftrightarrow>
     (case cfg of None \<Rightarrow> False | Some c \<Rightarrow> isConfigProto p (ci_FilePath c) \<and> 0 < length (cm_Fields (ci_Message c)))"

definition validateConfigInfo :: "'f float_ops \<Rightarrow> config_info option \<Rightarrow> params \<Rightarrow> goerr option" where
  [go_eval]: "validateConfigInfo pf cfg p =
     (if \<not> shouldValidateConfig cfg p then None
      else case cfg of
        None \<Rightarrow> None
      | Some c \<Rightarrow>
          (case fold_res (validate_field pf (ci_Message c)) (cm_Fields (ci_Message c)) (Map.empty, Map.empty) of
             Inl e \<Rightarrow> Some e
           | Inr seen \<Rightarrow> None))"

text \<open>\<open>validateConfigCollisions\<close>: a file whose extraction fails is passed over.\<close>

fun collision_files :: "proto_file list \<Rightarrow> params \<Rightarrow> seen_names \<Rightarrow> goerr option" where
  "collision_files [] p seen = None"
| "collision_files (f # fs) p seen =
     (if \<not> file_Generate f then collision_files fs p seen
      else case extractConfigInfo f p of
        Inl _ \<Rightarrow> collision_files fs p seen
      | Inr None \<Rightarrow> collision_files fs p seen
      | Inr (Some c) \<Rightarrow>
          (case fold_res (\<lambda>field. validateConfigFieldMetadata (field_path (ci_Message c) field) field)
                  (cm_Fields (ci_Message c)) seen of
             Inl e \<Rightarrow> Some e
           | Inr seen' \<Rightarrow> collision_files fs p seen'))"

definition validateConfigCollisions :: "proto_file list \<Rightarrow> params \<Rightarrow> goerr option" where
  [go_eval]: "validateConfigCollisions files p = collision_files files p (Map.empty, Map.empty)"

section \<open>Enum collisions\<close>

text \<open>The set of full names already checked is the list of them.\<close>

fun checkMessageEnums :: "proto_field list \<Rightarrow> string list \<Rightarrow> goerr + string list" where
  "checkMessageEnums [] checked = Inr checked"
| "checkMessageEnums (field # fs) checked =
     (case pf_Enum field of
        None \<Rightarrow> checkMessageEnums fs checked
      | Some en \<Rightarrow>
          if en_FullName en \<in> set checked then checkMessageEnums fs checked
          else (case enumCLIValues (en_Name en) (en_Values en) of
                  Inl err \<Rightarrow> Inl err
                | Inr _ \<Rightarrow> checkMessageEnums fs (en_FullName en # checked)))"

fun enum_files :: "proto_file list \<Rightarrow> string list \<Rightarrow> goerr + string list" where
  "enum_files [] checked = Inr checked"
| "enum_files (f # fs) checked =
     (if \<not> file_Generate f then enum_files fs checked
      else case fold_res (\<lambda>msg. checkMessageEnums (pm_Fields msg)) (file_Messages f) checked of
        Inl err \<Rightarrow> Inl err
      | Inr checked' \<Rightarrow> enum_files fs checked')"

definition validateEnumCollisions :: "proto_file list \<Rightarrow> goerr option" where
  [go_eval]: "validateEnumCollisions files = (case enum_files files [] of Inl err \<Rightarrow> Some err | Inr _ \<Rightarrow> None)"

section \<open>Lemmas\<close>

definition env_list :: "config_field_info list \<Rightarrow> string list" where
  "env_list fs = map cf_Env (filter cf_HasEnv fs)"

definition flag_list :: "config_field_info list \<Rightarrow> string list" where
  "flag_list fs = map FlagName (filter cf_Bootstrap fs)"

lemma name_lists_simps [simp]:
  "env_list [] = []" "env_list (f # fs) = (if cf_HasEnv f then cf_Env f # env_list fs else env_list fs)"
  "flag_list [] = []" "flag_list (f # fs) = (if cf_Bootstrap f then FlagName f # flag_list fs else flag_list fs)"
  by (simp_all add: env_list_def flag_list_def)

text \<open>New names are valid and neither repeated nor seen before.\<close>

definition fresh_names :: "string \<Rightarrow> string list \<Rightarrow> string set \<Rightarrow> bool" where
  "fresh_names bad names seen \<longleftrightarrow> distinct names \<and> bad \<notin> set names \<and> set names \<inter> seen = {}"

lemma fresh_names_simps [simp]:
  "fresh_names bad [] seen"
  "fresh_names bad (n # ns) seen \<longleftrightarrow> n \<noteq> bad \<and> n \<notin> seen \<and> fresh_names bad ns (insert n seen)"
  by (auto simp: fresh_names_def)

lemma fresh_names_append [simp]:
  "fresh_names bad (ms @ ns) seen \<longleftrightarrow> fresh_names bad ms seen \<and> fresh_names bad ns (seen \<union> set ms)"
  by (induction ms arbitrary: seen) simp_all

definition metadata_ok :: "config_field_info list \<Rightarrow> seen_names \<Rightarrow> bool" where
  "metadata_ok fs seen \<longleftrightarrow> fresh_names [] (env_list fs) (dom (fst seen))
     \<and> fresh_names ReservedConfigFlag (flag_list fs) (dom (snd seen))"

lemma validateConfigEnv_ok:
  "validateConfigEnv fp f seen = Inr seen' \<longleftrightarrow>
     fresh_names [] (env_list [f]) (dom seen) \<and> seen' = (if cf_HasEnv f then seen(cf_Env f \<mapsto> fp) else seen)"
  by (auto simp: validateConfigEnv_def split: option.splits)

lemma validateConfigBootstrap_ok:
  "validateConfigBootstrap fp f seen = Inr seen' \<longleftrightarrow>
     fresh_names ReservedConfigFlag (flag_list [f]) (dom seen) \<and> seen' = (if cf_Bootstrap f then seen(FlagName f \<mapsto> fp) else seen)"
  by (auto simp: validateConfigBootstrap_def Let_def split: option.splits)

lemma metadata_step:
  "validateConfigFieldMetadata fp f seen = Inr seen' \<Longrightarrow>
     metadata_ok [f] seen \<and> dom (fst seen') = dom (fst seen) \<union> set (env_list [f]) \<and> dom (snd seen') = dom (snd seen) \<union> set (flag_list [f])"
  by (auto simp: validateConfigFieldMetadata_def validateConfigEnv_ok validateConfigBootstrap_ok metadata_ok_def
      split: sum.splits if_splits)

lemma metadata_step_ok:
  assumes "metadata_ok [f] seen"
  shows "\<exists>seen'. validateConfigFieldMetadata fp f seen = Inr seen'"
proof -
  have "\<exists>e. validateConfigEnv fp f (fst seen) = Inr e"
    unfolding validateConfigEnv_ok using assms by (auto simp: metadata_ok_def)
  moreover have "\<exists>b. validateConfigBootstrap fp f (snd seen) = Inr b"
    unfolding validateConfigBootstrap_ok using assms by (auto simp: metadata_ok_def)
  ultimately show ?thesis by (auto simp: validateConfigFieldMetadata_def)
qed

lemma metadata_ok_Cons:
  assumes "validateConfigFieldMetadata fp f seen = Inr seen'"
  shows "metadata_ok (f # fs) seen \<longleftrightarrow> metadata_ok fs seen'"
  using metadata_step[OF assms] by (auto simp: metadata_ok_def)

text \<open>A loop over the fields that threads the names seen, with another check \<open>g\<close> on each field.\<close>

lemma metadata_loop:
  assumes "\<And>f s s'. F f s = Inr s' \<longleftrightarrow> validateConfigFieldMetadata (fp f) f s = Inr s' \<and> g f"
  shows "(\<exists>seen'. fold_res F fs seen = Inr seen') \<longleftrightarrow> metadata_ok fs seen \<and> (\<forall>f \<in> set fs. g f)"
    and "fold_res F fs seen = Inr seen' \<Longrightarrow>
      dom (fst seen') = dom (fst seen) \<union> set (env_list fs) \<and> dom (snd seen') = dom (snd seen) \<union> set (flag_list fs)"
proof (induction fs arbitrary: seen)
  case Nil
  { case 1 show ?case by (simp add: metadata_ok_def) }
  { case 2 then show ?case by simp }
next
  case (Cons f fs)
  { case 1
    show ?case
    proof (cases "F f seen")
      case (Inl e)
      then have "\<not> (metadata_ok [f] seen \<and> g f)" using assms[of f seen] metadata_step_ok[of f seen "fp f"] by auto
      then show ?thesis using Inl by (auto simp: metadata_ok_def)
    next
      case (Inr s')
      then show ?thesis using Cons(1)[of s'] assms[of f seen s'] metadata_ok_Cons[of "fp f" f seen s' fs] by simp
    qed }
  { case 2
    then obtain s' where s': "F f seen = Inr s'" "fold_res F fs s' = Inr seen'" by (auto split: sum.splits)
    with assms have "validateConfigFieldMetadata (fp f) f seen = Inr s'" by simp
    from metadata_step[OF this] Cons(2)[OF s'(2)] show ?case by auto }
qed

text \<open>What is checked of a single field.\<close>

definition field_ok :: "'f float_ops \<Rightarrow> config_field_info \<Rightarrow> bool" where
  "field_ok pf f \<longleftrightarrow> (isComplexConfigField f \<longrightarrow> \<not> NeedsStringParser f)
     \<and> (cf_HasDefault f \<longrightarrow> is_ok (parseConfigValueForValidation pf f (cf_Default f)))"

lemma validate_field_ok:
  "validate_field pf msg f s = Inr s' \<longleftrightarrow> validateConfigFieldMetadata (field_path msg f) f s = Inr s' \<and> field_ok pf f"
  by (auto simp: validate_field_def Let_def validateConfigFieldType_def validateComplexConfigFieldOptions_def
      validateConfigDefault_def field_ok_def NeedsStringParser_def is_ok_iff split: sum.splits if_splits)

lemma fold_ok_iff: "(case fold_res F xs s of Inl e \<Rightarrow> Some e | Inr t \<Rightarrow> None) = None \<longleftrightarrow> (\<exists>t. fold_res F xs s = Inr t)"
  by (auto split: sum.splits)

lemma validateConfigInfo_ok:
  assumes "shouldValidateConfig (Some c) p"
  shows "validateConfigInfo pf (Some c) p = None \<longleftrightarrow>
    metadata_ok (cm_Fields (ci_Message c)) (Map.empty, Map.empty) \<and> (\<forall>f \<in> set (cm_Fields (ci_Message c)). field_ok pf f)"
  using assms metadata_loop(1)[where F = "validate_field pf (ci_Message c)" and fp = "field_path (ci_Message c)"
      and g = "field_ok pf" and fs = "cm_Fields (ci_Message c)" and seen = "(Map.empty, Map.empty)"]
  by (simp add: validateConfigInfo_def fold_ok_iff validate_field_ok)

text \<open>The configurations of a generation request.\<close>

fun request_configs :: "proto_file list \<Rightarrow> params \<Rightarrow> config_info list" where
  "request_configs [] p = []"
| "request_configs (f # fs) p =
     (if file_Generate f then (case extractConfigInfo f p of Inr (Some c) \<Rightarrow> [c] | _ \<Rightarrow> []) else []) @ request_configs fs p"

definition all_fields :: "config_info list \<Rightarrow> config_field_info list" where
  "all_fields cs = concat (map (\<lambda>c. cm_Fields (ci_Message c)) cs)"

lemma env_list_append [simp]: "env_list (fs @ gs) = env_list fs @ env_list gs"
  by (simp add: env_list_def)

lemma flag_list_append [simp]: "flag_list (fs @ gs) = flag_list fs @ flag_list gs"
  by (simp add: flag_list_def)

lemma collision_files_ok: "collision_files files p seen = None \<longleftrightarrow> metadata_ok (all_fields (request_configs files p)) seen"
proof (induction files p seen rule: collision_files.induct)
  case (2 f fs p seen)
  show ?case
  proof (cases "\<exists>c. file_Generate f \<and> extractConfigInfo f p = Inr (Some c)")
    case True
    then obtain c where c: "file_Generate f" "extractConfigInfo f p = Inr (Some c)" by blast
    let ?fs = "cm_Fields (ci_Message c)"
    let ?F = "\<lambda>field. validateConfigFieldMetadata (field_path (ci_Message c) field) field"
    note L = metadata_loop[where F = ?F and fp = "field_path (ci_Message c)" and g = "\<lambda>_. True" and fs = ?fs and seen = seen, simplified]
    have req: "all_fields (request_configs (f # fs) p) = ?fs @ all_fields (request_configs fs p)"
      using c by (simp add: all_fields_def)
    show ?thesis
    proof (cases "fold_res ?F ?fs seen")
      case (Inl e)
      then have "\<not> metadata_ok ?fs seen" using L(1) by simp
      then show ?thesis unfolding req using Inl c by (auto simp: metadata_ok_def)
    next
      case (Inr s')
      then have "metadata_ok ?fs seen" using L(1) by auto
      then have "metadata_ok (?fs @ all_fields (request_configs fs p)) seen \<longleftrightarrow> metadata_ok (all_fields (request_configs fs p)) s'"
        using L(2)[OF Inr] by (auto simp: metadata_ok_def)
      then show ?thesis unfolding req using 2(4)[OF _ c(2) refl Inr] c Inr by simp
    qed
  next
    case False
    then show ?thesis using 2(1-3) by (cases "file_Generate f"; cases "extractConfigInfo f p")
        (auto split: option.splits)
  qed
qed (simp add: all_fields_def metadata_ok_def)

text \<open>What the enum check establishes: every enum whose name was recorded is free of collisions.\<close>

definition enum_ok :: "enum_desc \<Rightarrow> bool" where
  "enum_ok en \<longleftrightarrow> is_ok (enumCLIValues (en_Name en) (en_Values en))"

definition field_enums :: "proto_field list \<Rightarrow> enum_desc set" where
  "field_enums fs = set (List.map_filter pf_Enum fs)"

lemma field_enums_simps [simp]:
  "field_enums [] = {}"
  "field_enums (f # fs) = (case pf_Enum f of None \<Rightarrow> field_enums fs | Some en \<Rightarrow> insert en (field_enums fs))"
  by (simp_all add: field_enums_def map_filter_simps split: option.splits)

definition message_enums :: "proto_message list \<Rightarrow> enum_desc set" where
  "message_enums msgs = (\<Union>m \<in> set msgs. field_enums (pm_Fields m))"

definition request_enums :: "proto_file list \<Rightarrow> enum_desc set" where
  "request_enums files = (\<Union>f \<in> {f \<in> set files. file_Generate f}. message_enums (file_Messages f))"

lemma message_enums_simps [simp]:
  "message_enums [] = {}" "message_enums (m # ms) = field_enums (pm_Fields m) \<union> message_enums ms"
  by (simp_all add: message_enums_def)

lemma request_enums_simps [simp]:
  "request_enums [] = {}"
  "request_enums (f # fs) = (if file_Generate f then message_enums (file_Messages f) \<union> request_enums fs else request_enums fs)"
  by (auto simp: request_enums_def)

text \<open>The enums of a set whose full name was recorded are free of collisions.\<close>

definition checked_ok :: "enum_desc set \<Rightarrow> string list \<Rightarrow> bool" where
  "checked_ok E checked \<longleftrightarrow> (\<forall>en \<in> E. en_FullName en \<in> set checked \<longrightarrow> enum_ok en)"

lemma checked_ok_insert:
  assumes "inj_on en_FullName E" "en \<in> E" "enum_ok en" "checked_ok E checked"
  shows "checked_ok E (en_FullName en # checked)"
  using assms by (auto simp: checked_ok_def dest: inj_onD)

definition check_result :: "enum_desc set \<Rightarrow> enum_desc set \<Rightarrow> string list \<Rightarrow> string list \<Rightarrow> bool" where
  "check_result E D checked checked' \<longleftrightarrow> checked_ok E checked' \<and> set checked \<union> en_FullName ` D \<subseteq> set checked'"

lemma check_result_trans:
  "check_result E C a b \<Longrightarrow> check_result E D b c \<Longrightarrow> check_result E (C \<union> D) a c"
  unfolding check_result_def by (auto simp: image_Un)

lemma check_result_checked: "check_result E D a b \<Longrightarrow> checked_ok E b"
  by (simp add: check_result_def)

lemma checkMessageEnums_ok:
  assumes "inj_on en_FullName E"
  shows "checkMessageEnums fs checked = Inr checked' \<Longrightarrow> checked_ok E checked \<Longrightarrow> field_enums fs \<subseteq> E \<Longrightarrow>
    check_result E (field_enums fs) checked checked'"
proof (induction fs checked rule: checkMessageEnums.induct)
  case (2 f fs checked)
  show ?case
  proof (cases "pf_Enum f")
    case (Some en)
    show ?thesis
    proof (cases "en_FullName en \<in> set checked")
      case True
      then show ?thesis using 2(2)[OF Some True] 2(4-6) Some by (auto simp: check_result_def)
    next
      case False
      then obtain ms where ms: "enumCLIValues (en_Name en) (en_Values en) = Inr ms" using 2(4) Some by (auto split: sum.splits)
      then have "checked_ok E (en_FullName en # checked)"
        using checked_ok_insert[OF assms _ _ 2(5)] 2(6) Some by (simp add: enum_ok_def)
      then show ?thesis using 2(3)[OF Some False ms] 2(4,6) Some False ms by (auto simp: check_result_def)
    qed
  qed (use 2 in simp)
qed (simp add: check_result_def)

lemma check_messages_ok:
  assumes "inj_on en_FullName E"
  shows "fold_res (\<lambda>msg. checkMessageEnums (pm_Fields msg)) msgs checked = Inr checked' \<Longrightarrow> checked_ok E checked \<Longrightarrow>
    message_enums msgs \<subseteq> E \<Longrightarrow> check_result E (message_enums msgs) checked checked'"
proof (induction msgs arbitrary: checked)
  case (Cons m msgs)
  then obtain c where c: "checkMessageEnums (pm_Fields m) checked = Inr c"
      "fold_res (\<lambda>msg. checkMessageEnums (pm_Fields msg)) msgs c = Inr checked'" by (auto split: sum.splits)
  have "check_result E (field_enums (pm_Fields m)) checked c"
    using Cons.prems by (intro checkMessageEnums_ok[OF assms c(1)]) simp_all
  moreover from this have "check_result E (message_enums msgs) c checked'"
    using Cons.prems(3) by (intro Cons.IH[OF c(2)]) (simp_all add: check_result_checked)
  ultimately show ?case by (auto intro: check_result_trans)
qed (simp add: check_result_def)

lemma enum_files_ok:
  assumes "inj_on en_FullName E"
  shows "enum_files files checked = Inr checked' \<Longrightarrow> checked_ok E checked \<Longrightarrow> request_enums files \<subseteq> E \<Longrightarrow>
    check_result E (request_enums files) checked checked'"
proof (induction files arbitrary: checked)
  case (Cons f files)
  show ?case
  proof (cases "file_Generate f")
    case True
    then obtain c where c: "fold_res (\<lambda>msg. checkMessageEnums (pm_Fields msg)) (file_Messages f) checked = Inr c"
        "enum_files files c = Inr checked'" using Cons.prems(1) by (auto split: sum.splits)
    have "check_result E (message_enums (file_Messages f)) checked c"
      using Cons.prems True by (intro check_messages_ok[OF assms c(1)]) simp_all
    moreover from this have "check_result E (request_enums files) c checked'"
      using Cons.prems(3) True by (intro Cons.IH[OF c(2)]) (simp_all add: check_result_checked)
    ultimately show ?thesis using True by (auto intro: check_result_trans)
  qed (use Cons in simp)
qed (simp add: check_result_def)

lemma validateEnumCollisions_ok:
  assumes "validateEnumCollisions files = None" and "inj_on en_FullName (request_enums files)" and "en \<in> request_enums files"
  shows "enum_ok en"
proof -
  obtain checked where "enum_files files [] = Inr checked"
    using assms(1) by (auto simp: validateEnumCollisions_def split: sum.splits)
  from enum_files_ok[OF assms(2) this] assms(3) show ?thesis
    by (auto simp: check_result_def checked_ok_def)
qed

text \<open>Where the enum of a configuration field comes from.\<close>

lemma config_fields_origin: "cf \<in> set (config_fields fs) \<Longrightarrow> \<exists>f \<in> set fs. \<exists>opt. cf = extractConfigFieldInfo f opt"
  by (induction fs) (auto split: option.splits)

lemma candidates_origin: "m \<in> set (collectConfigCandidates msgs) \<Longrightarrow> \<exists>msg \<in> set msgs. cm_Fields m = config_fields (pm_Fields msg)"
  by (induction msgs) (auto simp: extractConfigMessageInfo_def Let_def split: option.splits if_splits)

lemma extracted_message: "extractConfigInfo f p = Inr (Some c) \<Longrightarrow> ci_Message c \<in> set (collectConfigCandidates (file_Messages f))"
  by (auto simp: extractConfigInfo_def split: if_splits list.splits)

lemma extracted_enum:
  assumes "f \<in> set files" "file_Generate f" "extractConfigInfo f p = Inr (Some c)" "cf \<in> set (cm_Fields (ci_Message c))"
  shows "\<exists>msg field opt. msg \<in> set (file_Messages f) \<and> field \<in> set (pm_Fields msg) \<and> cf = extractConfigFieldInfo field opt
    \<and> (\<forall>en. pf_Enum field = Some en \<longrightarrow> en \<in> request_enums files)"
proof -
  obtain msg where msg: "msg \<in> set (file_Messages f)" "cm_Fields (ci_Message c) = config_fields (pm_Fields msg)"
    using candidates_origin[OF extracted_message[OF assms(3)]] by blast
  obtain field opt where fld: "field \<in> set (pm_Fields msg)" "cf = extractConfigFieldInfo field opt"
    using config_fields_origin assms(4) msg(2) by metis
  have "en \<in> request_enums files" if "pf_Enum field = Some en" for en
  proof -
    have "en \<in> field_enums (pm_Fields msg)" using fld(1) that
      by (auto simp: field_enums_def List.map_filter_def intro!: image_eqI[of _ _ field])
    then show ?thesis using msg(1) assms(1,2) by (auto simp: request_enums_def message_enums_def)
  qed
  with fld msg(1) show ?thesis by blast
qed

section \<open>Properties\<close>

text \<open>
  The validation of a configuration is exact: it passes exactly when environment names are non-empty and
  all different, bootstrap flags are all different and none is reserved, no list, map or message has a source
  other than the file, and every default text parses.
\<close>

theorem validateConfigInfo_exact:
  assumes "shouldValidateConfig (Some c) p"
  shows "validateConfigInfo pf (Some c) p = None \<longleftrightarrow>
    (let fs = cm_Fields (ci_Message c) in
       distinct (env_list fs) \<and> [] \<notin> set (env_list fs) \<and> distinct (flag_list fs) \<and> ReservedConfigFlag \<notin> set (flag_list fs)
       \<and> (\<forall>f \<in> set fs. isComplexConfigField f \<longrightarrow> \<not> NeedsStringParser f)
       \<and> (\<forall>f \<in> set fs. cf_HasDefault f \<longrightarrow> is_ok (parseConfigValueForValidation pf f (cf_Default f))))"
  unfolding validateConfigInfo_ok[OF assms] metadata_ok_def fresh_names_def field_ok_def Let_def by auto

text \<open>
  The collision check of a request is exact: over all configurations it generates, environment names are
  non-empty and all different and bootstrap flags are all different and not reserved.
\<close>

theorem validateConfigCollisions_exact:
  "validateConfigCollisions files p = None \<longleftrightarrow>
    (let fs = all_fields (request_configs files p) in
       distinct (env_list fs) \<and> [] \<notin> set (env_list fs) \<and> distinct (flag_list fs) \<and> ReservedConfigFlag \<notin> set (flag_list fs))"
  unfolding validateConfigCollisions_def collision_files_ok metadata_ok_def fresh_names_def Let_def by auto

section \<open>Witnesses\<close>

definition config_field :: "string \<Rightarrow> kind \<Rightarrow> proto_field" where
  [go_eval]: "config_field name k =
     \<lparr>pf_Name = name, pf_JSONName = name, pf_GoName = name, pf_Kind = k, pf_IsList = False, pf_IsMap = False, pf_Enum = None,
      pf_Message = None, pf_MapKey = StringKind, pf_MapValue = StringKind, pf_Description = None, pf_Config = None\<rparr>"

definition host_field :: proto_field where
  [go_eval]: "host_field = (config_field ''host'' StringKind)\<lparr>pf_Config := Some
     \<lparr>opt_Env = Some ''HOST'', opt_Default = Some ''localhost'', opt_Required = True, opt_Secret = False, opt_Bootstrap = True\<rparr>\<rparr>"

definition level_enum :: enum_desc where
  [go_eval]: "level_enum = \<lparr>en_Name = ''LogLevel'', en_FullName = ''p.LogLevel'', en_GoName = ''LogLevel'', en_Values = level_values\<rparr>"

definition level_field :: proto_field where
  [go_eval]: "level_field = (config_field ''log_level'' EnumKind)\<lparr>pf_Enum := Some level_enum, pf_Config := Some
     \<lparr>opt_Env = Some ''LEVEL'', opt_Default = None, opt_Required = False, opt_Secret = True, opt_Bootstrap = False\<rparr>\<rparr>"

definition config_file :: proto_file where
  [go_eval]: "config_file = \<lparr>file_Path = ''p/config.proto'', file_Generate = True,
     file_Messages = [\<lparr>pm_GoName = ''Cfg'', pm_Fields = [host_field, level_field, config_field ''note'' StringKind]\<rparr>]\<rparr>"

definition default_params :: params where
  [go_eval]: "default_params = \<lparr>ConfigProto = []\<rparr>"

definition example_message :: config_message_info where
  [go_eval]: "example_message = \<lparr>cm_GoName = ''Cfg'', cm_Fields = config_fields [host_field, level_field]\<rparr>"

definition example_config :: config_info where
  [go_eval]: "example_config = \<lparr>ci_FilePath = ''p/config.proto'', ci_Message = example_message\<rparr>"

definition no_floats :: "unit float_ops" where
  [go_eval]: "no_floats = \<lparr>fl_zero = (), fl_parse = (\<lambda>raw bits. Inr ()), fl_exceeds32 = (\<lambda>v. False), fl_to32 = id, fl_format = (\<lambda>v bits. ''0'')\<rparr>"

lemma example_extracted: "extractConfigInfo config_file default_params = Inr (Some example_config)"
  by code_simp

lemma example_should: "shouldValidateConfig (Some example_config) default_params"
  by code_simp

lemma example_valid: "validateConfigInfo no_floats (Some example_config) default_params = None"
  by code_simp

theorem validateConfigInfo_exact_witness:
  "distinct (env_list (cm_Fields example_message)) \<and> distinct (flag_list (cm_Fields example_message))"
  using validateConfigInfo_exact[OF example_should, of no_floats] example_valid by (simp add: Let_def example_config_def)

end
