(* ===== verification/CodegenFlags.thy ===== *)
theory CodegenFlags imports CodegenConfig CliTree begin

text \<open>
  The flags of a generated command, from \<open>internal/codegen/cli.go\<close>. The emitters print a variable for each
  field of the request and its registration with a flag set; here they return both as data. The second part
  says what such a registration does: which Go type its variable must have, and how a text sets it.
\<close>

section \<open>Fields\<close>

text \<open>The enum of a field: protogen sets the pointer for every field of an enum kind.\<close>

definition field_enum :: "proto_field \<Rightarrow> enum_desc" where
  [go_eval]: "field_enum field =
     (case pf_Enum field of Some en \<Rightarrow> en | None \<Rightarrow> \<lparr>en_Name = [], en_FullName = [], en_GoName = [], en_Values = []\<rparr>)"

definition getFieldDescription :: "proto_field \<Rightarrow> string" where
  [go_eval]: "getFieldDescription field = (case pf_Description field of None \<Rightarrow> [] | Some desc \<Rightarrow> desc)"

definition enumCLIValuesForSchema :: "enum_desc \<Rightarrow> string list" where
  [go_eval]: "enumCLIValuesForSchema enumType =
     (case enumCLIValues (en_Name enumType) (en_Values enumType) of Inl _ \<Rightarrow> [] | Inr mappings \<Rightarrow> map CLIValue mappings)"

definition isJSONStringFlag :: "proto_field \<Rightarrow> bool" where
  [go_eval]: "isJSONStringFlag field =
     (let k = pf_Kind field in
      if pf_IsMap field then True
      else if \<not> pf_IsList field \<and> (k = MessageKind \<or> k = GroupKind) then True
      else if pf_IsList field \<and> (k = MessageKind \<or> k = BytesKind \<or> k = GroupKind) then True
      else False)"

definition isPostAssignField :: "proto_field \<Rightarrow> bool" where
  [go_eval]: "isPostAssignField field =
     (if isJSONStringFlag field then True else \<not> pf_IsList field \<and> pf_Kind field = BytesKind)"

definition fieldUsage :: "proto_field \<Rightarrow> string" where
  [go_eval]: "fieldUsage field =
     (let desc = getFieldDescription field;
          parts1 = (if desc \<noteq> [] then [desc] else []);
          vals = enumCLIValuesForSchema (field_enum field);
          parts2 = (if pf_Kind field = EnumKind \<and> length vals > 0
                    then parts1 @ [''(values: '' @ join vals '', '' @ '')''] else parts1);
          parts3 = (if isJSONStringFlag field then parts2 @ [''(JSON)''] else parts2);
          parts4 = (if \<not> pf_IsList field \<and> pf_Kind field = BytesKind then parts3 @ [''(base64)''] else parts3)
      in join parts4 '' '')"

record field_type_info =
  goType :: string
  stdFlagFunc :: string
  constructor :: string
  defaultVal :: string

text \<open>A Go literal for the empty string.\<close>

definition empty_literal :: string where
  [go_eval]: "empty_literal = [CHR 0x22, CHR 0x22]"

definition std_type :: "string \<Rightarrow> string \<Rightarrow> string \<Rightarrow> field_type_info" where
  [go_eval]: "std_type ty func dflt = \<lparr>goType = ty, stdFlagFunc = func, constructor = [], defaultVal = dflt\<rparr>"

definition cli_type :: "string \<Rightarrow> string \<Rightarrow> field_type_info" where
  [go_eval]: "cli_type ty con = \<lparr>goType = ty, stdFlagFunc = [], constructor = con, defaultVal = []\<rparr>"

definition resolveFieldType :: "proto_field \<Rightarrow> field_type_info option" where
  [go_eval]: "resolveFieldType field =
     (case pf_Kind field of
        StringKind \<Rightarrow> Some (std_type ''string'' ''StringVar'' empty_literal)
      | BoolKind \<Rightarrow> Some (std_type ''bool'' ''BoolVar'' ''false'')
      | Int32Kind \<Rightarrow> Some (cli_type ''int32'' ''NewInt32Value'')
      | Sint32Kind \<Rightarrow> Some (cli_type ''int32'' ''NewInt32Value'')
      | Sfixed32Kind \<Rightarrow> Some (cli_type ''int32'' ''NewInt32Value'')
      | Int64Kind \<Rightarrow> Some (cli_type ''int64'' ''NewInt64Value'')
      | Sint64Kind \<Rightarrow> Some (cli_type ''int64'' ''NewInt64Value'')
      | Sfixed64Kind \<Rightarrow> Some (cli_type ''int64'' ''NewInt64Value'')
      | Uint32Kind \<Rightarrow> Some (cli_type ''uint32'' ''NewUint32Value'')
      | Fixed32Kind \<Rightarrow> Some (cli_type ''uint32'' ''NewUint32Value'')
      | Uint64Kind \<Rightarrow> Some (cli_type ''uint64'' ''NewUint64Value'')
      | Fixed64Kind \<Rightarrow> Some (cli_type ''uint64'' ''NewUint64Value'')
      | FloatKind \<Rightarrow> Some (cli_type ''float32'' ''NewFloat32Value'')
      | DoubleKind \<Rightarrow> Some (std_type ''float64'' ''Float64Var'' ''0'')
      | BytesKind \<Rightarrow> Some (std_type ''string'' ''StringVar'' empty_literal)
      | MessageKind \<Rightarrow> Some (std_type ''string'' ''StringVar'' empty_literal)
      | GroupKind \<Rightarrow> Some (std_type ''string'' ''StringVar'' empty_literal)
      | EnumKind \<Rightarrow> None)"

definition resolveRepeatedFieldType :: "proto_field \<Rightarrow> (string \<times> string) option" where
  [go_eval]: "resolveRepeatedFieldType field =
     (case pf_Kind field of
        BoolKind \<Rightarrow> Some (''[]bool'', ''NewBoolSliceValue'')
      | Int32Kind \<Rightarrow> Some (''[]int32'', ''NewInt32SliceValue'')
      | Sint32Kind \<Rightarrow> Some (''[]int32'', ''NewInt32SliceValue'')
      | Sfixed32Kind \<Rightarrow> Some (''[]int32'', ''NewInt32SliceValue'')
      | Int64Kind \<Rightarrow> Some (''[]int64'', ''NewInt64SliceValue'')
      | Sint64Kind \<Rightarrow> Some (''[]int64'', ''NewInt64SliceValue'')
      | Sfixed64Kind \<Rightarrow> Some (''[]int64'', ''NewInt64SliceValue'')
      | Uint32Kind \<Rightarrow> Some (''[]uint32'', ''NewUint32SliceValue'')
      | Fixed32Kind \<Rightarrow> Some (''[]uint32'', ''NewUint32SliceValue'')
      | Uint64Kind \<Rightarrow> Some (''[]uint64'', ''NewUint64SliceValue'')
      | Fixed64Kind \<Rightarrow> Some (''[]uint64'', ''NewUint64SliceValue'')
      | FloatKind \<Rightarrow> Some (''[]float32'', ''NewFloat32SliceValue'')
      | DoubleKind \<Rightarrow> Some (''[]float64'', ''NewFloat64SliceValue'')
      | _ \<Rightarrow> None)"

section \<open>Emitted variables and registrations\<close>

text \<open>
  A registration prints a call of a standard function (name, variable, flag, default literal, usage), a call
  \<open>fs.Var\<close> of a constructor of package \<open>cli\<close>, or one of an enum constructor with its mappings and type
  name. The variable is \<open>None\<close> where the flag set is for help only: the standard function then returns a
  pointer of its own, a constructor is given nil.
\<close>

datatype flag_reg =
    StdFlag string "string option" (reg_name: string) string (reg_usage: string)
  | VarFlag string "string option" (reg_name: string) (reg_usage: string)
  | EnumFlag string "string option" "cli_enum_mapping list" string (reg_name: string) (reg_usage: string)

type_synonym var_decl = "string \<times> string"

definition emitEnumMappingEntries :: "enum_desc \<Rightarrow> cli_enum_mapping list" where
  [go_eval]: "emitEnumMappingEntries enumType =
     (case enumCLIValues (en_Name enumType) (en_Values enumType) of Inl _ \<Rightarrow> [] | Inr mappings \<Rightarrow> mappings)"

definition emitFsVar :: "string \<Rightarrow> string \<Rightarrow> string \<Rightarrow> string \<Rightarrow> flag_reg" where
  [go_eval]: "emitFsVar con varName flagName usage = VarFlag con (Some varName) flagName usage"

definition emitFlagReg :: "field_type_info \<Rightarrow> string \<Rightarrow> string \<Rightarrow> string \<Rightarrow> flag_reg" where
  [go_eval]: "emitFlagReg ti varName flagName usage =
     (if stdFlagFunc ti \<noteq> [] then StdFlag (stdFlagFunc ti) (Some varName) flagName (defaultVal ti) usage
      else emitFsVar (constructor ti) varName flagName usage)"

definition emitEnumFlagVar :: "proto_field \<Rightarrow> string \<Rightarrow> var_decl \<times> flag_reg" where
  [go_eval]: "emitEnumFlagVar field usage =
     (let varName = ''flag_'' @ pf_Name field in
      ((varName, ''int32''),
       EnumFlag ''NewEnumValue'' (Some varName) (emitEnumMappingEntries (field_enum field)) (en_Name (field_enum field))
         (fieldToFlagName (pf_Name field)) usage))"

definition emitEnumSliceFlagVar :: "proto_field \<Rightarrow> string \<Rightarrow> var_decl \<times> flag_reg" where
  [go_eval]: "emitEnumSliceFlagVar field usage =
     (let varName = ''flag_'' @ pf_Name field in
      ((varName, ''[]int32''),
       EnumFlag ''NewEnumSliceValue'' (Some varName) (emitEnumMappingEntries (field_enum field)) (en_Name (field_enum field))
         (fieldToFlagName (pf_Name field)) usage))"

definition json_flag_kind :: "kind \<Rightarrow> bool" where
  [go_eval]: "json_flag_kind k \<longleftrightarrow> k = MessageKind \<or> k = BytesKind \<or> k = GroupKind"

definition emitFlagVar :: "proto_field \<Rightarrow> (var_decl \<times> flag_reg) option" where
  [go_eval]: "emitFlagVar field =
     (let usage = fieldUsage field; name = fieldToFlagName (pf_Name field); varName = ''flag_'' @ pf_Name field;
          json = ((varName, ''string''), StdFlag ''StringVar'' (Some varName) name empty_literal usage) in
      if pf_IsMap field then Some json
      else if pf_IsList field then
        (if json_flag_kind (pf_Kind field) then Some json
         else if pf_Kind field = EnumKind then Some (emitEnumSliceFlagVar field usage)
         else if pf_Kind field = StringKind
         then Some ((varName, ''[]string''), emitFsVar ''NewStringSliceValue'' varName name usage)
         else case resolveRepeatedFieldType field of
           None \<Rightarrow> None
         | Some (ty, con) \<Rightarrow> Some ((varName, ty), emitFsVar con varName name usage))
      else if pf_Kind field = EnumKind then Some (emitEnumFlagVar field usage)
      else case resolveFieldType field of
        None \<Rightarrow> None
      | Some ti \<Rightarrow> Some ((varName, goType ti), emitFlagReg ti varName name usage))"

section \<open>Registrations for help\<close>

definition emitHelpEnumFlagReg :: "proto_field \<Rightarrow> string \<Rightarrow> string \<Rightarrow> flag_reg" where
  [go_eval]: "emitHelpEnumFlagReg field name usage =
     EnumFlag ''NewEnumValue'' None (emitEnumMappingEntries (field_enum field)) (en_Name (field_enum field)) name usage"

definition emitHelpRepeatedFlagReg :: "proto_field \<Rightarrow> string \<Rightarrow> string \<Rightarrow> flag_reg option" where
  [go_eval]: "emitHelpRepeatedFlagReg field name usage =
     (if json_flag_kind (pf_Kind field) then Some (StdFlag ''String'' None name empty_literal usage)
      else if pf_Kind field = EnumKind
      then Some (EnumFlag ''NewEnumSliceValue'' None (emitEnumMappingEntries (field_enum field)) (en_Name (field_enum field)) name usage)
      else if pf_Kind field = StringKind then Some (VarFlag ''NewStringSliceValue'' None name usage)
      else case resolveRepeatedFieldType field of
        None \<Rightarrow> None
      | Some (ty, con) \<Rightarrow> Some (VarFlag con None name usage))"

definition emitHelpFlagReg :: "proto_field \<Rightarrow> flag_reg option" where
  [go_eval]: "emitHelpFlagReg field =
     (let usage = fieldUsage field; name = fieldToFlagName (pf_Name field) in
      if pf_IsMap field then Some (StdFlag ''String'' None name empty_literal usage)
      else if pf_IsList field then emitHelpRepeatedFlagReg field name usage
      else if pf_Kind field = EnumKind then Some (emitHelpEnumFlagReg field name usage)
      else case resolveFieldType field of
        None \<Rightarrow> None
      | Some ti \<Rightarrow>
          if stdFlagFunc ti \<noteq> [] then Some (StdFlag (trim_suffix (stdFlagFunc ti) ''Var'') None name (defaultVal ti) usage)
          else Some (VarFlag (constructor ti) None name usage))"

section \<open>Fields bound by a group\<close>

record bind_into_ctx =
  bc_fieldName :: string
  bc_goFieldName :: string
  bc_msg :: proto_message
  bc_varPrefix :: string

fun findBindCtx :: "bind_into_ctx list \<Rightarrow> string \<Rightarrow> bind_into_ctx option" where
  "findBindCtx [] fieldName = None"
| "findBindCtx (bc # ctxs) fieldName = (if bc_fieldName bc = fieldName then Some bc else findBindCtx ctxs fieldName)"

definition emitVarDecl :: "proto_field \<Rightarrow> string \<Rightarrow> var_decl option" where
  [go_eval]: "emitVarDecl field varName =
     (if pf_IsMap field then Some (varName, ''string'')
      else if pf_IsList field then
        (if json_flag_kind (pf_Kind field) then Some (varName, ''string'')
         else if pf_Kind field = EnumKind then Some (varName, ''[]int32'')
         else if pf_Kind field = StringKind then Some (varName, ''[]string'')
         else map_option (\<lambda>(ty, con). (varName, ty)) (resolveRepeatedFieldType field))
      else if pf_Kind field = EnumKind then Some (varName, ''int32'')
      else map_option (\<lambda>ti. (varName, goType ti)) (resolveFieldType field))"

definition emitEnumFlagReg :: "proto_field \<Rightarrow> string \<Rightarrow> string \<Rightarrow> string \<Rightarrow> flag_reg" where
  [go_eval]: "emitEnumFlagReg field varName flagName usage =
     EnumFlag ''NewEnumValue'' (Some varName) (emitEnumMappingEntries (field_enum field)) (en_Name (field_enum field)) flagName usage"

definition emitBindIntoFlagReg :: "proto_field \<Rightarrow> string \<Rightarrow> string \<Rightarrow> flag_reg option" where
  [go_eval]: "emitBindIntoFlagReg field varName flagName =
     (let usage = fieldUsage field in
      if pf_IsMap field then Some (StdFlag ''StringVar'' (Some varName) flagName empty_literal usage)
      else if pf_IsList field then
        (if json_flag_kind (pf_Kind field) then Some (StdFlag ''StringVar'' (Some varName) flagName empty_literal usage)
         else if pf_Kind field = EnumKind
         then Some (EnumFlag ''NewEnumSliceValue'' (Some varName) (emitEnumMappingEntries (field_enum field))
                      (en_Name (field_enum field)) flagName usage)
         else if pf_Kind field = StringKind then Some (emitFsVar ''NewStringSliceValue'' varName flagName usage)
         else map_option (\<lambda>(ty, con). emitFsVar con varName flagName usage) (resolveRepeatedFieldType field))
      else if pf_Kind field = EnumKind then Some (emitEnumFlagReg field varName flagName usage)
      else map_option (\<lambda>ti. emitFlagReg ti varName flagName usage) (resolveFieldType field))"

definition bind_var :: "bind_into_ctx \<Rightarrow> proto_field \<Rightarrow> string" where
  [go_eval]: "bind_var bc field = bc_varPrefix bc @ ''_'' @ pf_Name field"

definition emitBindIntoVars :: "bind_into_ctx \<Rightarrow> var_decl list" where
  [go_eval]: "emitBindIntoVars bc = List.map_filter (\<lambda>field. emitVarDecl field (bind_var bc field)) (pm_Fields (bc_msg bc))"

definition emitBindIntoFlagRegistration :: "bind_into_ctx \<Rightarrow> flag_reg list" where
  [go_eval]: "emitBindIntoFlagRegistration bc =
     List.map_filter (\<lambda>field. emitBindIntoFlagReg field (bind_var bc field) (fieldToFlagName (pf_Name field))) (pm_Fields (bc_msg bc))"

text \<open>The fields of a request that have a flag of the command itself.\<close>

definition own_fields :: "proto_message \<Rightarrow> bind_into_ctx list \<Rightarrow> proto_field list" where
  [go_eval]: "own_fields msg bindCtxs = filter (\<lambda>field. findBindCtx bindCtxs (pf_Name field) = None) (pm_Fields msg)"

definition emitFlagVars :: "proto_message \<Rightarrow> bind_into_ctx list \<Rightarrow> (var_decl \<times> flag_reg) list" where
  [go_eval]: "emitFlagVars msg bindCtxs = List.map_filter emitFlagVar (own_fields msg bindCtxs)"

definition emitHelpFlags :: "proto_message \<Rightarrow> bind_into_ctx list \<Rightarrow> flag_reg list" where
  [go_eval]: "emitHelpFlags msg bindCtxs = List.map_filter emitHelpFlagReg (own_fields msg bindCtxs)"

section \<open>What a registration does\<close>

datatype 'f flag_val =
    FString string | FBool bool | FInt32 int32 | FInt64 int64 | FUint32 uint32 | FUint64 uint64 | FFloat32 'f | FFloat64 'f
  | FStrings "string list" | FBools "bool list" | FInt32s "int32 list" | FInt64s "int64 list"
  | FUint32s "uint32 list" | FUint64s "uint64 list" | FFloat32s "'f list" | FFloat64s "'f list"

fun type_of :: "'f flag_val \<Rightarrow> string" where
  "type_of (FString _) = ''string''" | "type_of (FStrings _) = ''[]string''"
| "type_of (FBool _) = ''bool''" | "type_of (FBools _) = ''[]bool''"
| "type_of (FInt32 _) = ''int32''" | "type_of (FInt32s _) = ''[]int32''"
| "type_of (FInt64 _) = ''int64''" | "type_of (FInt64s _) = ''[]int64''"
| "type_of (FUint32 _) = ''uint32''" | "type_of (FUint32s _) = ''[]uint32''"
| "type_of (FUint64 _) = ''uint64''" | "type_of (FUint64s _) = ''[]uint64''"
| "type_of (FFloat32 _) = ''float32''" | "type_of (FFloat32s _) = ''[]float32''"
| "type_of (FFloat64 _) = ''float64''" | "type_of (FFloat64s _) = ''[]float64''"

definition zero_values :: "'f float_ops \<Rightarrow> 'f flag_val list" where
  [go_eval]: "zero_values fl =
     [FString [], FBool False, FInt32 0, FInt64 0, FUint32 0, FUint64 0, FFloat32 (fl_zero fl), FFloat64 (fl_zero fl),
      FStrings [], FBools [], FInt32s [], FInt64s [], FUint32s [], FUint64s [], FFloat32s [], FFloat64s []]"

text \<open>The zero value of a Go type, by the type's name.\<close>

definition zero_of :: "'f float_ops \<Rightarrow> string \<Rightarrow> 'f flag_val option" where
  [go_eval]: "zero_of fl ty = map_of (map (\<lambda>v. (type_of v, v)) (zero_values fl)) ty"

text \<open>The type whose pointer a function or constructor takes.\<close>

definition pointee :: "(string \<times> string) list" where
  [go_eval]: "pointee =
     [(''StringVar'', ''string''), (''BoolVar'', ''bool''), (''Float64Var'', ''float64''),
      (''String'', ''string''), (''Bool'', ''bool''), (''Float64'', ''float64''),
      (''NewInt32Value'', ''int32''), (''NewInt64Value'', ''int64''), (''NewUint32Value'', ''uint32''),
      (''NewUint64Value'', ''uint64''), (''NewFloat32Value'', ''float32''), (''NewEnumValue'', ''int32''),
      (''NewStringSliceValue'', ''[]string''), (''NewBoolSliceValue'', ''[]bool''), (''NewInt32SliceValue'', ''[]int32''),
      (''NewInt64SliceValue'', ''[]int64''), (''NewUint32SliceValue'', ''[]uint32''), (''NewUint64SliceValue'', ''[]uint64''),
      (''NewFloat32SliceValue'', ''[]float32''), (''NewFloat64SliceValue'', ''[]float64''), (''NewEnumSliceValue'', ''[]int32'')]"

fun reg_call :: "flag_reg \<Rightarrow> string" where
  "reg_call (StdFlag f x n d u) = f" | "reg_call (VarFlag c x n u) = c" | "reg_call (EnumFlag c x ms t n u) = c"

fun reg_var :: "flag_reg \<Rightarrow> string option" where
  "reg_var (StdFlag f x n d u) = x" | "reg_var (VarFlag c x n u) = x" | "reg_var (EnumFlag c x ms t n u) = x"

text \<open>
  Setting through the values of package \<open>flag\<close>, and through those of package \<open>cli\<close>. A failed number
  leaves its variable alone here; the run then ends.
\<close>

definition std_error :: "num_error \<Rightarrow> goerr" where
  [go_std]: "std_error e = Errorf_plain (case e of ErrSyntax \<Rightarrow> ''parse error'' | ErrRange \<Rightarrow> ''value out of range'')"

definition no_such_pointer :: goerr where
  [go_eval]: "no_such_pointer = Errorf_plain ''mistyped flag variable''"

fun std_Set :: "'f float_ops \<Rightarrow> string \<Rightarrow> 'f flag_val \<Rightarrow> goerr option \<times> 'f flag_val" where
  "std_Set fl s (FString v) = (None, FString s)"
| "std_Set fl s (FBool v) =
     (case ParseBool_std s of Inl e \<Rightarrow> (Some (std_error ErrSyntax), FBool False) | Inr b \<Rightarrow> (None, FBool b))"
| "std_Set fl s (FFloat64 v) =
     (case fl_parse fl s 64 of Inl e \<Rightarrow> (Some (std_error e), FFloat64 v) | Inr x \<Rightarrow> (None, FFloat64 x))"
| "std_Set fl s v = (Some no_such_pointer, v)"

definition stored :: "('a \<Rightarrow> 'f flag_val) \<Rightarrow> 'a \<Rightarrow> goerr + 'a \<Rightarrow> goerr option \<times> 'f flag_val" where
  [go_eval]: "stored C old r = (case r of Inl e \<Rightarrow> (Some e, C old) | Inr v \<Rightarrow> (None, C v))"

fun cli_Set :: "'f float_ops \<Rightarrow> string \<Rightarrow> 'f flag_val \<Rightarrow> goerr option \<times> 'f flag_val" where
  "cli_Set fl s (FInt32 v) = stored FInt32 v (Int32Value_Set s v)"
| "cli_Set fl s (FInt64 v) = stored FInt64 v (Int64Value_Set s v)"
| "cli_Set fl s (FUint32 v) = stored FUint32 v (Uint32Value_Set s v)"
| "cli_Set fl s (FUint64 v) = stored FUint64 v (Uint64Value_Set s v)"
| "cli_Set fl s (FFloat32 v) = stored FFloat32 v (Float32Value_Set fl s v)"
| "cli_Set fl s (FStrings v) = stored FStrings v (StringSliceValue_Set s v)"
| "cli_Set fl s (FBools v) = stored FBools v (BoolSliceValue_Set s v)"
| "cli_Set fl s (FInt32s v) = stored FInt32s v (Int32SliceValue_Set s v)"
| "cli_Set fl s (FInt64s v) = stored FInt64s v (Int64SliceValue_Set s v)"
| "cli_Set fl s (FUint32s v) = stored FUint32s v (Uint32SliceValue_Set s v)"
| "cli_Set fl s (FUint64s v) = stored FUint64s v (Uint64SliceValue_Set s v)"
| "cli_Set fl s (FFloat32s v) = stored FFloat32s v (Float32SliceValue_Set fl s v)"
| "cli_Set fl s (FFloat64s v) = stored FFloat64s v (Float64SliceValue_Set fl s v)"
| "cli_Set fl s v = (Some no_such_pointer, v)"

fun enum_Set :: "cli_enum_mapping list \<Rightarrow> string \<Rightarrow> string \<Rightarrow> 'f flag_val \<Rightarrow> goerr option \<times> 'f flag_val" where
  "enum_Set mappings typeName s (FInt32 v) = stored FInt32 v (EnumValue_Set mappings typeName s v)"
| "enum_Set mappings typeName s (FInt32s v) = stored FInt32s v (EnumSliceValue_Set mappings typeName s v)"
| "enum_Set mappings typeName s v = (Some no_such_pointer, v)"

fun value_Set :: "'f float_ops \<Rightarrow> flag_reg \<Rightarrow> string \<Rightarrow> 'f flag_val \<Rightarrow> goerr option \<times> 'f flag_val" where
  "value_Set fl (StdFlag f x n d u) s v = std_Set fl s v"
| "value_Set fl (VarFlag c x n u) s v = cli_Set fl s v"
| "value_Set fl (EnumFlag c x mappings typeName n u) s v = enum_Set mappings typeName s v"

type_synonym 'f flag_vars = "string \<rightharpoonup> 'f flag_val"

definition set_variable :: "'f float_ops \<Rightarrow> flag_reg \<Rightarrow> string \<Rightarrow> 'f flag_vars \<Rightarrow> goerr option \<times> 'f flag_vars" where
  [go_eval]: "set_variable fl r s vars =
     (case reg_var r of
        None \<Rightarrow> (Some no_such_pointer, vars)
      | Some x \<Rightarrow>
          (case vars x of
             None \<Rightarrow> (Some no_such_pointer, vars)
           | Some v \<Rightarrow>
               if map_of pointee (reg_call r) = Some (type_of v)
               then (case value_Set fl r s v of (e, v') \<Rightarrow> (e, vars(x \<mapsto> v')))
               else (Some no_such_pointer, vars)))"

text \<open>The text of the default: of a literal, or what the value prints of a nil pointer or a zero variable.\<close>

fun default_text :: "'f float_ops \<Rightarrow> flag_reg \<Rightarrow> string" where
  "default_text fl (StdFlag f x n d u) = (if d = empty_literal then [] else d)"
| "default_text fl (VarFlag c x n u) =
     (if c = ''NewInt32Value'' then Int32Value_String (map_option (\<lambda>_. 0) x)
      else if c = ''NewInt64Value'' then Int64Value_String (map_option (\<lambda>_. 0) x)
      else if c = ''NewUint32Value'' then Uint32Value_String (map_option (\<lambda>_. 0) x)
      else if c = ''NewUint64Value'' then Uint64Value_String (map_option (\<lambda>_. 0) x)
      else if c = ''NewFloat32Value'' then Float32Value_String fl (map_option (\<lambda>_. fl_zero fl) x)
      else StringSliceValue_String (map_option (\<lambda>_. []) x))"
| "default_text fl (EnumFlag c x mappings t n u) =
     (if c = ''NewEnumValue'' then EnumValue_String mappings (map_option (\<lambda>_. 0) x)
      else EnumSliceValue_String mappings (map_option (\<lambda>_. []) x))"

definition is_bool_call :: "flag_reg \<Rightarrow> bool" where
  [go_eval]: "is_bool_call r \<longleftrightarrow> reg_call r = ''BoolVar'' \<or> reg_call r = ''Bool''"

definition reg_flag :: "'f float_ops \<Rightarrow> flag_reg \<Rightarrow> 'f flag_vars flag_def" where
  [go_eval]: "reg_flag fl r =
     \<lparr>fName = reg_name r, fUsage = reg_usage r, fDefValue = default_text fl r, fIsBool = is_bool_call r, fSet = set_variable fl r\<rparr>"

text \<open>Declared variables hold the zero values of their types.\<close>

definition declare_vars :: "'f float_ops \<Rightarrow> var_decl list \<Rightarrow> 'f flag_vars" where
  [go_eval]: "declare_vars fl ds x = (case map_of ds x of None \<Rightarrow> None | Some ty \<Rightarrow> zero_of fl ty)"

text \<open>
  A flag set made of registrations: package \<open>flag\<close> panics when a name is registered twice (\<open>None\<close>).
\<close>

definition new_flagset :: "'f float_ops \<Rightarrow> flag_reg list \<Rightarrow> 'f flag_vars flagset option" where
  [go_eval]: "new_flagset fl regs = (if distinct (map reg_name regs) then Some (map (reg_flag fl) regs) else None)"

section \<open>Types of the emitted code\<close>

text \<open>
  What the Go compiler checks of a registration, given the types of the variables in scope.
\<close>

definition reg_typed :: "(string \<rightharpoonup> string) \<Rightarrow> flag_reg \<Rightarrow> bool" where
  "reg_typed env r \<longleftrightarrow> (\<exists>ty. map_of pointee (reg_call r) = Some ty \<and> (\<forall>x. reg_var r = Some x \<longrightarrow> env x = Some ty))"

definition typed_vars :: "(string \<rightharpoonup> string) \<Rightarrow> 'f flag_vars \<Rightarrow> bool" where
  "typed_vars env vars \<longleftrightarrow> (\<forall>x. map_option type_of (vars x) = env x)"

lemma zero_of_type: "zero_of fl ty = Some v \<Longrightarrow> type_of v = ty"
  by (auto simp: zero_of_def zero_values_def split: if_splits)

lemma std_Set_type [simp]: "type_of (snd (std_Set fl s v)) = type_of v"
  by (cases v) (auto split: sum.splits)

lemma cli_Set_type [simp]: "type_of (snd (cli_Set fl s v)) = type_of v"
  by (cases v) (auto simp: stored_def split: sum.splits)

lemma enum_Set_type [simp]: "type_of (snd (enum_Set ms t s v)) = type_of v"
  by (cases v) (auto simp: stored_def split: sum.splits)

lemma value_Set_type [simp]: "type_of (snd (value_Set fl r s v)) = type_of v"
  by (cases r) auto

lemma set_variable_typed: "typed_vars env vars \<Longrightarrow> typed_vars env (snd (set_variable fl r s vars))"
  by (auto simp: set_variable_def typed_vars_def case_prod_beta split: option.splits) (metis option.map(2))

lemma set_variable_defined:
  assumes "typed_vars env vars" and "reg_typed env r" and "reg_var r = Some x"
  shows "\<exists>v. vars x = Some v \<and> set_variable fl r s vars = (case value_Set fl r s v of (e, v') \<Rightarrow> (e, vars(x \<mapsto> v')))"
proof -
  obtain ty where ty: "map_of pointee (reg_call r) = Some ty" "env x = Some ty" using assms(2,3) by (auto simp: reg_typed_def)
  then obtain v where "vars x = Some v" "type_of v = ty"
    using assms(1) by (metis typed_vars_def map_option_eq_Some)
  with ty assms(3) show ?thesis by (simp add: set_variable_def)
qed

text \<open>What every flag of a set preserves, a parse preserves.\<close>

lemma parseOne_invariant:
  assumes "\<forall>f \<in> set fs. \<forall>s w. P w \<longrightarrow> P (snd (fSet f s w))" and "P w"
  shows "case parseOne fs args w of Seen rest w' \<Rightarrow> P w' | Stop rest \<Rightarrow> True | Fail e w' \<Rightarrow> P w'"
proof -
  have set_flag: "P (snd (set_flag f val pre w))" if "f \<in> set fs" for f val pre
  proof -
    have "P (snd (fSet f val w))" using assms that by blast
    then show ?thesis by (auto simp: set_flag_def split: prod.splits option.splits)
  qed
  have known: "case parse_known f name inline rest w of Seen rest w' \<Rightarrow> P w' | Stop rest \<Rightarrow> True | Fail e w' \<Rightarrow> P w'"
    if "f \<in> set fs" for f name inline rest
    using set_flag[OF that] assms(2)
    by (auto simp: parse_known_def after_set_def split: one_flag.splits option.splits prod.splits list.splits if_splits)
      (metis snd_conv)+
  have found: "f \<in> set fs" if "lookup_flag name fs = Some f" for name f
    using that by (induction fs) (auto split: if_splits)
  show ?thesis
    using known found assms(2) by (cases args) (auto split: flag_token.splits option.splits if_splits)
qed

lemma FlagSet_Parse_invariant:
  assumes "\<forall>f \<in> set fs. \<forall>s w. P w \<longrightarrow> P (snd (fSet f s w))" and "P w"
  shows "P (snd (FlagSet_Parse fs args w))"
  using assms
proof (induction fs args w rule: FlagSet_Parse.induct)
  case (1 fs args w)
  from parseOne_invariant[OF 1(2,3), of args] 1 show ?case
    by (subst FlagSet_Parse.simps) (auto split: one_flag.splits)
qed

lemma pointee_calls [simp]:
  "map_of pointee ''StringVar'' = Some ''string''"
  "map_of pointee ''BoolVar'' = Some ''bool''"
  "map_of pointee ''Float64Var'' = Some ''float64''"
  "map_of pointee ''String'' = Some ''string''"
  "map_of pointee ''Bool'' = Some ''bool''"
  "map_of pointee ''Float64'' = Some ''float64''"
  "map_of pointee ''NewInt32Value'' = Some ''int32''"
  "map_of pointee ''NewInt64Value'' = Some ''int64''"
  "map_of pointee ''NewUint32Value'' = Some ''uint32''"
  "map_of pointee ''NewUint64Value'' = Some ''uint64''"
  "map_of pointee ''NewFloat32Value'' = Some ''float32''"
  "map_of pointee ''NewEnumValue'' = Some ''int32''"
  "map_of pointee ''NewStringSliceValue'' = Some ''[]string''"
  "map_of pointee ''NewBoolSliceValue'' = Some ''[]bool''"
  "map_of pointee ''NewInt32SliceValue'' = Some ''[]int32''"
  "map_of pointee ''NewInt64SliceValue'' = Some ''[]int64''"
  "map_of pointee ''NewUint32SliceValue'' = Some ''[]uint32''"
  "map_of pointee ''NewUint64SliceValue'' = Some ''[]uint64''"
  "map_of pointee ''NewFloat32SliceValue'' = Some ''[]float32''"
  "map_of pointee ''NewFloat64SliceValue'' = Some ''[]float64''"
  "map_of pointee ''NewEnumSliceValue'' = Some ''[]int32''"
  by (simp_all add: pointee_def)

lemma pointee_zero:
  assumes "map_of pointee call = Some ty"
  shows "\<exists>v. zero_of fl ty = Some v \<and> type_of v = ty"
proof -
  have "list_all (\<lambda>ty. zero_of fl ty \<noteq> None) (map snd pointee)"
    by (simp add: pointee_def zero_of_def zero_values_def)
  moreover have "ty \<in> set (map snd pointee)" using map_of_SomeD[OF assms] by force
  ultimately have "zero_of fl ty \<noteq> None" unfolding list_all_iff by blast
  then show ?thesis using zero_of_type[of fl ty] by auto
qed

lemma resolveFieldType_typed:
  assumes "resolveFieldType field = Some ti"
  shows "map_of pointee (if stdFlagFunc ti \<noteq> [] then stdFlagFunc ti else constructor ti) = Some (goType ti)"
  using assms by (cases "pf_Kind field") (auto simp: resolveFieldType_def std_type_def cli_type_def)

lemma resolveRepeatedFieldType_typed:
  "resolveRepeatedFieldType field = Some (ty, con) \<Longrightarrow> map_of pointee con = Some ty"
  by (cases "pf_Kind field") (auto simp: resolveRepeatedFieldType_def)

lemma emitFlagVar_typed:
  assumes "emitFlagVar field = Some ((x, ty), r)"
  shows "x = ''flag_'' @ pf_Name field \<and> reg_var r = Some x \<and> map_of pointee (reg_call r) = Some ty
    \<and> reg_name r = fieldToFlagName (pf_Name field)"
  using assms resolveFieldType_typed[of field] resolveRepeatedFieldType_typed[of field]
  by (auto simp: emitFlagVar_def Let_def emitEnumSliceFlagVar_def emitEnumFlagVar_def emitFsVar_def emitFlagReg_def
      split: if_splits option.splits)

lemma map_filter_distinct:
  assumes "\<And>x y. f x = Some y \<Longrightarrow> h y = g x" and "distinct (map g xs)"
  shows "distinct (map h (List.map_filter f xs))"
  using assms(2)
proof (induction xs)
  case (Cons x xs)
  have "h ` set (List.map_filter f xs) \<subseteq> g ` set xs"
    using assms(1) by (force simp: List.map_filter_def)
  with Cons assms(1) show ?case
    by (fastforce simp: map_filter_simps split: option.splits)
qed (simp add: map_filter_simps)

lemma own_fields_distinct: "distinct (map pf_Name (pm_Fields msg)) \<Longrightarrow> distinct (map pf_Name (own_fields msg bcs))"
  by (simp add: own_fields_def distinct_map_filter)

lemma emitFlagVars_decls:
  assumes "distinct (map pf_Name (pm_Fields msg))"
  shows "distinct (map (fst \<circ> fst) (emitFlagVars msg bcs))"
  unfolding emitFlagVars_def
proof (rule map_filter_distinct[where g = "\<lambda>field. ''flag_'' @ pf_Name field"])
  show "(fst \<circ> fst) y = ''flag_'' @ pf_Name field" if "emitFlagVar field = Some y" for field y
    using emitFlagVar_typed[of field] that by (cases y) (cases "fst y"; auto)
  show "distinct (map (\<lambda>field. ''flag_'' @ pf_Name field) (own_fields msg bcs))"
    using own_fields_distinct[OF assms] by (auto simp: distinct_map inj_on_def)
qed

lemma emitFlagVars_typed:
  assumes "distinct (map pf_Name (pm_Fields msg))" and "(d, r) \<in> set (emitFlagVars msg bcs)"
  shows "\<exists>ty. reg_var r = Some (fst d) \<and> map_of pointee (reg_call r) = Some ty \<and> map_of (map fst (emitFlagVars msg bcs)) (fst d) = Some ty"
proof -
  obtain field where "emitFlagVar field = Some (d, r)" using assms(2) by (auto simp: emitFlagVars_def List.map_filter_def)
  then have t: "reg_var r = Some (fst d)" "map_of pointee (reg_call r) = Some (snd d)"
    using emitFlagVar_typed[of field "fst d" "snd d" r] by simp_all
  have "distinct (map fst (map fst (emitFlagVars msg bcs)))" using emitFlagVars_decls[OF assms(1)] by simp
  moreover have "d \<in> set (map fst (emitFlagVars msg bcs))" using assms(2) by force
  ultimately show ?thesis using t by (cases d) (auto intro: map_of_is_SomeI)
qed

lemma declared_typed:
  assumes "\<And>x ty. (x, ty) \<in> set ds \<Longrightarrow> \<exists>call. map_of pointee call = Some ty"
  shows "typed_vars (map_of ds) (declare_vars fl ds)"
  unfolding typed_vars_def declare_vars_def
proof
  fix x
  show "map_option type_of (case map_of ds x of None \<Rightarrow> None | Some ty \<Rightarrow> zero_of fl ty) = map_of ds x"
  proof (cases "map_of ds x")
    case (Some ty)
    then obtain call where "map_of pointee call = Some ty" using assms map_of_SomeD by fast
    with Some show ?thesis using pointee_zero[of call ty fl] by auto
  qed simp
qed

section \<open>Properties\<close>

text \<open>
  C11. The flags of a command type-check and stay typed: every registration emitted takes a pointer to the
  type its variable is declared with, and whatever the arguments, parsing leaves every variable with a value of
  its declared type.
\<close>

theorem generated_flags_typed:
  assumes "distinct (map pf_Name (pm_Fields msg))"
  shows "(\<forall>r \<in> snd ` set (emitFlagVars msg bcs). reg_typed (map_of (map fst (emitFlagVars msg bcs))) r)
    \<and> typed_vars (map_of (map fst (emitFlagVars msg bcs)))
        (snd (FlagSet_Parse (map (reg_flag fl \<circ> snd) (emitFlagVars msg bcs)) args
               (declare_vars fl (map fst (emitFlagVars msg bcs)))))"
proof
  show "\<forall>r \<in> snd ` set (emitFlagVars msg bcs). reg_typed (map_of (map fst (emitFlagVars msg bcs))) r"
    using emitFlagVars_typed[OF assms] unfolding reg_typed_def by fastforce
  have "\<exists>call. map_of pointee call = Some ty" if d: "(x, ty) \<in> set (map fst (emitFlagVars msg bcs))" for x ty
  proof -
    from d obtain field r where "emitFlagVar field = Some ((x, ty), r)"
      by (auto simp: emitFlagVars_def List.map_filter_def)
    then show ?thesis using emitFlagVar_typed by blast
  qed
  then have "typed_vars (map_of (map fst (emitFlagVars msg bcs))) (declare_vars fl (map fst (emitFlagVars msg bcs)))"
    by (rule declared_typed)
  then show "typed_vars (map_of (map fst (emitFlagVars msg bcs)))
      (snd (FlagSet_Parse (map (reg_flag fl \<circ> snd) (emitFlagVars msg bcs)) args
             (declare_vars fl (map fst (emitFlagVars msg bcs)))))"
    by (rule FlagSet_Parse_invariant[where P = "typed_vars (map_of (map fst (emitFlagVars msg bcs)))", rotated])
      (simp add: reg_flag_def set_variable_typed)
qed

lemma map_insort_key: "map g (insort_key (\<lambda>x. k (g x)) x xs) = insort_key k (g x) (map g xs)"
  by (induction xs) auto

lemma map_sort_key: "map g (sort_key (\<lambda>x. k (g x)) xs) = sort_key k (map g xs)"
  by (induction xs) (simp_all add: map_insort_key)

definition shown :: "'w flag_def \<Rightarrow> string \<times> string \<times> string" where
  "shown f = (fName f, fUsage f, fDefValue f)"

lemma writeFlags_cong:
  assumes "map shown fs = map shown gs"
  shows "writeFlags fs = writeFlags gs"
proof -
  have "writeFlags hs = (let flags = map (\<lambda>(n, u, d). ''  --'' @ n @ '' '' @ d @ newline @ ''    '' @ [CHR 0x09] @ u)
      (sort_key fst (map shown hs)) in
      if length flags > 0 then newline @ ''Flags:'' @ newline @ concat (map (\<lambda>f. f @ newline) flags) else [])"
    for hs :: "'w flagset"
  proof -
    have "map shown (VisitAll hs) = sort_key fst (map shown hs)"
      using map_sort_key[of shown fst hs] by (simp add: VisitAll_def shown_def)
    then have "map (\<lambda>f. ''  --'' @ fName f @ '' '' @ fDefValue f @ newline @ ''    '' @ [CHR 0x09] @ fUsage f) (VisitAll hs)
        = map (\<lambda>(n, u, d). ''  --'' @ n @ '' '' @ d @ newline @ ''    '' @ [CHR 0x09] @ u) (sort_key fst (map shown hs))"
      by (metis (no_types, lifting) map_map comp_def map_cong shown_def split_conv)
    then show ?thesis unfolding writeFlags_def by simp
  qed
  with assms show ?thesis by metis
qed

lemma show_nat_zero: "show_nat 0 = ''0''"
  by code_simp

lemma emitHelpFlagReg_same:
  assumes "fl_format fl (fl_zero fl) 32 = ''0''"
  shows "map_option (\<lambda>(d, r). shown (reg_flag fl r)) (emitFlagVar field) = map_option (\<lambda>r. shown (reg_flag fl r)) (emitHelpFlagReg field)"
  by (cases "pf_Kind field")
    (simp_all add: emitFlagVar_def emitHelpFlagReg_def emitHelpRepeatedFlagReg_def emitHelpEnumFlagReg_def Let_def
      emitEnumSliceFlagVar_def emitEnumFlagVar_def emitFsVar_def emitFlagReg_def resolveFieldType_def resolveRepeatedFieldType_def
      std_type_def cli_type_def json_flag_kind_def shown_def reg_flag_def assms show_nat_zero go_eval go_std)

text \<open>
  C22. The help of a command tells the truth: the flag set its help is printed from shows the same flags, with the
  same usage and defaults, as the flag set its arguments are parsed with, when a float zero prints as \<open>0\<close>.
\<close>

theorem help_shows_parsed_flags:
  assumes "fl_format fl (fl_zero fl) 32 = ''0''"
  shows "writeFlags (map (reg_flag fl) (emitHelpFlags msg bcs)) = writeFlags (map (reg_flag fl \<circ> snd) (emitFlagVars msg bcs))"
proof (rule writeFlags_cong)
  have "map (\<lambda>r. shown (reg_flag fl r)) (List.map_filter emitHelpFlagReg fs)
      = map (\<lambda>(d, r). shown (reg_flag fl r)) (List.map_filter emitFlagVar fs)" for fs
  proof (induction fs)
    case (Cons field fs)
    then show ?case using emitHelpFlagReg_same[OF assms, of field]
      by (auto simp: map_filter_simps split: option.splits)
  qed (simp add: map_filter_simps)
  then show "map shown (map (reg_flag fl) (emitHelpFlags msg bcs)) = map shown (map (reg_flag fl \<circ> snd) (emitFlagVars msg bcs))"
    by (simp add: emitHelpFlags_def emitFlagVars_def o_def case_prod_unfold)
qed

lemma fieldToFlagName_inj:
  assumes "fieldToFlagName a = fieldToFlagName b" and "CHR ''-'' \<notin> set a" and "CHR ''-'' \<notin> set b"
  shows "a = b"
proof (rule map_inj_on)
  show "map (\<lambda>c. if c = CHR ''_'' then CHR ''-'' else c) a = map (\<lambda>c. if c = CHR ''_'' then CHR ''-'' else c) b"
    using assms(1) by (simp add: fieldToFlagName_def replace_byte_def)
  show "inj_on (\<lambda>c. if c = CHR ''_'' then CHR ''-'' else c) (set a \<union> set b)"
    using assms(2,3) by (auto simp: inj_on_def)
qed

lemma flag_names_distinct:
  assumes "distinct (map pf_Name fs)" and "\<forall>field \<in> set fs. CHR ''-'' \<notin> set (pf_Name field)"
  shows "distinct (map (\<lambda>field. fieldToFlagName (pf_Name field)) fs)"
  using assms by (auto simp: distinct_map inj_on_def dest!: fieldToFlagName_inj)

lemma reg_names:
  "emitFlagVar field = Some dr \<Longrightarrow> reg_name (snd dr) = fieldToFlagName (pf_Name field)"
  "emitHelpFlagReg field = Some r \<Longrightarrow> reg_name r = fieldToFlagName (pf_Name field)"
  "emitBindIntoFlagReg field x n = Some r \<Longrightarrow> reg_name r = n"
  by (auto simp: emitFlagVar_def emitHelpFlagReg_def emitHelpRepeatedFlagReg_def emitHelpEnumFlagReg_def emitBindIntoFlagReg_def
      Let_def emitEnumSliceFlagVar_def emitEnumFlagVar_def emitEnumFlagReg_def emitFsVar_def emitFlagReg_def
      split: option.splits if_splits)

lemma bind_flag_names_distinct:
  assumes "distinct (map pf_Name (pm_Fields (bc_msg bc)))" and "\<forall>field \<in> set (pm_Fields (bc_msg bc)). CHR ''-'' \<notin> set (pf_Name field)"
  shows "distinct (map reg_name (emitBindIntoFlagRegistration bc))"
  unfolding emitBindIntoFlagRegistration_def
  by (rule map_filter_distinct[OF _ flag_names_distinct]) (simp_all add: reg_names assms)

text \<open>
  No flag is defined twice: for field names that are distinct and, as protobuf demands, without hyphens, package
  \<open>flag\<close> accepts the registrations of a command, of its help, and of a group for the message it binds.
\<close>

theorem generated_flagsets_accepted:
  assumes "distinct (map pf_Name (pm_Fields msg))" and "\<forall>field \<in> set (pm_Fields msg). CHR ''-'' \<notin> set (pf_Name field)"
  shows "new_flagset fl (map snd (emitFlagVars msg bcs)) \<noteq> None \<and> new_flagset fl (emitHelpFlags msg bcs) \<noteq> None
    \<and> new_flagset fl (emitBindIntoFlagRegistration \<lparr>bc_fieldName = fname, bc_goFieldName = gname, bc_msg = msg, bc_varPrefix = pre\<rparr>) \<noteq> None"
proof -
  have own: "distinct (map (\<lambda>field. fieldToFlagName (pf_Name field)) (own_fields msg bcs))"
    using assms by (intro flag_names_distinct own_fields_distinct) (auto simp: own_fields_def)
  have "distinct (map (\<lambda>dr. reg_name (snd dr)) (emitFlagVars msg bcs))"
    unfolding emitFlagVars_def by (rule map_filter_distinct[OF _ own]) (rule reg_names)
  moreover have "distinct (map reg_name (emitHelpFlags msg bcs))"
    unfolding emitHelpFlags_def by (rule map_filter_distinct[OF _ own]) (rule reg_names)
  ultimately show ?thesis
    using bind_flag_names_distinct[where bc = "\<lparr>bc_fieldName = fname, bc_goFieldName = gname, bc_msg = msg, bc_varPrefix = pre\<rparr>"] assms
    by (simp add: new_flagset_def o_def)
qed

section \<open>A concrete message\<close>

definition list_request :: proto_message where
  [go_eval]: "list_request = \<lparr>pm_GoName = ''ListRequest'', pm_Fields =
     [config_field ''page_size'' Int32Kind, (config_field ''label'' StringKind)\<lparr>pf_IsList := True\<rparr>]\<rparr>"

lemma list_request_names:
  "distinct (map pf_Name (pm_Fields list_request))" "\<forall>field \<in> set (pm_Fields list_request). CHR ''-'' \<notin> set (pf_Name field)"
  by (simp_all add: list_request_def config_field_def)

theorem generated_flags_typed_witness:
  "reg_typed (map_of (map fst (emitFlagVars list_request []))) (snd (emitFlagVars list_request [] ! 1))
    \<and> typed_vars (map_of (map fst (emitFlagVars list_request [])))
        (snd (FlagSet_Parse (map (reg_flag no_floats \<circ> snd) (emitFlagVars list_request [])) [''--page-size=7'', ''--label=a'']
               (declare_vars no_floats (map fst (emitFlagVars list_request [])))))"
proof -
  have "length (emitFlagVars list_request []) = 2"
    by (simp add: emitFlagVars_def own_fields_def list_request_def config_field_def List.map_filter_def emitFlagVar_def
        isJSONStringFlag_def resolveFieldType_def resolveRepeatedFieldType_def Let_def)
  then have "snd (emitFlagVars list_request [] ! 1) \<in> snd ` set (emitFlagVars list_request [])" by simp
  with generated_flags_typed[OF list_request_names(1), of "[]" no_floats "[''--page-size=7'', ''--label=a'']"] show ?thesis by blast
qed

theorem help_shows_parsed_flags_witness:
  "writeFlags (map (reg_flag no_floats) (emitHelpFlags list_request []))
     = writeFlags (map (reg_flag no_floats \<circ> snd) (emitFlagVars list_request []))"
  by (rule help_shows_parsed_flags) (simp add: no_floats_def)

theorem generated_flagsets_accepted_witness:
  "new_flagset no_floats (map snd (emitFlagVars list_request [])) \<noteq> None \<and> new_flagset no_floats (emitHelpFlags list_request []) \<noteq> None"
  using generated_flagsets_accepted[OF list_request_names, of no_floats "[]"] by blast

end
