(* ===== verification/CodegenRequest.thy ===== *)
theory CodegenRequest imports CodegenFlags ConfigParse begin

text \<open>
  How a generated command makes its request, from \<open>internal/codegen/cli.go\<close> and \<open>transport/cli/json.go\<close>: from the
  \<open>--json\<close> payload, or from its flags by a struct literal and assignments after it. The emitters return the
  printed code as data; the functions named \<open>run_\<close> and \<open>eval_\<close> execute it.
\<close>

section \<open>Messages\<close>

text \<open>
  A message is a struct: its fields by their Go names; a field that is not listed holds its zero value. A field is
  a value of a flag's type, an enum or a list of them, bytes, or a message. \<open>proto_ops\<close> is what is used of the
  protobuf library and of \<open>encoding/json\<close>: the JSON syntax check, decoding into a new message of a type (with
  unknown fields discarded or not), merging, and encoding on one or several lines.
\<close>

datatype 'f go_value = GVar "'f flag_val" | GEnum string int32 | GEnums string "int32 list" | GBytes string
  | GMsg string "string \<Rightarrow> 'f go_value option"

type_synonym 'f message = "string \<rightharpoonup> 'f go_value"

record 'f proto_ops =
  po_Valid :: "string \<Rightarrow> bool"
  po_Unmarshal :: "bool \<Rightarrow> string \<Rightarrow> string \<Rightarrow> goerr + 'f message"
  po_Merge :: "'f message \<Rightarrow> 'f message \<Rightarrow> 'f message"
  po_Marshal :: "bool \<Rightarrow> 'f message \<Rightarrow> goerr + string"

definition wrapped_field :: "string \<Rightarrow> string \<Rightarrow> string" where
  [go_eval]: "wrapped_field jsonFieldName rawJSON = ''{'' @ [CHR 0x22] @ jsonFieldName @ [CHR 0x22] @ '':'' @ rawJSON @ ''}''"

definition UnmarshalJSONField :: "'f proto_ops \<Rightarrow> string \<Rightarrow> 'f message \<Rightarrow> string \<Rightarrow> string \<Rightarrow> goerr + 'f message" where
  [go_eval]: "UnmarshalJSONField ops ty msg jsonFieldName rawJSON =
     (if \<not> po_Valid ops rawJSON then Inl (Errorf_plain (''invalid JSON value for field '' @ jsonFieldName))
      else case po_Unmarshal ops True ty (wrapped_field jsonFieldName rawJSON) of
        Inl err \<Rightarrow> Inl err
      | Inr tmp \<Rightarrow> Inr (po_Merge ops msg tmp))"

section \<open>Struct literals\<close>

text \<open>The expression of a field: a conversion of each element of a variable, of the variable, or the variable.\<close>

datatype assign_expr = ConvertEach string string | ConvertEnum string string | UseVar string

type_synonym field_init = "string \<times> assign_expr"

definition emitFieldAssignment :: "proto_field \<Rightarrow> string \<Rightarrow> field_init" where
  [go_eval]: "emitFieldAssignment field varName =
     (if pf_IsList field \<and> pf_Kind field = EnumKind then (pf_GoName field, ConvertEach (en_GoName (field_enum field)) varName)
      else if pf_Kind field = EnumKind then (pf_GoName field, ConvertEnum (en_GoName (field_enum field)) varName)
      else (pf_GoName field, UseVar varName))"

fun eval_expr :: "'f flag_vars \<Rightarrow> assign_expr \<Rightarrow> 'f go_value option" where
  "eval_expr vars (UseVar x) = map_option GVar (vars x)"
| "eval_expr vars (ConvertEnum ty x) = (case vars x of Some (FInt32 n) \<Rightarrow> Some (GEnum ty n) | _ \<Rightarrow> None)"
| "eval_expr vars (ConvertEach ty x) = (case vars x of Some (FInt32s ns) \<Rightarrow> Some (GEnums ty ns) | _ \<Rightarrow> None)"

text \<open>A literal: each field named takes the value of its expression.\<close>

fun eval_literal :: "'f flag_vars \<Rightarrow> field_init list \<Rightarrow> 'f message" where
  "eval_literal vars [] = Map.empty"
| "eval_literal vars ((name, e) # es) =
     (case eval_expr vars e of None \<Rightarrow> eval_literal vars es | Some v \<Rightarrow> (eval_literal vars es)(name \<mapsto> v))"

section \<open>Assignments after the literal\<close>

text \<open>Decode base64 from a variable into a field, or unmarshal JSON from a variable under a JSON name.\<close>

datatype post_assign = FromBase64 string string | FromJSON string string

definition emitPostAssignFieldCode :: "proto_field \<Rightarrow> string \<Rightarrow> post_assign" where
  [go_eval]: "emitPostAssignFieldCode field varName =
     (if \<not> pf_IsList field \<and> pf_Kind field = BytesKind then FromBase64 varName (pf_GoName field)
      else FromJSON varName (pf_JSONName field))"

definition text_of :: "'f flag_vars \<Rightarrow> string \<Rightarrow> string" where
  [go_eval]: "text_of vars x = (case vars x of Some (FString s) \<Rightarrow> s | _ \<Rightarrow> [])"

fun run_post :: "'f proto_ops \<Rightarrow> 'f flag_vars \<Rightarrow> string \<Rightarrow> post_assign \<Rightarrow> 'f message \<Rightarrow> goerr + 'f message" where
  "run_post ops vars ty (FromBase64 x goName) msg =
     (if text_of vars x \<noteq> [] then
        (case b64_decode (text_of vars x) 0 [] of
           Inl off \<Rightarrow> Inl (Errorf_plain (''illegal base64 data at input byte '' @ show_nat off))
         | Inr bytes \<Rightarrow> Inr (msg(goName \<mapsto> GBytes bytes)))
      else Inr msg)"
| "run_post ops vars ty (FromJSON x jsonName) msg =
     (if text_of vars x \<noteq> [] then UnmarshalJSONField ops ty msg jsonName (text_of vars x) else Inr msg)"

section \<open>Bound messages\<close>

definition hasBindIntoComplexFields :: "bind_into_ctx \<Rightarrow> bool" where
  [go_eval]: "hasBindIntoComplexFields bc \<longleftrightarrow> list_ex isPostAssignField (pm_Fields (bc_msg bc))"

definition emitBindIntoFieldConstruction :: "bind_into_ctx \<Rightarrow> field_init list option" where
  [go_eval]: "emitBindIntoFieldConstruction bc =
     (if hasBindIntoComplexFields bc then None
      else Some (map (\<lambda>field. emitFieldAssignment field (bind_var bc field)) (pm_Fields (bc_msg bc))))"

text \<open>A bound message built after the literal: its own literal, and the assignments after that one.\<close>

definition emitBindIntoPostAssign :: "bind_into_ctx \<Rightarrow> field_init list \<times> post_assign list" where
  [go_eval]: "emitBindIntoPostAssign bc =
     (map (\<lambda>field. emitFieldAssignment field (bind_var bc field))
        (filter (\<lambda>field. \<not> isPostAssignField field) (pm_Fields (bc_msg bc))),
      map (\<lambda>field. emitPostAssignFieldCode field (bind_var bc field)) (filter isPostAssignField (pm_Fields (bc_msg bc))))"

definition run_bind_post :: "'f proto_ops \<Rightarrow> 'f flag_vars \<Rightarrow> bind_into_ctx \<Rightarrow> 'f message \<Rightarrow> goerr + 'f message" where
  [go_eval]: "run_bind_post ops vars bc req =
     (case emitBindIntoPostAssign bc of
        (inits, posts) \<Rightarrow>
          (case fold_res (run_post ops vars (pm_GoName (bc_msg bc))) posts (eval_literal vars inits) of
             Inl err \<Rightarrow> Inl err
           | Inr tmp \<Rightarrow> Inr (req(bc_goFieldName bc \<mapsto> GMsg (pm_GoName (bc_msg bc)) tmp))))"

section \<open>The request\<close>

text \<open>An item of the request's literal: a field, or a bound message with a literal of its own.\<close>

datatype literal_item = FieldItem field_init | BindItem string string "field_init list"

definition emitRequestFields :: "proto_message \<Rightarrow> bind_into_ctx list \<Rightarrow> literal_item list" where
  [go_eval]: "emitRequestFields msg bindCtxs =
     List.map_filter (\<lambda>field.
       case findBindCtx bindCtxs (pf_Name field) of
         Some bc \<Rightarrow> map_option (BindItem (bc_goFieldName bc) (pm_GoName (bc_msg bc))) (emitBindIntoFieldConstruction bc)
       | None \<Rightarrow>
           if isPostAssignField field then None
           else Some (FieldItem (emitFieldAssignment field (''flag_'' @ pf_Name field)))) (pm_Fields msg)"

fun eval_items :: "'f flag_vars \<Rightarrow> literal_item list \<Rightarrow> 'f message" where
  "eval_items vars [] = Map.empty"
| "eval_items vars (FieldItem (name, e) # items) =
     (case eval_expr vars e of None \<Rightarrow> eval_items vars items | Some v \<Rightarrow> (eval_items vars items)(name \<mapsto> v))"
| "eval_items vars (BindItem name ty inits # items) = (eval_items vars items)(name \<mapsto> GMsg ty (eval_literal vars inits))"

text \<open>First the bound messages with complex fields, then the complex fields of the request.\<close>

datatype request_post = BindPost bind_into_ctx | FieldPost post_assign

definition emitRequestPostAssign :: "proto_message \<Rightarrow> bind_into_ctx list \<Rightarrow> request_post list" where
  [go_eval]: "emitRequestPostAssign msg bindCtxs =
     List.map_filter (\<lambda>field.
       case findBindCtx bindCtxs (pf_Name field) of
         None \<Rightarrow> None
       | Some bc \<Rightarrow> if \<not> hasBindIntoComplexFields bc then None else Some (BindPost bc)) (pm_Fields msg) @
     List.map_filter (\<lambda>field.
       if findBindCtx bindCtxs (pf_Name field) \<noteq> None then None
       else if \<not> isPostAssignField field then None
       else Some (FieldPost (emitPostAssignFieldCode field (''flag_'' @ pf_Name field)))) (pm_Fields msg)"

fun run_request_post :: "'f proto_ops \<Rightarrow> 'f flag_vars \<Rightarrow> string \<Rightarrow> request_post \<Rightarrow> 'f message \<Rightarrow> goerr + 'f message" where
  "run_request_post ops vars ty (BindPost bc) req = run_bind_post ops vars bc req"
| "run_request_post ops vars ty (FieldPost p) req = run_post ops vars ty p req"

text \<open>
  The emitted parsing, given the variables of the enclosing function. A second registration of a flag name would
  panic. The variables of the command hide none of the enclosing ones. Arguments left over by the flags are
  not looked at.
\<close>

definition flag_redefined :: goerr where
  [go_eval]: "flag_redefined = Errorf_plain ''panic: flag redefined''"

definition request_from_flags ::
  "'f float_ops \<Rightarrow> 'f proto_ops \<Rightarrow> proto_message \<Rightarrow> bind_into_ctx list \<Rightarrow> string list \<Rightarrow> 'f flag_vars \<Rightarrow> goerr + 'f message" where
  [go_eval]: "request_from_flags fl ops msg bindCtxs args outer =
     (let code = emitFlagVars msg bindCtxs in
      case new_flagset fl (map snd code) of
        None \<Rightarrow> Inl flag_redefined
      | Some fs \<Rightarrow>
          (case FlagSet_Parse fs args (outer ++ declare_vars fl (map fst code)) of
             (Inl err, vars) \<Rightarrow> Inl err
           | (Inr rest, vars) \<Rightarrow>
               fold_res (run_request_post ops vars (pm_GoName msg)) (emitRequestPostAssign msg bindCtxs)
                 (eval_items vars (emitRequestFields msg bindCtxs))))"

definition emitRequestParsing ::
  "'f float_ops \<Rightarrow> 'f proto_ops \<Rightarrow> proto_message \<Rightarrow> bind_into_ctx list \<Rightarrow> ('i, 'r) cli_ctx \<Rightarrow> string list \<Rightarrow> 'f flag_vars
     \<Rightarrow> goerr + 'f message" where
  [go_eval]: "emitRequestParsing fl ops msg bindCtxs ctx args outer =
     (case JSONPayloadFromContext ctx of
        Some payload \<Rightarrow>
          if length args > 0 then Inl (NewError CodeInvalidArgument ''--json cannot be combined with flags'')
          else po_Unmarshal ops False (pm_GoName msg) payload
      | None \<Rightarrow> request_from_flags fl ops msg bindCtxs args outer)"

section \<open>Flags as text\<close>

text \<open>How a value of a variable is written as uses of its flag; floats and unknown enum numbers are not written.\<close>

definition enum_texts :: "cli_enum_mapping list \<Rightarrow> int32 list \<Rightarrow> string list option" where
  "enum_texts mappings ns =
     (if \<forall>n \<in> set ns. find_number n mappings \<noteq> None then Some (map (\<lambda>n. the (find_number n mappings)) ns) else None)"

fun flag_texts :: "flag_reg \<Rightarrow> 'f flag_val \<Rightarrow> string list option" where
  "flag_texts (StdFlag f x n d u) (FString s) = Some [s]"
| "flag_texts (StdFlag f x n d u) (FBool b) = Some [FormatBool b]"
| "flag_texts (VarFlag c x n u) (FInt32 v) = Some [Int32Value_String (Some v)]"
| "flag_texts (VarFlag c x n u) (FInt64 v) = Some [Int64Value_String (Some v)]"
| "flag_texts (VarFlag c x n u) (FUint32 v) = Some [Uint32Value_String (Some v)]"
| "flag_texts (VarFlag c x n u) (FUint64 v) = Some [Uint64Value_String (Some v)]"
| "flag_texts (VarFlag c x n u) (FStrings vs) = Some vs"
| "flag_texts (VarFlag c x n u) (FBools vs) = Some (map FormatBool vs)"
| "flag_texts (VarFlag c x n u) (FInt32s vs) = Some (map (\<lambda>v. Int32Value_String (Some v)) vs)"
| "flag_texts (VarFlag c x n u) (FInt64s vs) = Some (map (\<lambda>v. Int64Value_String (Some v)) vs)"
| "flag_texts (VarFlag c x n u) (FUint32s vs) = Some (map (\<lambda>v. Uint32Value_String (Some v)) vs)"
| "flag_texts (VarFlag c x n u) (FUint64s vs) = Some (map (\<lambda>v. Uint64Value_String (Some v)) vs)"
| "flag_texts (EnumFlag c x mappings t n u) (FInt32 v) = (if v = 0 then Some [] else enum_texts mappings [v])"
| "flag_texts (EnumFlag c x mappings t n u) (FInt32s vs) = enum_texts mappings vs"
| "flag_texts r v = None"

fun reg_mappings :: "flag_reg \<Rightarrow> cli_enum_mapping list" where
  "reg_mappings (EnumFlag c x mappings t n u) = mappings"
| "reg_mappings r = []"

definition set_text :: "'f float_ops \<Rightarrow> flag_reg \<Rightarrow> string \<Rightarrow> 'f flag_val \<Rightarrow> goerr + 'f flag_val" where
  "set_text fl r s v = (case value_Set fl r s v of (None, v') \<Rightarrow> Inr v' | (Some e, v') \<Rightarrow> Inl e)"

text \<open>A typed fold of a value's own \<open>Set\<close> lifts to the variable.\<close>

lemma fold_set_text:
  assumes "\<And>s v. set_text fl r s (C v) = map_sum id C (f s v)" and "fold_res f ss v = Inr w"
  shows "fold_res (set_text fl r) ss (C v) = Inr (C w)"
  using assms(2)
proof (induction ss arbitrary: v)
  case (Cons s ss)
  then show ?case by (cases "f s v") (simp_all add: assms(1))
qed simp

lemma stored_sum: "(case stored C old r of (None, v') \<Rightarrow> Inr v' | (Some e, v') \<Rightarrow> Inl e) = map_sum id C r"
  by (cases r) (simp_all add: stored_def)

lemma set_text_cli_sums:
  "set_text fl (VarFlag c x n u) s (FInt32 a) = map_sum id FInt32 (Int32Value_Set s a)"
  "set_text fl (VarFlag c x n u) s (FInt64 b) = map_sum id FInt64 (Int64Value_Set s b)"
  "set_text fl (VarFlag c x n u) s (FUint32 a) = map_sum id FUint32 (Uint32Value_Set s a)"
  "set_text fl (VarFlag c x n u) s (FUint64 b) = map_sum id FUint64 (Uint64Value_Set s b)"
  "set_text fl (VarFlag c x n u) s (FStrings ss) = map_sum id FStrings (StringSliceValue_Set s ss)"
  "set_text fl (VarFlag c x n u) s (FBools bs) = map_sum id FBools (BoolSliceValue_Set s bs)"
  "set_text fl (VarFlag c x n u) s (FInt32s as) = map_sum id FInt32s (Int32SliceValue_Set s as)"
  "set_text fl (VarFlag c x n u) s (FInt64s cs) = map_sum id FInt64s (Int64SliceValue_Set s cs)"
  "set_text fl (VarFlag c x n u) s (FUint32s as) = map_sum id FUint32s (Uint32SliceValue_Set s as)"
  "set_text fl (VarFlag c x n u) s (FUint64s cs) = map_sum id FUint64s (Uint64SliceValue_Set s cs)"
  "set_text fl (EnumFlag c x ms t n u) s (FInt32 a) = map_sum id FInt32 (EnumValue_Set ms t s a)"
  "set_text fl (EnumFlag c x ms t n u) s (FInt32s as) = map_sum id FInt32s (EnumSliceValue_Set ms t s as)"
  by (simp_all add: set_text_def stored_sum)

lemma enum_text_found:
  assumes "distinct (map (\<lambda>m. to_lower (CLIValue m)) ms)" and "find_number n ms = Some t"
  shows "find_cli_value (to_lower t) ms = Some n"
proof -
  obtain m where m: "m \<in> set ms" "CLIValue m = t" "Number m = n" using find_number_in[OF assms(2)] by blast
  then show ?thesis using find_cli_value_unique[OF assms(1) m(1), of t] by simp
qed

lemma enum_slice_texts:
  assumes "distinct (map (\<lambda>m. to_lower (CLIValue m)) ms)" and "\<forall>n \<in> set ns. find_number n ms \<noteq> None"
  shows "fold_res (EnumSliceValue_Set ms ty) (map (\<lambda>n. the (find_number n ms)) ns) old = Inr (old @ ns)"
  using assms(2)
proof (induction ns arbitrary: old)
  case (Cons n ns)
  then obtain t where "find_number n ms = Some t" by auto
  with Cons enum_text_found[OF assms(1)] show ?case by (simp add: EnumSliceValue_Set_def)
qed simp

lemma set_texts:
  assumes "flag_texts r v = Some ts" and "distinct (map (\<lambda>m. to_lower (CLIValue m)) (reg_mappings r))"
    and "zero_of fl (type_of v) = Some z"
  shows "fold_res (set_text fl r) ts z = Inr v"
proof -
  have slices: "fold_res StringSliceValue_Set ss [] = Inr ss" "fold_res BoolSliceValue_Set (map FormatBool bs) [] = Inr bs"
    "fold_res Int32SliceValue_Set (map (\<lambda>v. Int32Value_String (Some v)) js) [] = Inr js"
    "fold_res Int64SliceValue_Set (map (\<lambda>v. Int64Value_String (Some v)) ls) [] = Inr ls"
    "fold_res Uint32SliceValue_Set (map (\<lambda>v. Uint32Value_String (Some v)) us) [] = Inr us"
    "fold_res Uint64SliceValue_Set (map (\<lambda>v. Uint64Value_String (Some v)) ws) [] = Inr ws" for ss bs js ls us ws
    using string_slice.push_all[of ss "[]"]
    by (simp_all add: bool_slice.push_all int32_slice.push_all int64_slice.push_all uint32_slice.push_all uint64_slice.push_all)
  note lift = fold_set_text[OF set_text_cli_sums(5) slices(1)] fold_set_text[OF set_text_cli_sums(6) slices(2)]
    fold_set_text[OF set_text_cli_sums(7) slices(3)] fold_set_text[OF set_text_cli_sums(8) slices(4)]
    fold_set_text[OF set_text_cli_sums(9) slices(5)] fold_set_text[OF set_text_cli_sums(10) slices(6)]
  show ?thesis
    using assms
    by (cases "(r, v)" rule: flag_texts.cases)
      (auto simp: zero_of_def zero_values_def lift set_text_cli_sums int32_value.parse_show int64_value.parse_show
        uint32_value.parse_show uint64_value.parse_show set_text_def stored_def enum_texts_def EnumValue_Set_def enum_text_found
        fold_set_text[OF set_text_cli_sums(12) enum_slice_texts] split: if_splits)
qed

section \<open>Parsing uses of flags\<close>

definition flag_use :: "string \<Rightarrow> string \<Rightarrow> string" where
  "flag_use name txt = ''--'' @ name @ ''='' @ txt"

definition usable_name :: "string \<Rightarrow> bool" where
  [go_eval]: "usable_name n \<longleftrightarrow> n \<noteq> [] \<and> hd n \<noteq> CHR ''-'' \<and> CHR ''='' \<notin> set n"

lemma classify_use: "usable_name n \<Longrightarrow> classify_token (flag_use n txt) = FlagToken n (Some txt)"
  by (cases n)
    (auto simp: usable_name_def flag_use_def classify_token_def split_value_def index_byte_append split: option.splits)

lemma lookup_flag_reg:
  "distinct (map reg_name regs) \<Longrightarrow> r \<in> set regs \<Longrightarrow> lookup_flag (reg_name r) (map (reg_flag fl) regs) = Some (reg_flag fl r)"
  by (induction regs) (auto simp: reg_flag_def rev_image_eqI)

definition use_set :: "'f float_ops \<Rightarrow> flag_reg \<times> string \<Rightarrow> 'f flag_vars \<Rightarrow> goerr + 'f flag_vars" where
  "use_set fl u vars = (case set_variable fl (fst u) (snd u) vars of (None, vars') \<Rightarrow> Inr vars' | (Some e, vars') \<Rightarrow> Inl e)"

lemma parse_flag_uses:
  assumes "distinct (map reg_name regs)" and "\<forall>u \<in> set uses. fst u \<in> set regs \<and> usable_name (reg_name (fst u))"
    and "fold_res (use_set fl) uses vars = Inr vars'"
  shows "FlagSet_Parse (map (reg_flag fl) regs) (map (\<lambda>u. flag_use (reg_name (fst u)) (snd u)) uses) vars = (Inr [], vars')"
  using assms(2,3)
proof (induction uses arbitrary: vars)
  case Nil
  then show ?case by (simp add: FlagSet_Parse.simps)
next
  case (Cons u uses)
  then obtain v where v: "use_set fl u vars = Inr v" "fold_res (use_set fl) uses v = Inr vars'"
    by (auto split: sum.splits)
  then have s: "set_variable fl (fst u) (snd u) vars = (None, v)"
    by (auto simp: use_set_def split: prod.splits option.splits)
  have "parseOne (map (reg_flag fl) regs) (map (\<lambda>u. flag_use (reg_name (fst u)) (snd u)) (u # uses)) vars
      = Seen (map (\<lambda>u. flag_use (reg_name (fst u)) (snd u)) uses) v"
    using Cons.prems(1) s lookup_flag_reg[OF assms(1), of "fst u" fl]
    by (simp add: classify_use parse_known_def after_set_def set_flag_def reg_flag_def)
  with Cons.IH[OF _ v(2)] Cons.prems(1) show ?case by (subst FlagSet_Parse.simps) simp
qed

lemma fold_one_flag:
  assumes "reg_var r = Some x" and "map_of pointee (reg_call r) = Some (type_of v0)"
    and "vars x = Some v0" and "fold_res (set_text fl r) ts v0 = Inr v"
  shows "fold_res (use_set fl) (map (Pair r) ts) vars = Inr (vars(x \<mapsto> v))"
  using assms(2-4)
proof (induction ts arbitrary: v0 vars)
  case Nil
  then show ?case by auto
next
  case (Cons t ts)
  then obtain v1 where v1: "set_text fl r t v0 = Inr v1" "fold_res (set_text fl r) ts v1 = Inr v"
    by (auto split: sum.splits)
  then have s: "value_Set fl r t v0 = (None, v1)" by (auto simp: set_text_def split: prod.splits option.splits)
  have ty: "type_of v1 = type_of v0" using value_Set_type[of fl r t v0] s by simp
  have u: "use_set fl (r, t) vars = Inr (vars(x \<mapsto> v1))"
    using Cons.prems s assms(1) by (simp add: use_set_def set_variable_def)
  have "fold_res (use_set fl) (map (Pair r) ts) (vars(x \<mapsto> v1)) = Inr ((vars(x \<mapsto> v1))(x \<mapsto> v))"
    by (rule Cons.IH[where ?v0.0 = v1]) (use Cons.prems(1) ty v1(2) in simp_all)
  then show ?case unfolding fun_upd_upd by (simp only: list.map fold_res.simps u sum.case)
qed

lemma fold_all_flags:
  assumes "\<forall>(x, r, v, ts) \<in> set cs. \<exists>z. reg_var r = Some x \<and> map_of pointee (reg_call r) = Some (type_of z)
      \<and> vars x = Some z \<and> fold_res (set_text fl r) ts z = Inr v"
    and "distinct (map fst cs)"
  shows "fold_res (use_set fl) (concat (map (\<lambda>(x, r, v, ts). map (Pair r) ts) cs)) vars
    = Inr (vars ++ map_of (map (\<lambda>(x, r, v, ts). (x, v)) cs))"
  using assms
proof (induction cs arbitrary: vars)
  case (Cons c cs)
  obtain x r v ts where c: "c = (x, r, v, ts)" by (cases c)
  from Cons.prems(1) c obtain z where z: "reg_var r = Some x" "map_of pointee (reg_call r) = Some (type_of z)"
    "vars x = Some z" "fold_res (set_text fl r) ts z = Inr v" by auto
  have "x \<notin> fst ` set cs" using Cons.prems(2) c by simp
  then have "\<forall>(y, r, v, ts) \<in> set cs. \<exists>z. reg_var r = Some y \<and> map_of pointee (reg_call r) = Some (type_of z)
      \<and> (vars(x \<mapsto> v')) y = Some z \<and> fold_res (set_text fl r) ts z = Inr v" for v'
    using Cons.prems(1) by (force simp: fun_upd_def)
  then have IH: "fold_res (use_set fl) (concat (map (\<lambda>(x, r, v, ts). map (Pair r) ts) cs)) (vars(x \<mapsto> v))
      = Inr ((vars(x \<mapsto> v)) ++ map_of (map (\<lambda>(x, r, v, ts). (x, v)) cs))"
    using Cons.prems(2) by (intro Cons.IH) auto
  have "fst ` set (map (\<lambda>(x, r, v, ts). (x, v)) cs) = fst ` set cs" by force
  then have "map_of (map (\<lambda>(x, r, v, ts). (x, v)) cs) x = None"
    using \<open>x \<notin> fst ` set cs\<close> by (simp only: map_of_eq_None_iff simp_thms)
  then have "(vars(x \<mapsto> v)) ++ map_of (map (\<lambda>(x, r, v, ts). (x, v)) cs)
      = vars ++ (map_of (map (\<lambda>(x, r, v, ts). (x, v)) cs))(x \<mapsto> v)"
    by (auto simp: map_add_def fun_eq_iff split: option.splits)
  with IH fold_one_flag[where vars = vars, OF z] show ?case
    by (simp add: c fold_res_append) (simp add: fun_eq_iff map_add_def)
qed simp

section \<open>Requests as command lines\<close>

text \<open>The value a field's variable gives its field, the texts of a value of it, and a whole request as arguments.\<close>

definition go_value_of :: "proto_field \<Rightarrow> 'f flag_val \<Rightarrow> 'f go_value" where
  [go_eval]: "go_value_of field v =
     (if pf_Kind field = EnumKind then
        (case v of FInt32 n \<Rightarrow> GEnum (en_GoName (field_enum field)) n
                 | FInt32s ns \<Rightarrow> GEnums (en_GoName (field_enum field)) ns
                 | _ \<Rightarrow> GVar v)
      else GVar v)"

definition field_texts :: "proto_field \<Rightarrow> 'f flag_val \<Rightarrow> string list option" where
  [go_eval]: "field_texts field v =
     (case emitFlagVar field of
        None \<Rightarrow> None
      | Some (d, r) \<Rightarrow> if type_of v = snd d then flag_texts r v else None)"

definition command_line :: "proto_message \<Rightarrow> (string \<Rightarrow> 'f flag_val) \<Rightarrow> string list" where
  [go_eval]: "command_line msg vals =
     concat (map (\<lambda>field. map (flag_use (fieldToFlagName (pf_Name field))) (the (field_texts field (vals (pf_Name field)))))
       (pm_Fields msg))"

lemma emitFlagVar_mappings:
  assumes "emitFlagVar field = Some (d, r)"
  shows "distinct (map (\<lambda>m. to_lower (CLIValue m)) (reg_mappings r))"
proof -
  have ok: "distinct (map (\<lambda>m. to_lower (CLIValue m)) ms)" if "enumCLIValues t vs = Inr ms" for t vs ms
    using that by (auto simp: enumCLIValues_ok enum_names_def o_def)
  then have "distinct (map (\<lambda>m. to_lower (CLIValue m)) (emitEnumMappingEntries en))" for en
    by (simp add: emitEnumMappingEntries_def split: sum.splits)
  with assms show ?thesis
    by (auto simp: emitFlagVar_def Let_def emitEnumSliceFlagVar_def emitEnumFlagVar_def emitFsVar_def emitFlagReg_def
        split: option.splits if_splits)
qed

lemma enum_flag_type:
  assumes "emitFlagVar field = Some (d, r)" and "pf_Kind field = EnumKind" and "\<not> pf_IsMap field"
  shows "snd d = (if pf_IsList field then ''[]int32'' else ''int32'')"
  using assms by (auto simp: emitFlagVar_def emitEnumSliceFlagVar_def emitEnumFlagVar_def Let_def json_flag_kind_def split: if_splits)

lemma type_of_int32:
  "type_of v = ''int32'' \<longleftrightarrow> (\<exists>n. v = FInt32 n)" "type_of v = ''[]int32'' \<longleftrightarrow> (\<exists>ns. v = FInt32s ns)"
  by (cases v; simp)+

lemma fst_emitFieldAssignment [simp]: "fst (emitFieldAssignment field x) = pf_GoName field"
  by (simp add: emitFieldAssignment_def)

lemma eval_own_field:
  assumes "emitFlagVar field = Some (d, r)" and "\<not> isPostAssignField field" and "type_of v = snd d" and "vars x = Some v"
  shows "eval_expr vars (snd (emitFieldAssignment field x)) = Some (go_value_of field v)"
proof (cases "pf_Kind field = EnumKind")
  case True
  have "\<not> pf_IsMap field" using assms(2) by (simp add: isPostAssignField_def isJSONStringFlag_def Let_def split: if_splits)
  with enum_flag_type[OF assms(1) True] True assms(3,4) show ?thesis
    by (auto simp: emitFieldAssignment_def go_value_of_def type_of_int32)
qed (use assms(4) in \<open>simp add: emitFieldAssignment_def go_value_of_def\<close>)

definition flat_fields :: "proto_message \<Rightarrow> bool" where
  [go_eval]: "flat_fields msg \<longleftrightarrow> list_all (\<lambda>field. \<not> isPostAssignField field) (pm_Fields msg)"

definition usable_fields :: "proto_message \<Rightarrow> bool" where
  [go_eval]: "usable_fields msg \<longleftrightarrow> distinct (map pf_Name (pm_Fields msg)) \<and> distinct (map pf_GoName (pm_Fields msg))
     \<and> list_all (\<lambda>field. CHR ''-'' \<notin> set (pf_Name field) \<and> usable_name (fieldToFlagName (pf_Name field))) (pm_Fields msg)"

lemma own_fields_none [simp]: "own_fields msg [] = pm_Fields msg"
  by (simp add: own_fields_def)

lemma map_filter_all_Some: "(\<And>x. x \<in> set xs \<Longrightarrow> f x = Some (g x)) \<Longrightarrow> List.map_filter f xs = map g xs"
  by (induction xs) (auto simp: map_filter_simps)

lemma map_filter_all_None: "(\<And>x. x \<in> set xs \<Longrightarrow> f x = None) \<Longrightarrow> List.map_filter f xs = []"
  by (induction xs) (auto simp: map_filter_simps)

lemma flat_request_fields:
  assumes "flat_fields msg"
  shows "emitRequestFields msg [] = map FieldItem (map (\<lambda>field. emitFieldAssignment field (''flag_'' @ pf_Name field)) (pm_Fields msg))"
    and "emitRequestPostAssign msg [] = []"
proof -
  show "emitRequestFields msg [] = map FieldItem (map (\<lambda>field. emitFieldAssignment field (''flag_'' @ pf_Name field)) (pm_Fields msg))"
    using assms unfolding emitRequestFields_def map_map
    by (intro map_filter_all_Some) (auto simp: flat_fields_def list_all_iff)
  show "emitRequestPostAssign msg [] = []"
    using assms unfolding emitRequestPostAssign_def
    by (simp add: map_filter_all_None flat_fields_def list_all_iff)
qed

text \<open>The variable and the registration emitted for a field.\<close>

definition field_decl :: "proto_field \<Rightarrow> var_decl" where
  "field_decl field = fst (the (emitFlagVar field))"

definition field_reg :: "proto_field \<Rightarrow> flag_reg" where
  "field_reg field = snd (the (emitFlagVar field))"

definition field_var :: "proto_field \<Rightarrow> string" where
  "field_var field = ''flag_'' @ pf_Name field"

lemma field_code:
  assumes "field_texts field v = Some ts"
  shows "emitFlagVar field = Some (field_decl field, field_reg field)" and "type_of v = snd (field_decl field)"
    and "flag_texts (field_reg field) v = Some ts" and "field_decl field = (field_var field, type_of v)"
    and "reg_var (field_reg field) = Some (field_var field)" and "map_of pointee (reg_call (field_reg field)) = Some (type_of v)"
    and "reg_name (field_reg field) = fieldToFlagName (pf_Name field)"
proof -
  obtain d r where dr: "emitFlagVar field = Some (d, r)" using assms by (auto simp: field_texts_def split: option.splits)
  moreover from this assms have "type_of v = snd d" by (auto simp: field_texts_def split: if_splits)
  moreover have "fst d = field_var field" "reg_var r = Some (field_var field)" "map_of pointee (reg_call r) = Some (snd d)"
      "reg_name r = fieldToFlagName (pf_Name field)"
    using emitFlagVar_typed[of field "fst d" "snd d" r] dr by (simp_all add: field_var_def)
  ultimately show "emitFlagVar field = Some (field_decl field, field_reg field)" "type_of v = snd (field_decl field)"
      "flag_texts (field_reg field) v = Some ts" "field_decl field = (field_var field, type_of v)"
      "reg_var (field_reg field) = Some (field_var field)" "map_of pointee (reg_call (field_reg field)) = Some (type_of v)"
      "reg_name (field_reg field) = fieldToFlagName (pf_Name field)"
    using assms by (simp_all add: field_decl_def field_reg_def field_texts_def prod_eq_iff)
qed

lemma field_set_texts:
  assumes "field_texts field v = Some ts"
  shows "\<exists>z. zero_of fl (type_of v) = Some z \<and> type_of z = type_of v \<and> fold_res (set_text fl (field_reg field)) ts z = Inr v"
  using field_code[OF assms] pointee_zero[of "reg_call (field_reg field)" "type_of v" fl]
    set_texts[OF _ emitFlagVar_mappings] by metis

lemma flag_code_of_fields:
  assumes "\<forall>field \<in> set fs. field_texts field (vals (pf_Name field)) \<noteq> None" and "pm_Fields msg = fs"
  shows "emitFlagVars msg [] = map (\<lambda>field. (field_decl field, field_reg field)) fs"
  unfolding emitFlagVars_def own_fields_none assms(2)
  using assms(1) field_code(1) by (intro map_filter_all_Some) blast

lemma flag_uses_fold:
  assumes "distinct (map pf_Name fs)" and "\<forall>field \<in> set fs. field_texts field (vals (pf_Name field)) = Some (tx field)"
  shows "\<exists>vars. fold_res (use_set fl) (concat (map (\<lambda>field. map (Pair (field_reg field)) (tx field)) fs))
      (declare_vars fl (map field_decl fs)) = Inr vars
    \<and> (\<forall>field \<in> set fs. vars (field_var field) = Some (vals (pf_Name field)))"
proof -
  let ?v0 = "declare_vars fl (map field_decl fs)"
  define cs where "cs = map (\<lambda>field. (field_var field, field_reg field, vals (pf_Name field), tx field)) fs"
  have inj: "distinct (map field_var fs)" using assms(1) by (auto simp: field_var_def distinct_map inj_on_def)
  then have xd: "distinct (map fst cs)" by (simp add: cs_def o_def)
  have "fst (field_decl field) = field_var field" if "field \<in> set fs" for field
    using field_code(4) assms(2) that by (metis fst_conv)
  then have "map fst (map field_decl fs) = map field_var fs" by simp
  with inj have dd: "distinct (map fst (map field_decl fs))" by (simp only:)
  have "\<exists>z. reg_var (field_reg field) = Some (field_var field) \<and> map_of pointee (reg_call (field_reg field)) = Some (type_of z)
      \<and> ?v0 (field_var field) = Some z \<and> fold_res (set_text fl (field_reg field)) (tx field) z = Inr (vals (pf_Name field))"
    if f: "field \<in> set fs" for field
  proof -
    from assms(2) f have t: "field_texts field (vals (pf_Name field)) = Some (tx field)" by blast
    have "map_of (map field_decl fs) (field_var field) = Some (type_of (vals (pf_Name field)))"
      by (rule map_of_is_SomeI[OF dd]) (use f field_code(4)[OF t] in force)
    moreover obtain z where "zero_of fl (type_of (vals (pf_Name field))) = Some z" "type_of z = type_of (vals (pf_Name field))"
        "fold_res (set_text fl (field_reg field)) (tx field) z = Inr (vals (pf_Name field))"
      using field_set_texts[OF t] by blast
    ultimately show ?thesis using field_code(5,6)[OF t] by (intro exI[of _ z]) (simp add: declare_vars_def)
  qed
  then have "fold_res (use_set fl) (concat (map (\<lambda>(x, r, v, ts). map (Pair r) ts) cs)) ?v0
      = Inr (?v0 ++ map_of (map (\<lambda>(x, r, v, ts). (x, v)) cs))"
    by (intro fold_all_flags xd) (auto simp: cs_def)
  moreover have "map_of (map (\<lambda>(x, r, v, ts). (x, v)) cs) (field_var field) = Some (vals (pf_Name field))"
    if "field \<in> set fs" for field
    by (rule map_of_is_SomeI) (use xd that in \<open>auto simp: cs_def o_def\<close>)
  ultimately show ?thesis by (auto simp: cs_def o_def)
qed

lemma command_line_parsed:
  assumes "usable_fields msg" and "\<forall>field \<in> set (pm_Fields msg). field_texts field (vals (pf_Name field)) \<noteq> None"
  shows "\<exists>flags vars. new_flagset fl (map snd (emitFlagVars msg [])) = Some flags
    \<and> FlagSet_Parse flags (command_line msg vals) (declare_vars fl (map fst (emitFlagVars msg []))) = (Inr [], vars)
    \<and> (\<forall>field \<in> set (pm_Fields msg). vars (field_var field) = Some (vals (pf_Name field)))"
proof -
  let ?fs = "pm_Fields msg"
  define tx where "tx = (\<lambda>field. the (field_texts field (vals (pf_Name field))))"
  have t: "field_texts field (vals (pf_Name field)) = Some (tx field)" if "field \<in> set ?fs" for field
    using assms(2) that by (auto simp: tx_def)
  have names: "distinct (map pf_Name ?fs)" "\<forall>field \<in> set ?fs. CHR ''-'' \<notin> set (pf_Name field)"
    using assms(1) by (auto simp: usable_fields_def list_all_iff)
  have code: "emitFlagVars msg [] = map (\<lambda>field. (field_decl field, field_reg field)) ?fs"
    by (rule flag_code_of_fields[OF assms(2) refl])
  have rn: "reg_name (field_reg field) = fieldToFlagName (pf_Name field)" if "field \<in> set ?fs" for field
    using field_code(7)[OF t[OF that]] .
  have rd: "distinct (map reg_name (map field_reg ?fs))"
    using flag_names_distinct[OF names] rn by (simp add: o_def cong: map_cong)
  obtain vars where fold: "fold_res (use_set fl) (concat (map (\<lambda>field. map (Pair (field_reg field)) (tx field)) ?fs))
      (declare_vars fl (map field_decl ?fs)) = Inr vars"
    and vars: "\<forall>field \<in> set ?fs. vars (field_var field) = Some (vals (pf_Name field))"
    using flag_uses_fold[OF names(1), of vals tx fl] t by blast
  have "\<forall>u \<in> set (concat (map (\<lambda>field. map (Pair (field_reg field)) (tx field)) ?fs)).
      fst u \<in> set (map field_reg ?fs) \<and> usable_name (reg_name (fst u))"
    using assms(1) rn by (auto simp: usable_fields_def list_all_iff)
  from parse_flag_uses[OF rd this fold]
  have "FlagSet_Parse (map (reg_flag fl) (map field_reg ?fs)) (command_line msg vals) (declare_vars fl (map field_decl ?fs)) = (Inr [], vars)"
    using rn by (simp add: command_line_def map_concat o_def tx_def cong: map_cong)
  with vars rd code show ?thesis by (simp add: new_flagset_def o_def)
qed

text \<open>The request that gives every field its value.\<close>

definition request_of :: "proto_message \<Rightarrow> (string \<Rightarrow> 'f flag_val) \<Rightarrow> 'f message" where
  [go_eval]: "request_of msg vals = map_of (map (\<lambda>field. (pf_GoName field, go_value_of field (vals (pf_Name field)))) (pm_Fields msg))"

text \<open>
  A request is what its flags say: for a message of scalars, enums and lists of them, whatever the values of its
  fields (floats apart, enum values among those declared), the command line that gives each field its value is
  parsed to the request with exactly these values.
\<close>

lemma request_parsed:
  assumes "usable_fields msg" and "flat_fields msg"
    and "\<forall>field \<in> set (pm_Fields msg). field_texts field (vals (pf_Name field)) \<noteq> None"
    and "JSONPayloadFromContext ctx = None"
  shows "emitRequestParsing fl ops msg [] ctx (command_line msg vals) Map.empty = Inr (request_of msg vals)"
proof -
  let ?fs = "pm_Fields msg"
  obtain flags vars where parse: "new_flagset fl (map snd (emitFlagVars msg [])) = Some flags"
      "FlagSet_Parse flags (command_line msg vals) (declare_vars fl (map fst (emitFlagVars msg []))) = (Inr [], vars)"
    and vars: "\<forall>field \<in> set ?fs. vars (field_var field) = Some (vals (pf_Name field))"
    using command_line_parsed[OF assms(1,3)] by blast
  have each: "eval_expr vars (snd (emitFieldAssignment field (''flag_'' @ pf_Name field))) = Some (go_value_of field (vals (pf_Name field)))"
    if f: "field \<in> set ?fs" for field
  proof -
    obtain ts where t: "field_texts field (vals (pf_Name field)) = Some ts" using assms(3) f by blast
    show ?thesis
      using assms(2) f vars by (intro eval_own_field[OF field_code(1)[OF t] _ field_code(2)[OF t]])
        (auto simp: flat_fields_def list_all_iff field_var_def)
  qed
  have "eval_items vars (map FieldItem (map (\<lambda>field. emitFieldAssignment field (''flag_'' @ pf_Name field)) fs))
      = map_of (map (\<lambda>field. (pf_GoName field, go_value_of field (vals (pf_Name field)))) fs)" if "set fs \<subseteq> set ?fs" for fs
    using that
  proof (induction fs)
    case (Cons f fs)
    obtain e where e: "emitFieldAssignment f (''flag_'' @ pf_Name f) = (pf_GoName f, e)"
      by (metis fst_emitFieldAssignment prod.collapse)
    with Cons each[of f] show ?case by (simp del: append.simps)
  qed simp
  from this[of ?fs] have "eval_items vars (emitRequestFields msg []) = request_of msg vals"
    by (simp only: flat_request_fields(1)[OF assms(2)] request_of_def order_refl)
  with assms(4) parse show ?thesis
    by (simp add: emitRequestParsing_def request_from_flags_def flat_request_fields[OF assms(2)])
qed

end
