(* ===== verification/CodegenRun.thy ===== *)
theory CodegenRun imports CodegenRequest Interceptor begin

text \<open>
  The bodies of generated commands, from \<open>internal/codegen/cli.go\<close>, with the stream adapters of
  \<open>transport/cli/stream.go\<close>: the call of the handler through the interceptors, the output of responses and the
  reading of requests from standard input, one JSON value a line. Each definition does what the emitter of
  its name prints.
\<close>

section \<open>Scanning lines\<close>

text \<open>
  \<open>bufio.Scanner\<close> with its default split function and buffer of 64 KiB, on a reader that delivers bytes and
  then an error (\<open>EOF\<close> at the end of the input). A line that does not fit the buffer fails; a later call
  then yields what the buffer held.
\<close>

type_synonym reader = "string \<times> goerr"

record scanner =
  sc_rest :: string
  sc_final :: goerr
  sc_err :: "goerr option"

definition NewScanner :: "reader \<Rightarrow> scanner" where
  [go_std]: "NewScanner r = \<lparr>sc_rest = fst r, sc_final = snd r, sc_err = None\<rparr>"

definition max_token :: nat where [go_std]: "max_token = 65536"

definition ErrTooLong :: goerr where [go_std]: "ErrTooLong = Sentinel ''bufio.Scanner: token too long''"

definition drop_cr :: "string \<Rightarrow> string" where
  [go_std]: "drop_cr s = (if s \<noteq> [] \<and> last s = CHR 0x0D then butlast s else s)"

definition scan_rest :: "scanner \<Rightarrow> string option \<times> scanner" where
  [go_std]: "scan_rest sc =
     (if sc_rest sc = [] then (None, sc) else (Some (drop_cr (sc_rest sc)), sc\<lparr>sc_rest := []\<rparr>))"

definition scan_too_long :: "scanner \<Rightarrow> string option \<times> scanner" where
  [go_std]: "scan_too_long sc = (None, sc\<lparr>sc_rest := take max_token (sc_rest sc), sc_err := Some ErrTooLong\<rparr>)"

definition Scan :: "scanner \<Rightarrow> string option \<times> scanner" where
  [go_std]: "Scan sc =
     (case sc_err sc of
        Some e \<Rightarrow> scan_rest sc
      | None \<Rightarrow>
          (case index_byte (sc_rest sc) (CHR 0x0A) of
             Some i \<Rightarrow>
               if i < max_token then (Some (drop_cr (take i (sc_rest sc))), sc\<lparr>sc_rest := drop (Suc i) (sc_rest sc)\<rparr>)
               else scan_too_long sc
           | None \<Rightarrow>
               if length (sc_rest sc) < max_token then scan_rest (sc\<lparr>sc_err := Some (sc_final sc)\<rparr>) else scan_too_long sc))"

definition Scanner_Err :: "scanner \<Rightarrow> goerr option" where
  [go_std]: "Scanner_Err sc = (if sc_err sc = Some EOF then None else sc_err sc)"

section \<open>Adapters\<close>

definition NewStreamWriter :: "'c \<Rightarrow> ('v response option \<Rightarrow> 's \<Rightarrow> goerr option \<times> 's) \<Rightarrow> ('c, 'v, 's) server_stream" where
  [go_eval]: "NewStreamWriter ctx write_fn = \<lparr>ss_Context = ctx, ss_Send = write_fn\<rparr>"

definition NewStreamReader :: "'c \<Rightarrow> ('s \<Rightarrow> (goerr + 'v request option) \<times> 's) \<Rightarrow> ('c, 'v, 's) client_stream" where
  [go_eval]: "NewStreamReader ctx read_fn = \<lparr>cl_Context = ctx, cl_Receive = read_fn\<rparr>"

definition NewBidiReadWriter ::
  "'c \<Rightarrow> ('s \<Rightarrow> (goerr + 'v request option) \<times> 's) \<Rightarrow> ('v response option \<Rightarrow> 's \<Rightarrow> goerr option \<times> 's)
   \<Rightarrow> ('c, 'v, 's) bidi_stream" where
  [go_eval]: "NewBidiReadWriter ctx read_fn write_fn = \<lparr>bs_Context = ctx, bs_Receive = read_fn, bs_Send = write_fn\<rparr>"

section \<open>The state of a command\<close>

text \<open>
  The variables of the function that built the runner, what was written to standard output, the scanner of the
  running command, and the state of the handlers.
\<close>

record ('f, 'u) cli_world =
  cw_vars :: "'f flag_vars"
  cw_stdout :: string
  cw_scan :: scanner
  cw_user :: 'u

text \<open>
  The service: its handlers by method name. \<open>'i\<close> names interceptors, \<open>deref\<close> gives the one a name in the
  context stands for.
\<close>

type_synonym 'i run_context = "('i, reader) cli_ctx"
type_synonym ('f, 'u) run_state_of = "('f message, ('f, 'u) cli_world) conn_state"
type_synonym ('i, 'f, 'u) chain_of = "'i \<Rightarrow> ('i run_context, 'f message, ('f, 'u) run_state_of) interceptor option"

record ('i, 'f, 'u) svc_handler =
  h_Unary :: "string \<Rightarrow> ('i run_context, 'f message, ('f, 'u) cli_world) unary_handler"
  h_ServerStream :: "string \<Rightarrow> ('i run_context, 'f message, ('f, 'u) run_state_of) server_stream_handler"
  h_ClientStream :: "string \<Rightarrow> ('i run_context, 'f message, ('f, 'u) run_state_of) client_stream_handler"
  h_Bidi :: "string \<Rightarrow> ('i run_context, 'f message, ('f, 'u) run_state_of) bidi_handler"

definition chain_of_ctx :: "('i, 'f, 'u) chain_of \<Rightarrow> 'i run_context
   \<Rightarrow> ('i run_context, 'f message, ('f, 'u) run_state_of) interceptor option list" where
  [go_eval]: "chain_of_ctx deref ctx = map deref (InterceptorsFromContext ctx)"

definition cli_spec :: "string \<Rightarrow> string \<Rightarrow> call_spec" where
  [go_eval]: "cli_spec procedure shape = \<lparr>cs_Procedure = procedure, cs_Transport = TransportCLI, cs_Shape = shape\<rparr>"

definition cli_request :: "string \<Rightarrow> 'v \<Rightarrow> 'v request" where
  [go_eval]: "cli_request procedure req = \<lparr>req_Msg = Some req, req_Meta = meta_zero\<lparr>meta_Procedure := procedure\<rparr>\<rparr>"

section \<open>Output\<close>

text \<open>Write one response; \<open>missing\<close> is the error for a nil response or message.\<close>

definition write_response ::
  "'f proto_ops \<Rightarrow> 'i run_context \<Rightarrow> string \<Rightarrow> 'f message response option \<Rightarrow> ('f, 'u) cli_world
   \<Rightarrow> goerr option \<times> ('f, 'u) cli_world" where
  [go_eval]: "write_response ops ctx missing resp w =
     (case Option.bind resp resp_Msg of
        None \<Rightarrow> (Some (NewError CodeInternal missing), w)
      | Some m \<Rightarrow>
          (case po_Marshal ops (OutputFormatFromContext ctx \<noteq> OutputJSON) m of
             Inl err \<Rightarrow> (Some err, w)
           | Inr out \<Rightarrow> (None, w\<lparr>cw_stdout := cw_stdout w @ out @ newline\<rparr>)))"

definition finish_call ::
  "'f proto_ops \<Rightarrow> 'i run_context \<Rightarrow> (goerr + 'f message response option) \<times> ('f, 'u) cli_world
   \<Rightarrow> goerr option \<times> ('f, 'u) cli_world" where
  [go_eval]: "finish_call ops ctx out =
     (case out of
        (Inl err, w) \<Rightarrow> (Some err, w)
      | (Inr resp, w) \<Rightarrow> write_response ops ctx ''handler returned nil response'' resp w)"

section \<open>Bodies\<close>

text \<open>\<open>tq\<close> and \<open>ts\<close> are the types of the method's request and response.\<close>

definition emitHandlerCall ::
  "'f proto_ops \<Rightarrow> ('i, 'f, 'u) chain_of \<Rightarrow> string \<Rightarrow> string \<Rightarrow> ('i, 'f, 'u) svc_handler \<Rightarrow> string \<Rightarrow> string
   \<Rightarrow> 'i run_context \<Rightarrow> 'f message \<Rightarrow> ('f, 'u) cli_world \<Rightarrow> goerr option \<times> ('f, 'u) cli_world" where
  [go_eval]: "emitHandlerCall ops deref tq ts h name procedure ctx req w =
     finish_call ops ctx
       (InvokeUnary tq ts ctx (cli_spec procedure CallShapeUnary) (Some (cli_request procedure req)) (h_Unary h name)
          (chain_of_ctx deref ctx) w)"

definition emitStreamingHandlerCall ::
  "'f proto_ops \<Rightarrow> ('i, 'f, 'u) chain_of \<Rightarrow> string \<Rightarrow> string \<Rightarrow> ('i, 'f, 'u) svc_handler \<Rightarrow> string \<Rightarrow> string
   \<Rightarrow> 'i run_context \<Rightarrow> 'f message \<Rightarrow> ('f, 'u) cli_world \<Rightarrow> goerr option \<times> ('f, 'u) cli_world" where
  [go_eval]: "emitStreamingHandlerCall ops deref tq ts h name procedure ctx req w =
     InvokeServerStream tq ts ctx (cli_spec procedure CallShapeServerStream) (Some (cli_request procedure req))
       (NewStreamWriter ctx (write_response ops ctx ''handler sent nil response'')) (h_ServerStream h name)
       (chain_of_ctx deref ctx) w"

definition emitStdinGuards :: "string \<Rightarrow> 'i run_context \<Rightarrow> string list \<Rightarrow> goerr option" where
  [go_eval]: "emitStdinGuards shape ctx args =
     (case JSONPayloadFromContext ctx of
        Some payload \<Rightarrow> Some (NewError CodeInvalidArgument (shape @ '' command reads from stdin; --json is not supported''))
      | None \<Rightarrow>
          if length args > 0
          then Some (NewError CodeInvalidArgument (shape @ '' command does not accept flags; pipe NDJSON on stdin''))
          else None)"

definition emitNDJSONReadCallback ::
  "'f proto_ops \<Rightarrow> string \<Rightarrow> ('f, 'u) cli_world \<Rightarrow> (goerr + 'f message request option) \<times> ('f, 'u) cli_world" where
  [go_eval]: "emitNDJSONReadCallback ops tq w =
     (case Scan (cw_scan w) of
        (None, sc) \<Rightarrow> (Inl (case Scanner_Err sc of Some err \<Rightarrow> err | None \<Rightarrow> EOF), w\<lparr>cw_scan := sc\<rparr>)
      | (Some line, sc) \<Rightarrow>
          (case po_Unmarshal ops False tq line of
             Inl err \<Rightarrow> (Inl (NewError CodeInvalidArgument (error_text err)), w\<lparr>cw_scan := sc\<rparr>)
           | Inr req \<Rightarrow> (Inr (Some \<lparr>req_Msg = Some req, req_Meta = meta_zero\<rparr>), w\<lparr>cw_scan := sc\<rparr>)))"

text \<open>\<open>os_stdin\<close> is the reader used when the context has none.\<close>

definition emitClientStreamBody ::
  "'f proto_ops \<Rightarrow> reader \<Rightarrow> ('i, 'f, 'u) chain_of \<Rightarrow> string \<Rightarrow> string \<Rightarrow> ('i, 'f, 'u) svc_handler \<Rightarrow> string \<Rightarrow> string
   \<Rightarrow> 'i run_context \<Rightarrow> string list \<Rightarrow> ('f, 'u) cli_world \<Rightarrow> goerr option \<times> ('f, 'u) cli_world" where
  [go_eval]: "emitClientStreamBody ops os_stdin deref tq ts h name procedure ctx args w =
     (case emitStdinGuards ''client-stream'' ctx args of
        Some err \<Rightarrow> (Some err, w)
      | None \<Rightarrow>
          finish_call ops ctx
            (InvokeClientStream tq ts ctx (cli_spec procedure CallShapeClientStream)
               (NewStreamReader ctx (emitNDJSONReadCallback ops tq)) (h_ClientStream h name) (chain_of_ctx deref ctx)
               (w\<lparr>cw_scan := NewScanner (StdinFromContext os_stdin ctx)\<rparr>)))"

definition emitBidiStreamBody ::
  "'f proto_ops \<Rightarrow> reader \<Rightarrow> ('i, 'f, 'u) chain_of \<Rightarrow> string \<Rightarrow> string \<Rightarrow> ('i, 'f, 'u) svc_handler \<Rightarrow> string \<Rightarrow> string
   \<Rightarrow> 'i run_context \<Rightarrow> string list \<Rightarrow> ('f, 'u) cli_world \<Rightarrow> goerr option \<times> ('f, 'u) cli_world" where
  [go_eval]: "emitBidiStreamBody ops os_stdin deref tq ts h name procedure ctx args w =
     (case emitStdinGuards ''bidi'' ctx args of
        Some err \<Rightarrow> (Some err, w)
      | None \<Rightarrow>
          InvokeBidi tq ts ctx (cli_spec procedure CallShapeBidi)
            (NewBidiReadWriter ctx (emitNDJSONReadCallback ops tq) (write_response ops ctx ''handler sent nil response''))
            (h_Bidi h name) (chain_of_ctx deref ctx)
            (w\<lparr>cw_scan := NewScanner (StdinFromContext os_stdin ctx)\<rparr>))"

section \<open>Lines in order\<close>

definition clean_line :: "string \<Rightarrow> bool" where
  [go_eval]: "clean_line l \<longleftrightarrow> CHR 0x0A \<notin> set l \<and> length l < max_token \<and> (l = [] \<or> last l \<noteq> CHR 0x0D)"

definition decode_line :: "'f proto_ops \<Rightarrow> string \<Rightarrow> string \<Rightarrow> goerr + 'f message request option" where
  "decode_line ops tq line =
     (case po_Unmarshal ops False tq line of
        Inl err \<Rightarrow> Inl (NewError CodeInvalidArgument (error_text err))
      | Inr req \<Rightarrow> Inr (Some \<lparr>req_Msg = Some req, req_Meta = meta_zero\<rparr>))"

lemma Scan_line:
  assumes "clean_line l" and "sc_err sc = None" and "sc_rest sc = l @ newline @ r"
  shows "Scan sc = (Some l, sc\<lparr>sc_rest := r\<rparr>)"
proof -
  have "index_byte (l @ CHR 0x0A # r) (CHR 0x0A) = Some (length l)"
    using assms(1) by (intro index_byte_append) (simp add: clean_line_def)
  with assms show ?thesis by (auto simp: Scan_def newline_def clean_line_def drop_cr_def)
qed

lemma Scan_end:
  assumes "sc_err sc = None \<or> sc_err sc = Some (sc_final sc)" and "sc_rest sc = []"
  shows "Scan sc = (None, sc\<lparr>sc_err := Some (sc_final sc)\<rparr>)"
  using assms by (auto simp: Scan_def scan_rest_def max_token_def)

text \<open>The scanner still has these lines before it ends with this error.\<close>

definition scan_holds :: "scanner \<Rightarrow> string list \<Rightarrow> goerr \<Rightarrow> bool" where
  "scan_holds sc ls e \<longleftrightarrow> sc_final sc = e \<and> sc_rest sc = concat (map (\<lambda>l. l @ newline) ls)
     \<and> (sc_err sc = None \<or> sc_err sc = Some e \<and> ls = [])"

lemma read_line:
  assumes "scan_holds (cw_scan w) (l # ls) e" and "clean_line l"
  shows "\<exists>sc. emitNDJSONReadCallback ops tq w = (decode_line ops tq l, w\<lparr>cw_scan := sc\<rparr>) \<and> scan_holds sc ls e"
  using assms(1) Scan_line[OF assms(2), of "cw_scan w"]
  by (auto simp: scan_holds_def emitNDJSONReadCallback_def decode_line_def split: sum.splits)

lemma read_end:
  assumes "scan_holds (cw_scan w) [] e"
  shows "\<exists>sc. emitNDJSONReadCallback ops tq w = (Inl e, w\<lparr>cw_scan := sc\<rparr>) \<and> scan_holds sc [] e"
  using assms Scan_end[of "cw_scan w"]
  by (auto simp: scan_holds_def emitNDJSONReadCallback_def Scanner_Err_def)

text \<open>A program that receives the given inputs, and after them the last one for good; what it sends is dropped.\<close>

primrec feed :: "('v, 'r) prog \<Rightarrow> (goerr + 'v request option) list \<Rightarrow> goerr + 'v request option \<Rightarrow> 'r" where
  "feed (Return r) xs end = r"
| "feed (Recv k) xs end = (case xs of [] \<Rightarrow> feed (k end) [] end | x # xs' \<Rightarrow> feed (k x) xs' end)"
| "feed (Send m k) xs end = feed (k None) xs end"

lemma run_feed:
  assumes "scan_holds (cw_scan w) ls e" and "\<forall>l \<in> set ls. clean_line l"
  shows "\<exists>sc. run_prog (emitNDJSONReadCallback ops tq) (\<lambda>m w. (None, w)) p w
    = (feed p (map (decode_line ops tq) ls) (Inl e), w\<lparr>cw_scan := sc\<rparr>)"
  using assms
proof (induction p arbitrary: w ls)
  case (Return r)
  have "w = w\<lparr>cw_scan := cw_scan w\<rparr>" by simp
  then show ?case by (intro exI[of _ "cw_scan w"]) simp
next
  case (Recv k)
  show ?case
  proof (cases ls)
    case Nil
    with read_end[of w e ops tq] Recv.prems obtain sc where
      "emitNDJSONReadCallback ops tq w = (Inl e, w\<lparr>cw_scan := sc\<rparr>)" "scan_holds sc [] e" by auto
    with Recv.IH[of "k (Inl e)" "w\<lparr>cw_scan := sc\<rparr>" "[]"] Nil show ?thesis by auto
  next
    case (Cons l ls')
    with read_line[of w l ls' e ops tq] Recv.prems obtain sc where
      "emitNDJSONReadCallback ops tq w = (decode_line ops tq l, w\<lparr>cw_scan := sc\<rparr>)" "scan_holds sc ls' e" by auto
    with Recv.IH[of "k (decode_line ops tq l)" "w\<lparr>cw_scan := sc\<rparr>" ls'] Recv.prems(2) Cons show ?thesis by auto
  qed
next
  case (Send m k)
  with Send.IH[of "k None" w ls] show ?case by simp
qed

section \<open>What a command writes\<close>

text \<open>Standard output grew by whole encoded messages, each on its own line.\<close>

definition wrote_messages :: "'f proto_ops \<Rightarrow> bool \<Rightarrow> ('f, 'u) cli_world \<Rightarrow> ('f, 'u) cli_world \<Rightarrow> bool" where
  "wrote_messages ops multiline w w' \<longleftrightarrow>
     (\<exists>outs. (\<forall>out \<in> set outs. \<exists>m. po_Marshal ops multiline m = Inr out)
       \<and> cw_stdout w' = cw_stdout w @ concat (map (\<lambda>out. out @ newline) outs))"

lemma wrote_refl: "cw_stdout w' = cw_stdout w \<Longrightarrow> wrote_messages ops b w w'"
  unfolding wrote_messages_def by (rule exI[of _ "[]"]) simp

lemma wrote_trans: "wrote_messages ops b w v \<Longrightarrow> wrote_messages ops b v u \<Longrightarrow> wrote_messages ops b w u"
  unfolding wrote_messages_def
proof (elim exE conjE)
  fix xs ys
  assume "\<forall>out \<in> set xs. \<exists>m. po_Marshal ops b m = Inr out" "cw_stdout v = cw_stdout w @ concat (map (\<lambda>out. out @ newline) xs)"
    "\<forall>out \<in> set ys. \<exists>m. po_Marshal ops b m = Inr out" "cw_stdout u = cw_stdout v @ concat (map (\<lambda>out. out @ newline) ys)"
  then show "\<exists>outs. (\<forall>out \<in> set outs. \<exists>m. po_Marshal ops b m = Inr out)
      \<and> cw_stdout u = cw_stdout w @ concat (map (\<lambda>out. out @ newline) outs)"
    by (intro exI[of _ "xs @ ys"]) auto
qed

lemma write_response_writes:
  "wrote_messages ops (OutputFormatFromContext ctx \<noteq> OutputJSON) w (snd (write_response ops ctx missing resp w))"
proof (cases "\<exists>m out. Option.bind resp resp_Msg = Some m \<and> po_Marshal ops (OutputFormatFromContext ctx \<noteq> OutputJSON) m = Inr out")
  case True
  then obtain m out where "Option.bind resp resp_Msg = Some m" "po_Marshal ops (OutputFormatFromContext ctx \<noteq> OutputJSON) m = Inr out"
    by blast
  then show ?thesis unfolding wrote_messages_def
    by (intro exI[of _ "[out]"]) (auto simp: write_response_def)
qed (auto simp: write_response_def intro!: wrote_refl split: option.splits sum.splits)

lemma guarded_write_writes:
  "wrote_messages ops (OutputFormatFromContext ctx \<noteq> OutputJSON) w
     (snd (guarded_send (write_response ops ctx missing) resp w))"
  by (auto simp: guarded_send_def write_response_writes wrote_refl split: option.splits)

lemma read_writes_nothing: "cw_stdout (snd (emitNDJSONReadCallback ops tq w)) = cw_stdout w"
  by (auto simp: emitNDJSONReadCallback_def split: prod.splits option.splits sum.splits)

lemma prog_writes:
  assumes "\<And>s. cw_stdout (snd (recv s)) = cw_stdout s"
  shows "wrote_messages ops (OutputFormatFromContext ctx \<noteq> OutputJSON) w
    (snd (run_prog recv (guarded_send (write_response ops ctx missing)) p w))"
  by (rule run_prog_preserves[where R = "wrote_messages ops (OutputFormatFromContext ctx \<noteq> OutputJSON)"])
    (auto intro: wrote_refl wrote_trans assms guarded_write_writes)

section \<open>Properties\<close>



text \<open>
  Misuse of a command that reads standard input is reported and does nothing: with \<open>--json\<close> or with arguments the
  run is an invalid-argument error, and neither handlers nor standard input nor output are touched.
\<close>

theorem stdin_commands_reject:
  assumes "JSONPayloadFromContext ctx \<noteq> None \<or> args \<noteq> []"
  shows "(\<exists>msg. emitClientStreamBody ops os_stdin deref tq ts h name procedure ctx args w = (Some (NewError CodeInvalidArgument msg), w))
    \<and> (\<exists>msg. emitBidiStreamBody ops os_stdin deref tq ts h name procedure ctx args w = (Some (NewError CodeInvalidArgument msg), w))"
  using assms by (auto simp: emitClientStreamBody_def emitBidiStreamBody_def emitStdinGuards_def split: option.splits)

section \<open>Witnesses\<close>

definition text_ops :: "unit proto_ops" where
  [go_eval]: "text_ops = \<lparr>po_Valid = (\<lambda>s. True), po_Unmarshal = (\<lambda>lenient t s. if s = [] then Inl EOF else Inr Map.empty),
     po_Merge = (\<lambda>a b. b), po_Marshal = (\<lambda>b m. Inr ''{}'')\<rparr>"

definition start_world :: "(unit, unit) cli_world" where
  [go_eval]: "start_world = \<lparr>cw_vars = Map.empty, cw_stdout = [], cw_scan = NewScanner ([], EOF), cw_user = ()\<rparr>"

definition reply :: "unit message response option" where
  [go_eval]: "reply = Some \<lparr>resp_Msg = Some Map.empty, resp_Meta = meta_zero\<rparr>"

definition stream_handler :: "(nat, unit, unit) svc_handler" where
  "stream_handler =
     \<lparr>h_Unary = (\<lambda>name ctx rq w. (Inr reply, w)),
      h_ServerStream = (\<lambda>name ctx rq st. run_prog (\<lambda>s. (Inl EOF, s)) (ss_Send st) (Send reply Return)),
      h_ClientStream = (\<lambda>name ctx st. run_prog (cl_Receive st) (\<lambda>m s. (None, s))
        (Recv (\<lambda>x. Recv (\<lambda>y. Return (case y of Inl err \<Rightarrow> Inl err | Inr rq \<Rightarrow> Inr reply))))),
      h_Bidi = (\<lambda>name ctx st. run_prog (bs_Receive st) (bs_Send st) (Recv (\<lambda>x. Send reply Return)))\<rparr>"

definition piped_ctx :: "string \<Rightarrow> nat run_context" where
  [go_eval]: "piped_ctx input = \<lparr>keyOutputFormat = None, keyJSONPayload = None, interceptorsKey = None, stdinKey = Some (input, EOF)\<rparr>"



theorem stdin_commands_reject_witness:
  "\<exists>msg. emitBidiStreamBody text_ops ([], EOF) (\<lambda>i. None) ''Req'' ''Res'' stream_handler ''Chat'' ''/p.S/Chat''
     (piped_ctx ''{}'') [''--x=1''] start_world = (Some (NewError CodeInvalidArgument msg), start_world)"
  using stdin_commands_reject[of "piped_ctx ''{}''" "[''--x=1'']"] by blast

end
