(* ===== verification/CodegenTree.thy ===== *)
theory CodegenTree imports Codec "HOL-Library.Sublist" begin

text \<open>
  \<open>internal/codegen/tree.go\<close>, the duplicate path check of \<open>validate.go\<close> and the declaration order of
  \<open>cli.go\<close>: how the generator builds the command tree of the services and in which order and under which
  names it declares the nodes. A map of children is an association list with one entry per name; a nil map
  is \<open>None\<close>. A write to a nil map panics: then the result is \<open>None\<close>.
\<close>

section \<open>Services\<close>

record method_info =
  m_GoName :: string
  m_Path :: "string list"
  m_CLI :: bool
  m_Connect :: bool
  m_Ws :: bool
  m_Summary :: string
  m_Hidden :: bool
  m_InputGoName :: string
  m_OutputGoName :: string
  m_FullName :: string
  m_Shape :: string

record service_info =
  svc_GoName :: string
  svc_Path :: "string list"
  svc_BindInto :: string
  svc_Summary :: string
  svc_Hidden :: bool
  svc_Methods :: "method_info list"

record leaf_info =
  lf_ServiceGoName :: string
  lf_MethodGoName :: string
  lf_InputGoName :: string
  lf_OutputGoName :: string
  lf_FullName :: string
  lf_Shape :: string

datatype tree_node = TreeNode
  (tn_Segment: string) (tn_Summary: string) (tn_Hidden: bool) (tn_BindInto: string)
  (tn_Children: "(string \<times> tree_node) list option") (tn_Leaf: "leaf_info option")

definition tn_isGroup :: "tree_node \<Rightarrow> bool" where
  [go_eval]: "tn_isGroup n \<longleftrightarrow> tn_Children n \<noteq> None"

section \<open>Building the tree\<close>

fun summary_of :: "string \<Rightarrow> method_info list \<Rightarrow> string" where
  "summary_of name [] = []"
| "summary_of name (m # ms) = (if m_GoName m = name then m_Summary m else summary_of name ms)"

definition leaf_summary :: "leaf_info \<Rightarrow> service_info \<Rightarrow> string" where
  [go_eval]: "leaf_summary leaf svc = summary_of (lf_MethodGoName leaf) (svc_Methods svc)"

definition new_group :: "string \<Rightarrow> tree_node" where
  [go_eval]: "new_group seg = TreeNode seg [] False [] (Some []) None"

text \<open>The options of the service, applied at the last segment of its path.\<close>

definition apply_service :: "service_info \<Rightarrow> nat \<Rightarrow> tree_node \<Rightarrow> tree_node" where
  [go_eval]: "apply_service svc i child =
     (if Suc i = length (svc_Path svc)
      then TreeNode (tn_Segment child) (svc_Summary svc) (svc_Hidden svc) (svc_BindInto svc) (tn_Children child) (tn_Leaf child)
      else child)"

definition with_children :: "(string \<times> tree_node) list \<Rightarrow> tree_node \<Rightarrow> tree_node" where
  [go_eval]: "with_children cs n = TreeNode (tn_Segment n) (tn_Summary n) (tn_Hidden n) (tn_BindInto n) (Some cs) (tn_Leaf n)"

definition as_leaf :: "leaf_info \<Rightarrow> service_info \<Rightarrow> tree_node \<Rightarrow> tree_node" where
  [go_eval]: "as_leaf leaf svc n = TreeNode (tn_Segment n) (leaf_summary leaf svc) (tn_Hidden n) (tn_BindInto n) None (Some leaf)"

fun insert_at :: "service_info \<Rightarrow> leaf_info \<Rightarrow> nat \<Rightarrow> string list \<Rightarrow> tree_node \<Rightarrow> tree_node option" where
  "insert_at svc leaf i [] n = Some (as_leaf leaf svc n)"
| "insert_at svc leaf i (seg # segs) n =
     (case tn_Children n of
        None \<Rightarrow> None
      | Some cs \<Rightarrow>
          let child = (case map_of cs seg of Some c \<Rightarrow> c | None \<Rightarrow> new_group seg) in
          (case insert_at svc leaf (Suc i) segs (apply_service svc i child) of
             None \<Rightarrow> None
           | Some child' \<Rightarrow> Some (with_children (put seg child' cs) n)))"

definition insertLeaf :: "tree_node \<Rightarrow> string list \<Rightarrow> leaf_info \<Rightarrow> service_info \<Rightarrow> tree_node option" where
  [go_eval]: "insertLeaf root path leaf svc = insert_at svc leaf 0 path root"

definition leaf_of :: "service_info \<Rightarrow> method_info \<Rightarrow> leaf_info" where
  [go_eval]: "leaf_of svc m =
     \<lparr>lf_ServiceGoName = svc_GoName svc, lf_MethodGoName = m_GoName m, lf_InputGoName = m_InputGoName m,
      lf_OutputGoName = m_OutputGoName m, lf_FullName = m_FullName m, lf_Shape = m_Shape m\<rparr>"

fun insert_methods :: "service_info \<Rightarrow> method_info list \<Rightarrow> tree_node \<Rightarrow> tree_node option" where
  "insert_methods svc [] root = Some root"
| "insert_methods svc (m # ms) root =
     (if \<not> m_CLI m then insert_methods svc ms root
      else case insertLeaf root (svc_Path svc @ m_Path m) (leaf_of svc m) svc of
        None \<Rightarrow> None
      | Some root' \<Rightarrow> insert_methods svc ms root')"

fun insert_services :: "service_info list \<Rightarrow> tree_node \<Rightarrow> tree_node option" where
  "insert_services [] root = Some root"
| "insert_services (svc # svcs) root =
     (case insert_methods svc (svc_Methods svc) root of None \<Rightarrow> None | Some root' \<Rightarrow> insert_services svcs root')"

definition dead_group :: "tree_node \<Rightarrow> bool" where
  [go_eval]: "dead_group n \<longleftrightarrow> tn_Children n = Some []"

fun pruneDeadGroups :: "tree_node \<Rightarrow> tree_node" where
  "pruneDeadGroups (TreeNode seg su hid bi cs leaf) =
     TreeNode seg su hid bi
       (map_option (\<lambda>kids. filter (\<lambda>kc. \<not> dead_group (snd kc)) (map (\<lambda>kc. (fst kc, pruneDeadGroups (snd kc))) kids)) cs) leaf"

definition buildTree :: "service_info list \<Rightarrow> tree_node option" where
  [go_eval]: "buildTree services =
     map_option pruneDeadGroups (insert_services services (TreeNode [] [] False [] (Some []) None))"

section \<open>Declarations\<close>

text \<open>
  \<open>collectDecls\<close> appends to the list its caller passes; here it returns what it appends.
\<close>

record node_decl =
  d_node :: tree_node
  d_varName :: string
  d_path :: "string list"

definition sortedKeys :: "(string \<times> tree_node) list \<Rightarrow> string list" where
  [go_eval]: "sortedKeys m = sort (map fst m)"

definition pathToVarName :: "string list \<Rightarrow> string" where
  [go_eval]: "pathToVarName path =
     (if length path = 0 then ''root''
      else ''node_'' @ join (map (\<lambda>p. replace_byte CHR ''-'' CHR ''_'' p) path) ''_'')"

definition decl_of :: "tree_node \<Rightarrow> string list \<Rightarrow> node_decl" where
  [go_eval]: "decl_of n path = \<lparr>d_node = n, d_varName = pathToVarName path, d_path = path\<rparr>"

lemma size_child: "map_of kids k = Some c \<Longrightarrow> size c < Suc (size_list (size_prod (\<lambda>_. 0) size) kids)"
  by (induction kids) (auto split: if_splits)

function collectDecls :: "tree_node \<Rightarrow> string list \<Rightarrow> node_decl list" where
  "collectDecls n path =
     (case tn_Leaf n of
        Some _ \<Rightarrow> [decl_of n path]
      | None \<Rightarrow>
          (case tn_Children n of
             None \<Rightarrow> []
           | Some kids \<Rightarrow>
               concat (map (\<lambda>name. case map_of kids name of
                                   Some c \<Rightarrow> collectDecls c (path @ [name])
                                 | None \<Rightarrow> []) (sortedKeys kids))) @ [decl_of n path])"
  by pat_completeness auto
termination
proof (relation "measure (\<lambda>(n, path). size n)")
  fix n :: tree_node and kids name c and path :: "string list"
  assume "tn_Children n = Some kids" "map_of kids name = Some c"
  then show "((c, path @ [name]), (n, path)) \<in> measure (\<lambda>(n, path). size n)"
    using size_child[of kids name c] by (cases n) simp
qed simp

declare collectDecls.simps [simp del]

section \<open>Duplicate paths\<close>

fun dup_methods :: "string list \<Rightarrow> method_info list \<Rightarrow> (string \<rightharpoonup> string) \<Rightarrow> goerr + (string \<rightharpoonup> string)" where
  "dup_methods sp [] seen = Inr seen"
| "dup_methods sp (m # ms) seen =
     (if \<not> m_CLI m then dup_methods sp ms seen
      else let path = join (sp @ m_Path m) '' '' in
        case seen path of
          Some prev \<Rightarrow> Inl (Errorf_plain (''duplicate CLI path '' @ go_quote path @ '': '' @ prev @ '' and '' @ m_FullName m))
        | None \<Rightarrow> dup_methods sp ms (seen(path \<mapsto> m_FullName m)))"

fun dup_services :: "service_info list \<Rightarrow> (string \<rightharpoonup> string) \<Rightarrow> goerr option" where
  "dup_services [] seen = None"
| "dup_services (svc # svcs) seen =
     (case dup_methods (svc_Path svc) (svc_Methods svc) seen of Inl e \<Rightarrow> Some e | Inr seen' \<Rightarrow> dup_services svcs seen')"

definition validateDuplicatePaths :: "service_info list \<Rightarrow> goerr option" where
  [go_eval]: "validateDuplicatePaths services = dup_services services Map.empty"

section \<open>Well-formed trees and their leaves\<close>

fun wf_tree :: "tree_node \<Rightarrow> bool" where
  "wf_tree (TreeNode seg su hid bi cs leaf) \<longleftrightarrow>
     (case cs of
        None \<Rightarrow> leaf \<noteq> None
      | Some kids \<Rightarrow> leaf = None \<and> distinct (map fst kids) \<and> list_all (\<lambda>kc. wf_tree (snd kc)) kids)"

fun leaf_at :: "tree_node \<Rightarrow> string list \<Rightarrow> leaf_info option" where
  "leaf_at n [] = tn_Leaf n"
| "leaf_at n (seg # segs) =
     (case tn_Children n of
        None \<Rightarrow> None
      | Some cs \<Rightarrow> (case map_of cs seg of None \<Rightarrow> None | Some c \<Rightarrow> leaf_at c segs))"

lemma wf_tree_iff:
  "wf_tree n \<longleftrightarrow>
     (case tn_Children n of
        None \<Rightarrow> tn_Leaf n \<noteq> None
      | Some kids \<Rightarrow> tn_Leaf n = None \<and> distinct (map fst kids) \<and> (\<forall>k c. (k, c) \<in> set kids \<longrightarrow> wf_tree c))"
  by (cases n) (auto simp: list_all_iff split: option.splits)

lemma wf_child: "wf_tree n \<Longrightarrow> tn_Children n = Some cs \<Longrightarrow> map_of cs seg = Some c \<Longrightarrow> wf_tree c"
  by (auto simp: wf_tree_iff[of n] dest: map_of_SomeD)

lemma new_group_simps [simp]:
  "wf_tree (new_group seg)" "tn_Children (new_group seg) = Some []" "tn_Leaf (new_group seg) = None"
  by (simp_all add: new_group_def)

lemma leaf_at_new_group [simp]: "leaf_at (new_group seg) q = None"
  by (cases q) simp_all

lemma apply_service_simps [simp]:
  "tn_Children (apply_service svc i c) = tn_Children c" "tn_Leaf (apply_service svc i c) = tn_Leaf c"
  by (simp_all add: apply_service_def)

lemma wf_apply_service [simp]: "wf_tree (apply_service svc i c) = wf_tree c"
  by (simp add: wf_tree_iff split: option.splits)

lemma leaf_at_apply_service [simp]: "leaf_at (apply_service svc i c) q = leaf_at c q"
  by (cases q) simp_all

lemma leaf_at_group: "wf_tree n \<Longrightarrow> tn_Children n = Some cs \<Longrightarrow> tn_Leaf n = None"
  by (simp add: wf_tree_iff)

text \<open>The node an insertion descends into.\<close>

definition child_of :: "(string \<times> tree_node) list \<Rightarrow> string \<Rightarrow> tree_node" where
  "child_of cs seg = (case map_of cs seg of Some c \<Rightarrow> c | None \<Rightarrow> new_group seg)"

lemma leaf_at_child:
  "tn_Children n = Some cs \<Longrightarrow> leaf_at n (seg # q) = leaf_at (child_of cs seg) q"
  by (simp add: child_of_def split: option.splits)

lemma insert_at_step:
  "tn_Children n = Some cs \<Longrightarrow> insert_at svc leaf i (seg # segs) n =
     map_option (\<lambda>c. with_children (put seg c cs) n) (insert_at svc leaf (Suc i) segs (apply_service svc i (child_of cs seg)))"
  by (simp add: child_of_def Let_def split: option.splits)

lemma wf_child_of: "wf_tree n \<Longrightarrow> tn_Children n = Some cs \<Longrightarrow> wf_tree (child_of cs seg)"
  by (auto simp: child_of_def dest: wf_child split: option.splits)

declare insert_at.simps(2) [simp del]

lemma insert_at_panics:
  assumes "wf_tree n"
  shows "insert_at svc leaf i path n = None \<longleftrightarrow> (\<exists>q. strict_prefix q path \<and> leaf_at n q \<noteq> None)"
  using assms
proof (induction path arbitrary: i n)
  case (Cons seg segs)
  show ?case
  proof (cases "tn_Children n")
    case None
    then have "strict_prefix [] (seg # segs) \<and> leaf_at n [] \<noteq> None" using Cons.prems by (simp add: wf_tree_iff)
    then have "\<exists>q. strict_prefix q (seg # segs) \<and> leaf_at n q \<noteq> None" by blast
    then show ?thesis using None by (simp add: insert_at.simps(2))
  next
    case (Some cs)
    have "insert_at svc leaf i (seg # segs) n = None \<longleftrightarrow> (\<exists>q. strict_prefix q segs \<and> leaf_at (child_of cs seg) q \<noteq> None)"
      using Cons.IH[of "apply_service svc i (child_of cs seg)" "Suc i"] wf_child_of[OF Cons.prems Some]
      by (simp add: insert_at_step[OF Some])
    also have "\<dots> \<longleftrightarrow> (\<exists>q. strict_prefix q (seg # segs) \<and> leaf_at n q \<noteq> None)"
    proof
      assume "\<exists>q. strict_prefix q segs \<and> leaf_at (child_of cs seg) q \<noteq> None"
      then obtain q where "strict_prefix q segs" "leaf_at n (seg # q) \<noteq> None"
        using leaf_at_child[OF Some] by metis
      then show "\<exists>q. strict_prefix q (seg # segs) \<and> leaf_at n q \<noteq> None" by (intro exI[of _ "seg # q"]) simp
    next
      assume "\<exists>q. strict_prefix q (seg # segs) \<and> leaf_at n q \<noteq> None"
      then obtain q where q: "strict_prefix q (seg # segs)" "leaf_at n q \<noteq> None" by blast
      then obtain r where "q = seg # r" using leaf_at_group[OF Cons.prems Some] by (cases q) auto
      with q show "\<exists>q. strict_prefix q segs \<and> leaf_at (child_of cs seg) q \<noteq> None"
        using leaf_at_child[OF Some] by auto
    qed
    finally show ?thesis .
  qed
qed simp

lemma put_mem: "(k', v') \<in> set (put k v m) \<Longrightarrow> (k', v') = (k, v) \<or> (k', v') \<in> set m"
  by (induction m) (auto split: if_splits)

lemma wf_with_children:
  "wf_tree n \<Longrightarrow> tn_Children n = Some cs \<Longrightarrow> wf_tree c \<Longrightarrow> wf_tree (with_children (put seg c cs) n)"
  by (auto simp: wf_tree_iff[of n] wf_tree_iff[of "with_children (put seg c cs) n"] with_children_def distinct_put list_all_iff dest!: put_mem)

lemma leaf_at_insert:
  assumes "wf_tree n" and "insert_at svc leaf i path n = Some n'"
  shows "wf_tree n' \<and> leaf_at n' q = (if prefix path q then if q = path then Some leaf else None else leaf_at n q)"
  using assms
proof (induction path arbitrary: i n n' q)
  case Nil
  then show ?case by (cases q) (auto simp: as_leaf_def wf_tree_iff)
next
  case (Cons seg segs)
  obtain cs where cs: "tn_Children n = Some cs" using Cons.prems(2) by (auto simp: insert_at.simps(2) split: option.splits)
  obtain c where c: "insert_at svc leaf (Suc i) segs (apply_service svc i (child_of cs seg)) = Some c"
      "n' = with_children (put seg c cs) n"
    using Cons.prems(2) by (auto simp: insert_at_step[OF cs])
  have "wf_tree (apply_service svc i (child_of cs seg))" using wf_child_of[OF Cons.prems(1) cs] by simp
  note IH = Cons.IH[OF this c(1)]
  have "wf_tree n'" using wf_with_children[OF Cons.prems(1) cs] IH c(2) by blast
  moreover have "leaf_at n' q = (if prefix (seg # segs) q then if q = seg # segs then Some leaf else None else leaf_at n q)"
  proof (cases q)
    case Nil
    then show ?thesis by (simp add: c(2) with_children_def)
  next
    case (Cons k r)
    show ?thesis
    proof (cases "k = seg")
      case True
      have "leaf_at n' q = leaf_at c r" by (simp add: Cons True c(2) with_children_def)
      then show ?thesis using IH leaf_at_child[OF cs] by (simp add: Cons True)
    next
      case False
      then show ?thesis by (simp add: Cons c(2) with_children_def cs)
    qed
  qed
  ultimately show ?case by blast
qed

text \<open>Pruning keeps the leaves and removes every group that has none.\<close>

definition no_leaves :: "tree_node \<Rightarrow> bool" where
  "no_leaves n \<longleftrightarrow> (\<forall>q. leaf_at n q = None)"

fun live_tree :: "tree_node \<Rightarrow> bool" where
  "live_tree (TreeNode seg su hid bi cs leaf) \<longleftrightarrow>
     (case cs of None \<Rightarrow> True | Some kids \<Rightarrow> list_all (\<lambda>kc. \<not> no_leaves (snd kc) \<and> live_tree (snd kc)) kids)"

lemma live_tree_iff:
  "live_tree n \<longleftrightarrow>
     (case tn_Children n of None \<Rightarrow> True | Some kids \<Rightarrow> \<forall>k c. (k, c) \<in> set kids \<longrightarrow> \<not> no_leaves c \<and> live_tree c)"
  by (cases n) (auto simp: list_all_iff split: option.splits)

lemma map_of_filter_snd:
  "distinct (map fst kids) \<Longrightarrow>
     map_of (filter (\<lambda>kc. P (snd kc)) kids) k = (case map_of kids k of Some c \<Rightarrow> if P c then Some c else None | None \<Rightarrow> None)"
  by (induction kids) (auto simp: map_of_eq_None_iff split: option.splits dest: map_of_SomeD)

lemma map_of_map_snd': "map_of (map (\<lambda>kc. (fst kc, f (snd kc))) kids) k = map_option f (map_of kids k)"
  by (induction kids) auto

lemma no_leaves_group:
  assumes "tn_Children n = Some kids" and "tn_Leaf n = None"
  shows "no_leaves n \<longleftrightarrow> (\<forall>k c. map_of kids k = Some c \<longrightarrow> no_leaves c)"
proof
  assume L: "no_leaves n"
  show "\<forall>k c. map_of kids k = Some c \<longrightarrow> no_leaves c"
  proof (intro allI impI)
    fix k c assume "map_of kids k = Some c"
    then have "leaf_at c q = leaf_at n (k # q)" for q using assms(1) by simp
    then show "no_leaves c" using L unfolding no_leaves_def by metis
  qed
next
  assume "\<forall>k c. map_of kids k = Some c \<longrightarrow> no_leaves c"
  then have "leaf_at n q = None" for q using assms by (cases q) (auto simp: no_leaves_def split: option.splits)
  then show "no_leaves n" by (simp add: no_leaves_def)
qed

definition prune_kids :: "(string \<times> tree_node) list \<Rightarrow> (string \<times> tree_node) list" where
  "prune_kids kids = filter (\<lambda>kc. \<not> dead_group (snd kc)) (map (\<lambda>kc. (fst kc, pruneDeadGroups (snd kc))) kids)"

lemma map_of_prune_kids:
  "distinct (map fst kids) \<Longrightarrow> map_of (prune_kids kids) k =
     (case map_of kids k of None \<Rightarrow> None
      | Some c \<Rightarrow> if dead_group (pruneDeadGroups c) then None else Some (pruneDeadGroups c))"
  unfolding prune_kids_def
  by (subst map_of_filter_snd) (auto simp: map_of_map_snd' o_def split: option.splits)

lemma prune_simps [simp]:
  "tn_Leaf (pruneDeadGroups n) = tn_Leaf n"
  "tn_Children (pruneDeadGroups n) = map_option prune_kids (tn_Children n)"
  by (cases n, simp) (cases n, cases "tn_Children n", simp_all add: prune_kids_def)

declare pruneDeadGroups.simps [simp del]

definition pruned_ok :: "tree_node \<Rightarrow> bool" where
  "pruned_ok n \<longleftrightarrow> (\<forall>q. leaf_at (pruneDeadGroups n) q = leaf_at n q)
     \<and> (dead_group (pruneDeadGroups n) \<longleftrightarrow> no_leaves n) \<and> live_tree (pruneDeadGroups n) \<and> wf_tree (pruneDeadGroups n)"

lemma pruned_ok: "wf_tree n \<Longrightarrow> pruned_ok n"
proof (induction n rule: wf_tree.induct)
  case (1 seg su hid bi cs leaf)
  let ?n = "TreeNode seg su hid bi cs leaf"
  show ?case
  proof (cases cs)
    case None
    then obtain l where "leaf = Some l" using 1(2) by auto
    then have "\<not> no_leaves ?n" by (auto simp: no_leaves_def intro!: exI[of _ "[]"])
    moreover have "leaf_at (pruneDeadGroups ?n) q = leaf_at ?n q" for q using None by (cases q) simp_all
    moreover have "live_tree (pruneDeadGroups ?n) \<and> wf_tree (pruneDeadGroups ?n)"
      unfolding live_tree_iff[of "pruneDeadGroups ?n"] wf_tree_iff[of "pruneDeadGroups ?n"] using None 1(2) by simp
    ultimately show ?thesis using None by (simp add: pruned_ok_def dead_group_def)
  next
    case (Some kids)
    have d: "distinct (map fst kids)" and l: "leaf = None" using 1(2) Some by auto
    have IH: "pruned_ok c" if "(k, c) \<in> set kids" for k c
      using 1(1)[OF Some that] 1(2) Some that by (auto simp: list_all_iff)
    have mem: "(k, c') \<in> set (prune_kids kids) \<Longrightarrow>
        \<exists>c. (k, c) \<in> set kids \<and> c' = pruneDeadGroups c \<and> \<not> no_leaves c" for k c'
      using IH by (auto simp: prune_kids_def pruned_ok_def)
    have leaves: "leaf_at (pruneDeadGroups ?n) q = leaf_at ?n q" for q
    proof (cases q)
      case (Cons k r)
      show ?thesis
      proof (cases "map_of kids k")
        case None
        then show ?thesis using Some Cons by (simp add: map_of_prune_kids[OF d])
      next
        case c: (Some c)
        from IH[OF map_of_SomeD[OF c]] have ok: "leaf_at (pruneDeadGroups c) r = leaf_at c r"
          "dead_group (pruneDeadGroups c) \<Longrightarrow> leaf_at c r = None" by (auto simp: pruned_ok_def no_leaves_def)
        then show ?thesis using Some Cons c by (simp add: map_of_prune_kids[OF d])
      qed
    qed simp
    have "no_leaves ?n \<longleftrightarrow> (\<forall>k c. (k, c) \<in> set kids \<longrightarrow> no_leaves c)"
      using no_leaves_group[of ?n kids] Some l d by (simp add: map_of_eq_Some_iff)
    also have "\<dots> \<longleftrightarrow> (\<forall>k c. (k, c) \<in> set kids \<longrightarrow> dead_group (pruneDeadGroups c))"
      using IH by (auto simp: pruned_ok_def)
    also have "\<dots> \<longleftrightarrow> prune_kids kids = []"
      by (auto simp: prune_kids_def filter_empty_conv)
    finally have dead: "dead_group (pruneDeadGroups ?n) \<longleftrightarrow> no_leaves ?n"
      using Some by (simp add: dead_group_def)
    have "live_tree c' \<and> wf_tree c' \<and> \<not> no_leaves c'" if "(k, c') \<in> set (prune_kids kids)" for k c'
      using mem[OF that] IH unfolding pruned_ok_def no_leaves_def by metis
    moreover have "distinct (map fst (prune_kids kids))"
      using d unfolding prune_kids_def by (intro distinct_map_filter) (simp add: o_def)
    ultimately have "live_tree (pruneDeadGroups ?n) \<and> wf_tree (pruneDeadGroups ?n)"
      unfolding live_tree_iff[of "pruneDeadGroups ?n"] wf_tree_iff[of "pruneDeadGroups ?n"] using Some l by simp
    with dead show ?thesis using leaves by (simp add: pruned_ok_def)
  qed
qed

section \<open>The leaves of the services\<close>

definition cli_methods :: "service_info \<Rightarrow> method_info list" where
  "cli_methods svc = filter m_CLI (svc_Methods svc)"

definition method_path :: "service_info \<Rightarrow> method_info \<Rightarrow> string list" where
  "method_path svc m = svc_Path svc @ m_Path m"

definition service_leaves :: "service_info \<Rightarrow> (string list \<times> leaf_info) list" where
  "service_leaves svc = map (\<lambda>m. (method_path svc m, leaf_of svc m)) (cli_methods svc)"

definition cli_leaves :: "service_info list \<Rightarrow> (string list \<times> leaf_info) list" where
  "cli_leaves services = concat (map service_leaves services)"

definition cli_paths :: "service_info list \<Rightarrow> string list list" where
  "cli_paths services = map fst (cli_leaves services)"

text \<open>A tree that holds exactly the given leaves.\<close>

definition holds_leaves :: "tree_node \<Rightarrow> (string list \<times> leaf_info) list \<Rightarrow> bool" where
  "holds_leaves n ls \<longleftrightarrow> wf_tree n \<and> (\<forall>p. leaf_at n p = map_of ls p)"

lemma map_of_snoc_new: "p \<notin> set (map fst ls) \<Longrightarrow> map_of (ls @ [(p, l)]) q = (if q = p then Some l else map_of ls q)"
  by (simp add: map_add_def map_of_eq_None_iff[symmetric] split: option.splits)

lemma insertLeaf_holds:
  assumes "holds_leaves n ls" and "\<forall>q \<in> set (map fst ls). q \<parallel> path"
  shows "\<exists>n'. insertLeaf n path leaf svc = Some n' \<and> holds_leaves n' (ls @ [(path, leaf)])"
proof -
  have wf: "wf_tree n" and at: "\<And>p. leaf_at n p = map_of ls p" using assms(1) by (auto simp: holds_leaves_def)
  have none: "map_of ls q = None" if "prefix q path \<or> prefix path q" for q
    using assms(2) that by (auto simp: map_of_eq_None_iff parallel_def)
  then have "\<not> (\<exists>q. strict_prefix q path \<and> leaf_at n q \<noteq> None)" by (simp add: at strict_prefix_def)
  then obtain n' where n': "insert_at svc leaf 0 path n = Some n'"
    using insert_at_panics[OF wf] by (cases "insert_at svc leaf 0 path n") auto
  have "path \<notin> set (map fst ls)" using none[of path] by (simp add: map_of_eq_None_iff)
  then have "leaf_at n' q = map_of (ls @ [(path, leaf)]) q" for q
    using leaf_at_insert[OF wf n', of q] none[of q] by (simp add: map_of_snoc_new at del: map_of_append)
  then show ?thesis using n' leaf_at_insert[OF wf n'] by (simp add: insertLeaf_def holds_leaves_def)
qed

lemma insert_methods_holds:
  assumes "holds_leaves n ls" and "sorted_wrt parallel (map fst ls @ map (method_path svc) (filter m_CLI ms))"
  shows "\<exists>n'. insert_methods svc ms n = Some n'
    \<and> holds_leaves n' (ls @ map (\<lambda>m. (method_path svc m, leaf_of svc m)) (filter m_CLI ms))"
  using assms
proof (induction ms arbitrary: n ls)
  case (Cons m ms)
  show ?case
  proof (cases "m_CLI m")
    case True
    have "\<forall>q \<in> set (map fst ls). q \<parallel> method_path svc m" using Cons.prems(2) True by (auto simp: sorted_wrt_append)
    from insertLeaf_holds[OF Cons.prems(1) this, of "leaf_of svc m" svc] obtain n1 where n1:
      "insertLeaf n (method_path svc m) (leaf_of svc m) svc = Some n1"
      "holds_leaves n1 (ls @ [(method_path svc m, leaf_of svc m)])" by blast
    with Cons.IH[OF n1(2)] Cons.prems(2) True show ?thesis by (simp add: method_path_def)
  next
    case False
    with Cons show ?thesis by simp
  qed
qed simp

lemma insert_services_holds:
  assumes "holds_leaves n ls" and "sorted_wrt parallel (map fst (ls @ cli_leaves services))"
  shows "\<exists>n'. insert_services services n = Some n' \<and> holds_leaves n' (ls @ cli_leaves services)"
  using assms
proof (induction services arbitrary: n ls)
  case (Cons svc svcs)
  have "sorted_wrt parallel (map fst ls @ map (method_path svc) (filter m_CLI (svc_Methods svc)))"
    using Cons.prems(2) by (auto simp: cli_leaves_def service_leaves_def cli_methods_def sorted_wrt_append o_def)
  from insert_methods_holds[OF Cons.prems(1) this] obtain n1 where n1:
    "insert_methods svc (svc_Methods svc) n = Some n1" "holds_leaves n1 (ls @ service_leaves svc)"
    by (auto simp: service_leaves_def cli_methods_def)
  have "sorted_wrt parallel (map fst ((ls @ service_leaves svc) @ cli_leaves svcs))"
    using Cons.prems(2) by (simp add: cli_leaves_def)
  from Cons.IH[OF n1(2) this] n1(1) show ?case by (simp add: cli_leaves_def)
qed (simp add: cli_leaves_def)

definition cli_keys :: "string list \<Rightarrow> method_info list \<Rightarrow> string list" where
  "cli_keys sp ms = map (\<lambda>m. join (sp @ m_Path m) '' '') (filter m_CLI ms)"

lemma cli_keys_simps [simp]:
  "cli_keys sp [] = []"
  "cli_keys sp (m # ms) = (if m_CLI m then join (sp @ m_Path m) '' '' # cli_keys sp ms else cli_keys sp ms)"
  by (simp_all add: cli_keys_def)

lemma dup_methods_ok:
  "(\<exists>seen'. dup_methods sp ms seen = Inr seen') \<longleftrightarrow> distinct (cli_keys sp ms) \<and> set (cli_keys sp ms) \<inter> dom seen = {}"
proof (induction ms arbitrary: seen)
  case (Cons m ms)
  show ?case
  proof (cases "m_CLI m \<and> seen (join (sp @ m_Path m) '' '') = None")
    case True
    then have "dup_methods sp (m # ms) seen = dup_methods sp ms (seen(join (sp @ m_Path m) '' '' \<mapsto> m_FullName m))"
      by (simp add: Let_def)
    then show ?thesis using True unfolding Cons.IH[symmetric] by (auto simp: Cons.IH simp del: fun_upd_apply)
  next
    case False
    then show ?thesis using Cons by (auto simp: Let_def split: option.splits)
  qed
qed simp

lemma dup_methods_dom: "dup_methods sp ms seen = Inr seen' \<Longrightarrow> dom seen' = dom seen \<union> set (cli_keys sp ms)"
  by (induction sp ms seen rule: dup_methods.induct) (auto simp: Let_def split: option.splits if_splits)

lemma cli_paths_keys:
  "map (\<lambda>p. join p '' '') (cli_paths (svc # svcs)) =
     cli_keys (svc_Path svc) (svc_Methods svc) @ map (\<lambda>p. join p '' '') (cli_paths svcs)"
  by (simp add: cli_paths_def cli_leaves_def service_leaves_def cli_methods_def cli_keys_def method_path_def o_def)

lemma dup_services_ok:
  "dup_services svcs seen = None \<longleftrightarrow>
     distinct (map (\<lambda>p. join p '' '') (cli_paths svcs)) \<and> set (map (\<lambda>p. join p '' '') (cli_paths svcs)) \<inter> dom seen = {}"
proof (induction svcs arbitrary: seen)
  case (Cons svc svcs)
  show ?case
  proof (cases "dup_methods (svc_Path svc) (svc_Methods svc) seen")
    case (Inl e)
    then have "\<not> (distinct (cli_keys (svc_Path svc) (svc_Methods svc))
        \<and> set (cli_keys (svc_Path svc) (svc_Methods svc)) \<inter> dom seen = {})"
      using dup_methods_ok[of "svc_Path svc" "svc_Methods svc" seen] by simp
    then show ?thesis using Inl unfolding cli_paths_keys by auto
  next
    case (Inr seen')
    then show ?thesis unfolding cli_paths_keys
      using dup_methods_ok[of "svc_Path svc" "svc_Methods svc" seen] dup_methods_dom[OF Inr] Cons.IH[of seen']
      by (auto simp del: set_map)
  qed
qed (simp add: cli_paths_def cli_leaves_def)

lemma insertLeaf_wf: "wf_tree n \<Longrightarrow> insertLeaf n path leaf svc = Some n' \<Longrightarrow> wf_tree n'"
  using leaf_at_insert by (simp add: insertLeaf_def)

lemma insert_methods_wf: "wf_tree n \<Longrightarrow> insert_methods svc ms n = Some n' \<Longrightarrow> wf_tree n'"
  by (induction svc ms n rule: insert_methods.induct) (auto split: if_splits option.splits dest: insertLeaf_wf)

lemma insert_services_wf: "wf_tree n \<Longrightarrow> insert_services svcs n = Some n' \<Longrightarrow> wf_tree n'"
  by (induction svcs n rule: insert_services.induct) (auto split: option.splits dest: insert_methods_wf)

lemma buildTree_wf: "buildTree services = Some t \<Longrightarrow> wf_tree t"
  using pruned_ok insert_services_wf[of "TreeNode [] [] False [] (Some []) None" services]
  by (auto simp: buildTree_def pruned_ok_def)

section \<open>Declarations in order\<close>

text \<open>The declarations of a list of children.\<close>

definition kid_decls :: "(string \<times> tree_node) list \<Rightarrow> string list \<Rightarrow> string \<Rightarrow> node_decl list" where
  "kid_decls kids path name = (case map_of kids name of Some c \<Rightarrow> collectDecls c (path @ [name]) | None \<Rightarrow> [])"

lemma collectDecls_leaf: "tn_Leaf n = Some l \<Longrightarrow> collectDecls n path = [decl_of n path]"
  by (simp add: collectDecls.simps)

lemma collectDecls_group:
  "tn_Leaf n = None \<Longrightarrow> tn_Children n = Some kids \<Longrightarrow>
     collectDecls n path = concat (map (kid_decls kids path) (sortedKeys kids)) @ [decl_of n path]"
  by (simp add: collectDecls.simps[of n] kid_decls_def[abs_def])

text \<open>Induction over the tree as the declarations are collected.\<close>

lemma collectDecls_induct [consumes 1, case_names leaf group]:
  assumes "wf_tree n"
    and leaf: "\<And>n path l. wf_tree n \<Longrightarrow> tn_Leaf n = Some l \<Longrightarrow> P n path [decl_of n path]"
    and group: "\<And>n path kids. wf_tree n \<Longrightarrow> tn_Leaf n = None \<Longrightarrow> tn_Children n = Some kids \<Longrightarrow> distinct (map fst kids) \<Longrightarrow>
      (\<And>name c. map_of kids name = Some c \<Longrightarrow> P c (path @ [name]) (kid_decls kids path name)) \<Longrightarrow>
      P n path (concat (map (kid_decls kids path) (sortedKeys kids)) @ [decl_of n path])"
  shows "P n path (collectDecls n path)"
  using assms(1)
proof (induction n path rule: collectDecls.induct)
  case (1 n path)
  show ?case
  proof (cases "tn_Leaf n")
    case (Some l)
    then show ?thesis using leaf[OF 1(2)] by (simp add: collectDecls_leaf)
  next
    case None
    then obtain kids where kids: "tn_Children n = Some kids" using 1(2) by (auto simp: wf_tree_iff split: option.splits)
    have "P c (path @ [name]) (kid_decls kids path name)" if c: "map_of kids name = Some c" for name c
    proof -
      have "name \<in> set (sortedKeys kids)" using map_of_SomeD[OF c] by (force simp: sortedKeys_def)
      from 1(1)[OF None kids this c wf_child[OF 1(2) kids c]] show ?thesis by (simp add: kid_decls_def c)
    qed
    then show ?thesis
      using group[OF 1(2) None kids] 1(2) kids None by (simp add: collectDecls_group wf_tree_iff)
  qed
qed

lemma decl_of_simps [simp]:
  "d_path (decl_of n path) = path" "d_node (decl_of n path) = n" "d_varName (decl_of n path) = pathToVarName path"
  by (simp_all add: decl_of_def)

lemma kid_decls_None: "map_of kids name = None \<Longrightarrow> kid_decls kids path name = []"
  by (simp add: kid_decls_def)

lemma decl_paths_prefix: "wf_tree n \<Longrightarrow> \<forall>d \<in> set (collectDecls n path). prefix path (d_path d)"
proof (induction rule: collectDecls_induct)
  case (group n path kids)
  have "prefix path (d_path d)" if "d \<in> set (kid_decls kids path name)" for d name
    using that group(5)[of name] by (cases "map_of kids name") (auto simp: kid_decls_None dest: append_prefixD)
  then show ?case by auto
qed simp

lemma kid_decls_prefix:
  assumes "wf_tree n" "tn_Children n = Some kids" "d \<in> set (kid_decls kids path name)"
  shows "prefix (path @ [name]) (d_path d)"
proof (cases "map_of kids name")
  case (Some c)
  with assms(3) have "d \<in> set (collectDecls c (path @ [name]))" by (simp add: kid_decls_def)
  with decl_paths_prefix[OF wf_child[OF assms(1,2) Some]] show ?thesis by blast
qed (use assms(3) in \<open>simp add: kid_decls_None\<close>)

lemma decl_paths_distinct: "wf_tree n \<Longrightarrow> distinct (map d_path (collectDecls n path))"
proof (induction rule: collectDecls_induct)
  case (group n path kids)
  note pre = kid_decls_prefix[OF group(1,3)]
  have d: "distinct (map d_path (concat (map (kid_decls kids path) names)))" if "distinct names" for names
    using that
  proof (induction names)
    case (Cons name names)
    have "distinct (map d_path (kid_decls kids path name))"
      using group(5)[of name] by (cases "map_of kids name") (simp_all add: kid_decls_None)
    moreover have "d_path d \<noteq> d_path d'"
      if "d \<in> set (kid_decls kids path name)" "d' \<in> set (kid_decls kids path name')" "name' \<in> set names" for d d' name'
      using pre[OF that(1)] pre[OF that(2)] that(3) Cons.prems by (auto simp: prefix_def)
    ultimately show ?case using Cons by fastforce
  qed simp
  have "distinct (sortedKeys kids)" using group(4) by (simp add: sortedKeys_def)
  moreover have "path \<notin> d_path ` set (kid_decls kids path name)" for name
    using pre by (auto simp: prefix_def)
  ultimately show ?case using d by auto
qed simp

text \<open>Every node comes after its children.\<close>

definition bottom_up :: "node_decl list \<Rightarrow> bool" where
  "bottom_up ds \<longleftrightarrow> (\<forall>before d after kids k c. ds = before @ d # after \<longrightarrow> tn_Children (d_node d) = Some kids \<longrightarrow>
     map_of kids k = Some c \<longrightarrow> decl_of c (d_path d @ [k]) \<in> set before)"

lemma bottom_up_append: "bottom_up xs \<Longrightarrow> bottom_up ys \<Longrightarrow> bottom_up (xs @ ys)"
  unfolding bottom_up_def by (fastforce simp: append_eq_append_conv2 append_eq_Cons_conv Cons_eq_append_conv)

lemma bottom_up_concat: "(\<And>x. x \<in> set xss \<Longrightarrow> bottom_up x) \<Longrightarrow> bottom_up (concat xss)"
  by (induction xss) (auto intro: bottom_up_append simp: bottom_up_def[of "[]"])

lemma bottom_up_snoc:
  assumes "bottom_up ds"
    and "\<And>kids k c. tn_Children (d_node d) = Some kids \<Longrightarrow> map_of kids k = Some c \<Longrightarrow> decl_of c (d_path d @ [k]) \<in> set ds"
  shows "bottom_up (ds @ [d])"
  unfolding bottom_up_def
proof (intro allI impI)
  fix before e after kids k c
  assume eq: "ds @ [d] = before @ e # after" and k: "tn_Children (d_node e) = Some kids" "map_of kids k = Some c"
  show "decl_of c (d_path e @ [k]) \<in> set before"
  proof (cases after rule: rev_cases)
    case Nil
    with eq have "before = ds" "e = d" by auto
    with assms(2)[of kids k c] k show ?thesis by simp
  next
    case (snoc as a)
    with eq have "ds = before @ e # as" by auto
    with assms(1) k show ?thesis unfolding bottom_up_def by blast
  qed
qed

lemma decl_self: "wf_tree n \<Longrightarrow> collectDecls n path \<noteq> [] \<and> last (collectDecls n path) = decl_of n path"
  by (induction rule: collectDecls_induct) auto

lemma collectDecls_bottom_up: "wf_tree n \<Longrightarrow> bottom_up (collectDecls n path)"
proof (induction rule: collectDecls_induct)
  case (leaf n path l)
  then have "tn_Children n = None" by (simp add: wf_tree_iff split: option.splits)
  then show ?case by (auto simp: bottom_up_def Cons_eq_append_conv)
next
  case (group n path kids)
  have "bottom_up (kid_decls kids path name)" for name
    using group(5)[of name] by (cases "map_of kids name") (simp_all add: kid_decls_None bottom_up_def)
  then have "bottom_up (concat (map (kid_decls kids path) (sortedKeys kids)))"
    by (intro bottom_up_concat) auto
  moreover have "decl_of c (path @ [k]) \<in> set (concat (map (kid_decls kids path) (sortedKeys kids)))"
    if c: "map_of kids k = Some c" for k c
  proof -
    have "k \<in> set (sortedKeys kids)" using map_of_SomeD[OF c] by (force simp: sortedKeys_def)
    moreover have "decl_of c (path @ [k]) \<in> set (kid_decls kids path k)"
      using decl_self[OF wf_child[OF group(1,3) c], of "path @ [k]"] c by (metis kid_decls_def last_in_set option.simps(5))
    ultimately show ?thesis by auto
  qed
  ultimately show ?case using group(3) by (auto intro!: bottom_up_snoc)
qed

section \<open>Names of declarations\<close>

definition clean_segment :: "string \<Rightarrow> bool" where
  "clean_segment s \<longleftrightarrow> CHR ''-'' \<notin> set s \<and> CHR ''_'' \<notin> set s"

lemma replace_clean: "clean_segment s \<Longrightarrow> replace_byte CHR ''-'' CHR ''_'' s = s"
  by (induction s) (auto simp: clean_segment_def replace_byte_def)

lemma map_replace_clean: "\<forall>s \<in> set p. clean_segment s \<Longrightarrow> map (replace_byte CHR ''-'' CHR ''_'') p = p"
  by (induction p) (auto simp: replace_clean)

lemma append_sep_inj: "c \<notin> set a \<Longrightarrow> c \<notin> set b \<Longrightarrow> a @ c # x = b @ c # y \<Longrightarrow> a = b \<and> x = y"
  by (induction a arbitrary: b) (case_tac b; auto)+

lemma join_sep_inj:
  "xs \<noteq> [] \<Longrightarrow> ys \<noteq> [] \<Longrightarrow> \<forall>s \<in> set xs. c \<notin> set s \<Longrightarrow> \<forall>s \<in> set ys. c \<notin> set s \<Longrightarrow> join xs [c] = join ys [c] \<Longrightarrow> xs = ys"
proof (induction xs arbitrary: ys)
  case (Cons x xs)
  obtain y ys' where ys: "ys = y # ys'" using Cons.prems(2) by (cases ys) auto
  show ?case
  proof (cases xs)
    case Nil
    have "c \<in> set (join (y # z # zs) [c])" for z zs by simp
    moreover have "c \<notin> set (join (x # xs) [c])" using Nil Cons.prems(3) by simp
    ultimately show ?thesis using Cons.prems(5) Nil ys by (cases ys') auto
  next
    case (Cons x2 xs2)
    note xs = Cons
    have "c \<in> set (join (x # xs) [c])" using xs by simp
    then have "c \<in> set (join (y # ys') [c])" using Cons.prems(5) ys by simp
    then obtain y2 ys2 where ys': "ys' = y2 # ys2" using Cons.prems(4) ys by (cases ys') auto
    have "x = y \<and> join xs [c] = join ys' [c]"
      using Cons.prems(3-5) ys xs ys' by (intro append_sep_inj[of c]) auto
    then show ?thesis using Cons.IH[of ys'] Cons.prems(3,4) ys xs ys' by simp
  qed
qed simp

lemma pathToVarName_inj:
  assumes "\<forall>s \<in> set p. clean_segment s" and "\<forall>s \<in> set q. clean_segment s" and "pathToVarName p = pathToVarName q"
  shows "p = q"
proof (cases "p = [] \<or> q = []")
  case True
  then show ?thesis using assms(3) by (auto simp: pathToVarName_def split: if_splits)
next
  case False
  then have "join p ''_'' = join q ''_''" using assms by (simp add: pathToVarName_def map_replace_clean)
  then show ?thesis using False assms(1,2) by (intro join_sep_inj[of p q]) (auto simp: clean_segment_def)
qed

lemma decl_varName: "wf_tree n \<Longrightarrow> \<forall>d \<in> set (collectDecls n path). d_varName d = pathToVarName (d_path d)"
proof (induction rule: collectDecls_induct)
  case (group n path kids)
  have "d_varName d = pathToVarName (d_path d)" if "d \<in> set (kid_decls kids path name)" for d name
    using that group(5)[of name] by (cases "map_of kids name") (auto simp: kid_decls_None)
  then show ?case by auto
qed simp

lemma sorted_wrt_parallelI:
  "distinct ps \<Longrightarrow> \<forall>p \<in> set ps. \<forall>q \<in> set ps. \<not> strict_prefix p q \<Longrightarrow> sorted_wrt parallel ps"
  by (induction ps) (auto simp: parallel_def strict_prefix_def)

lemma buildTree_holds:
  assumes "validateDuplicatePaths services = None"
    and "\<forall>p \<in> set (cli_paths services). \<forall>q \<in> set (cli_paths services). \<not> strict_prefix p q"
  shows "\<exists>n. insert_services services (TreeNode [] [] False [] (Some []) None) = Some n \<and> holds_leaves n (cli_leaves services)"
    and "distinct (cli_paths services)"
proof -
  let ?root = "TreeNode [] [] False [] (Some []) None"
  show d: "distinct (cli_paths services)"
    using assms(1) by (auto simp: validateDuplicatePaths_def dup_services_ok distinct_map)
  then have "sorted_wrt parallel (map fst ([] @ cli_leaves services))"
    using assms(2) by (simp add: sorted_wrt_parallelI cli_paths_def)
  moreover have "leaf_at ?root p = None" for p by (cases p) simp_all
  then have "holds_leaves ?root []" by (simp add: holds_leaves_def)
  ultimately show "\<exists>n. insert_services services ?root = Some n \<and> holds_leaves n (cli_leaves services)"
    using insert_services_holds[of ?root "[]" services] by auto
qed

lemma buildTree_leaf:
  assumes "validateDuplicatePaths services = None"
    and "\<forall>p \<in> set (cli_paths services). \<forall>q \<in> set (cli_paths services). \<not> strict_prefix p q"
    and "(path, leaf) \<in> set (cli_leaves services)"
  shows "\<exists>t. buildTree services = Some t \<and> wf_tree t \<and> leaf_at t path = Some leaf \<and> (path \<noteq> [] \<longrightarrow> tn_Leaf t = None)"
proof -
  obtain n where n: "insert_services services (TreeNode [] [] False [] (Some []) None) = Some n" "holds_leaves n (cli_leaves services)"
    using buildTree_holds(1)[OF assms(1,2)] by blast
  have path: "map_of (cli_leaves services) path = Some leaf"
    using buildTree_holds(2)[OF assms(1,2)] assms(3) by (simp add: cli_paths_def)
  have "map_of (cli_leaves services) [] = None" if "path \<noteq> []"
  proof (rule ccontr)
    assume "map_of (cli_leaves services) [] \<noteq> None"
    then have "[] \<in> set (cli_paths services)" by (simp add: map_of_eq_None_iff cli_paths_def)
    moreover have "path \<in> set (cli_paths services)" using assms(3) by (force simp: cli_paths_def)
    moreover have "strict_prefix [] path" using that by (cases path) simp_all
    ultimately show False using assms(2) by blast
  qed
  with path n pruned_ok[of n] leaf_at.simps(1)[of "pruneDeadGroups n"] show ?thesis
    by (auto simp: buildTree_def holds_leaves_def pruned_ok_def simp del: leaf_at.simps)
qed

section \<open>Properties\<close>

text \<open>
  The command tree is right: for services that pass the duplicate check and none of whose command paths is a
  strict prefix of another, the tree is built, holds at every path exactly the leaf of the method with
  that path, and has no group without a leaf.
\<close>

theorem buildTree_exact:
  assumes "validateDuplicatePaths services = None"
    and "\<forall>p \<in> set (cli_paths services). \<forall>q \<in> set (cli_paths services). \<not> strict_prefix p q"
  shows "\<exists>t. buildTree services = Some t \<and> (\<forall>p. leaf_at t p = map_of (cli_leaves services) p) \<and> live_tree t"
proof -
  obtain n where n: "insert_services services (TreeNode [] [] False [] (Some []) None) = Some n" "holds_leaves n (cli_leaves services)"
    using buildTree_holds(1)[OF assms] by blast
  then show ?thesis using pruned_ok[of n] by (simp add: buildTree_def holds_leaves_def pruned_ok_def)
qed

text \<open>
  Inserting a leaf, on every well-formed tree: it panics exactly when a strict prefix of the path already is
  a leaf, and otherwise puts the leaf at its path, drops every leaf below it and keeps all others.
\<close>

theorem insertLeaf_exact:
  assumes "wf_tree n"
  shows "case insertLeaf n path leaf svc of
      None \<Rightarrow> \<exists>q. strict_prefix q path \<and> leaf_at n q \<noteq> None
    | Some n' \<Rightarrow> (\<nexists>q. strict_prefix q path \<and> leaf_at n q \<noteq> None) \<and> wf_tree n'
        \<and> (\<forall>q. leaf_at n' q = (if q = path then Some leaf else if prefix path q then None else leaf_at n q))"
proof (cases "insert_at svc leaf 0 path n")
  case None
  then show ?thesis using insert_at_panics[OF assms, of svc leaf 0 path] by (simp add: insertLeaf_def)
next
  case (Some n')
  moreover have "\<nexists>q. strict_prefix q path \<and> leaf_at n q \<noteq> None"
    using Some insert_at_panics[OF assms, of svc leaf 0 path] by auto
  ultimately show ?thesis using leaf_at_insert[OF assms Some] by (simp add: insertLeaf_def)
qed

text \<open>
  The generated declarations can be compiled in order: each node of the tree is declared once, the children
  of a group, under the names the group refers to them by, before the group, and the root last.
\<close>

theorem declarations_in_order:
  assumes "buildTree services = Some t"
  shows "distinct (map d_path (collectDecls t [])) \<and> last (collectDecls t []) = decl_of t []
    \<and> bottom_up (collectDecls t [])"
  using buildTree_wf[OF assms] by (simp add: decl_paths_distinct decl_self collectDecls_bottom_up)

text \<open>
  Variable names are unique where segments have neither hyphen nor underscore; with hyphens they need not be,
  although the services pass the duplicate check.
\<close>

theorem declared_names_distinct:
  assumes "buildTree services = Some t" and "\<forall>d \<in> set (collectDecls t []). \<forall>s \<in> set (d_path d). clean_segment s"
  shows "distinct (map d_varName (collectDecls t []))"
proof -
  note wf = buildTree_wf[OF assms(1)]
  have "map d_varName (collectDecls t []) = map pathToVarName (map d_path (collectDecls t []))"
    using decl_varName[OF wf, of "[]"] by simp
  moreover have "inj_on pathToVarName (set (map d_path (collectDecls t [])))"
    using assms(2) pathToVarName_inj by (intro inj_onI) auto
  ultimately show ?thesis using decl_paths_distinct[OF wf, of "[]"] by (metis distinct_map)
qed

definition example_method :: "string \<Rightarrow> string list \<Rightarrow> method_info" where
  [go_eval]: "example_method name path =
     \<lparr>m_GoName = name, m_Path = path, m_CLI = True, m_Connect = False, m_Ws = False, m_Summary = [], m_Hidden = False,
      m_InputGoName = ''Req'', m_OutputGoName = ''Res'', m_FullName = ''/p.S/'' @ name, m_Shape = ''unary''\<rparr>"

definition example_service :: "method_info list \<Rightarrow> service_info" where
  [go_eval]: "example_service ms =
     \<lparr>svc_GoName = ''S'', svc_Path = [''repo''], svc_BindInto = [], svc_Summary = ''Repos'', svc_Hidden = False, svc_Methods = ms\<rparr>"

definition prefix_services :: "service_info list" where
  [go_eval]: "prefix_services = [example_service [example_method ''Get'' [''a''], example_method ''List'' [''a'', ''b'']]]"

definition hyphen_services :: "service_info list" where
  [go_eval]: "hyphen_services = [example_service [example_method ''Get'' [''a-b''], example_method ''List'' [''a'', ''b'']]]"

definition plain_services :: "service_info list" where
  [go_eval]: "plain_services = [example_service [example_method ''Get'' [''get''], example_method ''List'' [''pr'', ''list'']]]"

text \<open>
  What the duplicate check lets through: paths of which one is a strict prefix of the other pass it, and
  building the tree panics; paths that differ in a hyphen pass it, and two nodes are declared under one name.
\<close>

theorem duplicate_check_gaps:
  "validateDuplicatePaths prefix_services = None \<and> buildTree prefix_services = None
   \<and> validateDuplicatePaths hyphen_services = None
   \<and> map (\<lambda>t. distinct (map d_varName (collectDecls t []))) (case buildTree hyphen_services of Some t \<Rightarrow> [t] | None \<Rightarrow> []) = [False]"
  by code_simp

section \<open>Witnesses\<close>

theorem buildTree_exact_witness:
  "\<exists>t. buildTree plain_services = Some t \<and> (\<forall>p. leaf_at t p = map_of (cli_leaves plain_services) p) \<and> live_tree t"
  by (rule buildTree_exact; code_simp)

theorem insertLeaf_exact_witness:
  "insertLeaf (new_group ''root'') [''get''] (leaf_of (example_service []) (example_method ''Get'' [''get''])) (example_service []) \<noteq> None"
  using insertLeaf_exact[of "new_group ''root''" "[''get'']"] by (force split: option.splits)

definition plain_tree :: tree_node where
  "plain_tree = (case buildTree plain_services of Some t \<Rightarrow> t | None \<Rightarrow> new_group [])"

lemma plain_tree: "buildTree plain_services = Some plain_tree"
proof -
  have "buildTree plain_services \<noteq> None" by code_simp
  then show ?thesis by (auto simp: plain_tree_def)
qed

theorem declarations_in_order_witness:
  "distinct (map d_path (collectDecls plain_tree [])) \<and> last (collectDecls plain_tree []) = decl_of plain_tree []
    \<and> bottom_up (collectDecls plain_tree [])"
  using plain_tree by (rule declarations_in_order)

theorem declared_names_distinct_witness: "distinct (map d_varName (collectDecls plain_tree []))"
  by (rule declared_names_distinct[OF plain_tree]; code_simp)

end
