(* ===== verification/CodegenOptions.thy ===== *)
theory CodegenOptions imports CodegenTree CodegenFlags begin

text \<open>
  Services and methods as the generator reads them, \<open>internal/codegen/options.go\<close>, and the check of bound
  fields of \<open>validate.go\<close>. An option that is not set is \<open>None\<close>.
\<close>

section \<open>Descriptors\<close>

record cli_group_options =
  grp_Path :: "string list option"
  grp_BindInto :: "string option"
  grp_Summary :: "string option"
  grp_Hidden :: "bool option"

record proc_options =
  proc_CliPath :: "string list option"
  proc_Cli :: "bool option"
  proc_Connect :: "bool option"
  proc_Ws :: "bool option"
  proc_Summary :: "string option"
  proc_Hidden :: "bool option"

record proto_method =
  md_GoName :: string
  md_Name :: string
  md_Input :: proto_message
  md_Output :: proto_message
  md_StreamingClient :: bool
  md_StreamingServer :: bool
  md_Options :: "proc_options option"

record proto_service =
  sv_GoName :: string
  sv_Name :: string
  sv_Package :: string
  sv_Options :: "cli_group_options option"
  sv_Methods :: "proto_method list"

section \<open>Extraction\<close>

definition shapeUnary :: string where [go_eval]: "shapeUnary = ''unary''"
definition shapeClientStream :: string where [go_eval]: "shapeClientStream = ''client_stream''"
definition shapeServerStream :: string where [go_eval]: "shapeServerStream = ''server_stream''"
definition shapeBidi :: string where [go_eval]: "shapeBidi = ''bidi''"

definition methodShape :: "proto_method \<Rightarrow> string" where
  [go_eval]: "methodShape m =
     (let cs = md_StreamingClient m; ss = md_StreamingServer m in
      if cs \<and> ss then shapeBidi
      else if cs then shapeClientStream
      else if ss then shapeServerStream
      else shapeUnary)"

text \<open>Overwrite a field when an option is set.\<close>

definition set_option :: "('a \<Rightarrow> 's \<Rightarrow> 's) \<Rightarrow> 'a option \<Rightarrow> 's \<Rightarrow> 's" where
  [go_eval]: "set_option upd opt s = (case opt of None \<Rightarrow> s | Some v \<Rightarrow> upd v s)"

definition applyServiceOptions :: "service_info \<Rightarrow> proto_service \<Rightarrow> service_info" where
  [go_eval]: "applyServiceOptions info svc =
     (case sv_Options svc of
        None \<Rightarrow> info
      | Some grp \<Rightarrow>
          set_option (\<lambda>v i. i\<lparr>svc_Hidden := v\<rparr>) (grp_Hidden grp)
            (set_option (\<lambda>v i. i\<lparr>svc_Summary := v\<rparr>) (grp_Summary grp)
              (set_option (\<lambda>v i. i\<lparr>svc_BindInto := v\<rparr>) (grp_BindInto grp)
                (set_option (\<lambda>v i. i\<lparr>svc_Path := v\<rparr>) (grp_Path grp) info))))"

definition applyMethodOptions :: "method_info \<Rightarrow> proto_method \<Rightarrow> method_info" where
  [go_eval]: "applyMethodOptions info m =
     (case md_Options m of
        None \<Rightarrow> info
      | Some pr \<Rightarrow>
          set_option (\<lambda>v i. i\<lparr>m_Hidden := v\<rparr>) (proc_Hidden pr)
            (set_option (\<lambda>v i. i\<lparr>m_Summary := v\<rparr>) (proc_Summary pr)
              (set_option (\<lambda>v i. i\<lparr>m_Ws := v\<rparr>) (proc_Ws pr)
                (set_option (\<lambda>v i. i\<lparr>m_Connect := v\<rparr>) (proc_Connect pr)
                  (set_option (\<lambda>v i. i\<lparr>m_CLI := v\<rparr>) (proc_Cli pr)
                    (set_option (\<lambda>v i. i\<lparr>m_Path := v\<rparr>) (proc_CliPath pr) info))))))"

definition procedure_name :: "proto_method \<Rightarrow> proto_service \<Rightarrow> string" where
  [go_eval]: "procedure_name m svc = ''/'' @ sv_Package svc @ ''.'' @ sv_Name svc @ ''/'' @ md_Name m"

definition extractMethodInfo :: "proto_method \<Rightarrow> proto_service \<Rightarrow> method_info" where
  [go_eval]: "extractMethodInfo m svc =
     applyMethodOptions
       \<lparr>m_GoName = md_GoName m, m_Path = [], m_CLI = True, m_Connect = False, m_Ws = False, m_Summary = [], m_Hidden = False,
        m_InputGoName = pm_GoName (md_Input m), m_OutputGoName = pm_GoName (md_Output m),
        m_FullName = procedure_name m svc, m_Shape = methodShape m\<rparr> m"

definition extractServiceInfo :: "proto_service \<Rightarrow> service_info" where
  [go_eval]: "extractServiceInfo svc =
     (let info = applyServiceOptions
            \<lparr>svc_GoName = sv_GoName svc, svc_Path = [], svc_BindInto = [], svc_Summary = [], svc_Hidden = False, svc_Methods = []\<rparr> svc
      in info\<lparr>svc_Methods := svc_Methods info @ map (\<lambda>m. extractMethodInfo m svc) (sv_Methods svc)\<rparr>)"

section \<open>Bound fields\<close>

fun find_by_name :: "string \<Rightarrow> proto_message list \<Rightarrow> proto_message option" where
  "find_by_name goName [] = None"
| "find_by_name goName (m # ms) = (if pm_GoName m = goName then Some m else find_by_name goName ms)"

fun findMessage :: "proto_file list \<Rightarrow> string \<Rightarrow> proto_message option" where
  "findMessage [] goName = None"
| "findMessage (f # fs) goName =
     (if \<not> file_Generate f then findMessage fs goName
      else case find_by_name goName (file_Messages f) of Some msg \<Rightarrow> Some msg | None \<Rightarrow> findMessage fs goName)"

fun find_field :: "string \<Rightarrow> proto_field list \<Rightarrow> proto_field option" where
  "find_field protoName [] = None"
| "find_field protoName (f # fs) = (if pf_Name f = protoName then Some f else find_field protoName fs)"

definition findField :: "proto_message \<Rightarrow> string \<Rightarrow> proto_field option" where
  [go_eval]: "findField msg protoName = find_field protoName (pm_Fields msg)"

definition validateBindIntoMethod :: "string \<Rightarrow> method_info \<Rightarrow> proto_file list \<Rightarrow> goerr option" where
  [go_eval]: "validateBindIntoMethod bindInto m files =
     (case findMessage files (m_InputGoName m) of
        None \<Rightarrow> None
      | Some msg \<Rightarrow>
          (case findField msg bindInto of
             None \<Rightarrow> Some (Errorf_plain (''bind_into '' @ go_quote bindInto @ '': field not found in '' @ m_InputGoName m
                       @ '' (method '' @ m_FullName m @ '')''))
           | Some field \<Rightarrow>
               if pf_Kind field \<noteq> MessageKind
               then Some (Errorf_plain (''bind_into '' @ go_quote bindInto @ '': field in '' @ m_InputGoName m
                      @ '' must be a message type, got '' @ kind_string (pf_Kind field)))
               else None))"

fun bind_into_methods :: "string \<Rightarrow> method_info list \<Rightarrow> proto_file list \<Rightarrow> goerr option" where
  "bind_into_methods bindInto [] files = None"
| "bind_into_methods bindInto (m # ms) files =
     (if \<not> m_CLI m then bind_into_methods bindInto ms files
      else case validateBindIntoMethod bindInto m files of
        Some err \<Rightarrow> Some err
      | None \<Rightarrow> bind_into_methods bindInto ms files)"

fun validateBindInto :: "service_info list \<Rightarrow> proto_file list \<Rightarrow> goerr option" where
  "validateBindInto [] files = None"
| "validateBindInto (svc # svcs) files =
     (if svc_BindInto svc = [] then validateBindInto svcs files
      else case bind_into_methods (svc_BindInto svc) (svc_Methods svc) files of
        Some err \<Rightarrow> Some err
      | None \<Rightarrow> validateBindInto svcs files)"

section \<open>Lemmas\<close>

lemma extractMethodInfo_simps [simp]:
  "m_GoName (extractMethodInfo m svc) = md_GoName m" "m_FullName (extractMethodInfo m svc) = procedure_name m svc"
  "m_Shape (extractMethodInfo m svc) = methodShape m" "m_InputGoName (extractMethodInfo m svc) = pm_GoName (md_Input m)"
  "m_OutputGoName (extractMethodInfo m svc) = pm_GoName (md_Output m)"
  by (auto simp: extractMethodInfo_def applyMethodOptions_def set_option_def split: option.splits)

lemma extractServiceInfo_simps [simp]:
  "svc_GoName (extractServiceInfo svc) = sv_GoName svc"
  "svc_Methods (extractServiceInfo svc) = map (\<lambda>m. extractMethodInfo m svc) (sv_Methods svc)"
  by (auto simp: extractServiceInfo_def applyServiceOptions_def set_option_def Let_def split: option.splits)

lemma bind_into_methods_ok:
  "bind_into_methods b ms files = None \<longleftrightarrow> (\<forall>m \<in> set ms. m_CLI m \<longrightarrow> validateBindIntoMethod b m files = None)"
  by (induction ms) (auto split: option.splits)

lemma validateBindInto_ok:
  "validateBindInto svcs files = None \<longleftrightarrow>
     (\<forall>svc \<in> set svcs. svc_BindInto svc \<noteq> [] \<longrightarrow> (\<forall>m \<in> set (svc_Methods svc). m_CLI m \<longrightarrow> validateBindIntoMethod (svc_BindInto svc) m files = None))"
proof (induction svcs)
  case (Cons a svcs)
  then show ?case
    using bind_into_methods_ok[of "svc_BindInto a" "svc_Methods a" files]
    by (cases "bind_into_methods (svc_BindInto a) (svc_Methods a) files") auto
qed simp

end
