(* ===== verification/CodegenCli.thy ===== *)
theory CodegenCli imports CodegenRun CodegenOptions begin

text \<open>
  The runner constructor the generator emits for a service, from \<open>internal/codegen/cli.go\<close>, and the constructor and
  options of \<open>transport/cli/runner.go\<close> it calls. The emitted function declares a variable for every node of the
  command tree, bottom up, adds the schema command to the root and makes a runner of it; here it is run: the
  variables declared so far are a map from names to nodes.
\<close>

section \<open>Runner construction\<close>

definition cli_WithStdin :: "'r \<Rightarrow> ('i, 'r, 'w) runner \<Rightarrow> ('i, 'r, 'w) runner" where
  [go_eval]: "cli_WithStdin reader r = r\<lparr>runner_stdin := reader\<rparr>"

definition cli_WithName :: "string \<Rightarrow> ('i, 'r, 'w) runner \<Rightarrow> ('i, 'r, 'w) runner" where
  [go_eval]: "cli_WithName name r = r\<lparr>runner_name := name\<rparr>"

definition cli_WithErrorMapper :: "error_mapper \<Rightarrow> ('i, 'r, 'w) runner \<Rightarrow> ('i, 'r, 'w) runner" where
  [go_eval]: "cli_WithErrorMapper mapper r = r\<lparr>runner_errorMapper := mapper\<rparr>"

definition cli_WithInterceptors :: "'i list \<Rightarrow> ('i, 'r, 'w) runner \<Rightarrow> ('i, 'r, 'w) runner" where
  [go_eval]: "cli_WithInterceptors interceptors r = r\<lparr>runner_interceptors := interceptors\<rparr>"

text \<open>\<open>os_arg0\<close> and \<open>os_stdin\<close> are \<open>os.Args[0]\<close> and \<open>os.Stdin\<close>; no mapper is the nil function.\<close>

definition NewRunner ::
  "string \<Rightarrow> 'r \<Rightarrow> (('i, 'r) cli_ctx, 'w) node \<Rightarrow> (('i, 'r, 'w) runner \<Rightarrow> ('i, 'r, 'w) runner) list \<Rightarrow> ('i, 'r, 'w) runner" where
  [go_eval]: "NewRunner os_arg0 os_stdin root opts =
     fold (\<lambda>opt r. opt r) opts
       \<lparr>runner_root = root, runner_name = path_base os_arg0, runner_stdin = os_stdin, runner_errorMapper = None,
        runner_interceptors = []\<rparr>"

section \<open>Bound messages of a service\<close>

text \<open>\<open>pool\<close> resolves a pointer to a message, which is its full name.\<close>

fun bind_in_fields :: "(string \<rightharpoonup> proto_message) \<Rightarrow> string \<Rightarrow> proto_field list \<Rightarrow> bind_into_ctx option" where
  "bind_in_fields pool fieldName [] = None"
| "bind_in_fields pool fieldName (f # fs) =
     (case Option.bind (pf_Message f) pool of
        Some msg \<Rightarrow>
          if pf_Name f = fieldName
          then Some \<lparr>bc_fieldName = fieldName, bc_goFieldName = pf_GoName f, bc_msg = msg, bc_varPrefix = ''bind_'' @ fieldName\<rparr>
          else bind_in_fields pool fieldName fs
      | None \<Rightarrow> bind_in_fields pool fieldName fs)"

fun bind_in_methods :: "(string \<rightharpoonup> proto_message) \<Rightarrow> string \<Rightarrow> proto_method list \<Rightarrow> bind_into_ctx option" where
  "bind_in_methods pool fieldName [] = None"
| "bind_in_methods pool fieldName (m # ms) =
     (case bind_in_fields pool fieldName (pm_Fields (md_Input m)) of
        Some bc \<Rightarrow> Some bc
      | None \<Rightarrow> bind_in_methods pool fieldName ms)"

definition resolveOneBindInto :: "(string \<rightharpoonup> proto_message) \<Rightarrow> string \<Rightarrow> proto_service \<Rightarrow> bind_into_ctx option" where
  [go_eval]: "resolveOneBindInto pool fieldName svc = bind_in_methods pool fieldName (sv_Methods svc)"

fun collectBindInto :: "(string \<rightharpoonup> proto_message) \<Rightarrow> proto_service \<Rightarrow> tree_node \<Rightarrow> bind_into_ctx list" where
  "collectBindInto pool svc (TreeNode seg summary hidden bindInto kids leaf) =
     (if bindInto \<noteq> [] then (case resolveOneBindInto pool bindInto svc of Some bc \<Rightarrow> [bc] | None \<Rightarrow> []) else []) @
     (case kids of None \<Rightarrow> [] | Some cs \<Rightarrow> concat (map (\<lambda>kc. collectBindInto pool svc (snd kc)) cs))"

definition resolveBindIntoCtxs :: "(string \<rightharpoonup> proto_message) \<Rightarrow> tree_node \<Rightarrow> proto_service \<Rightarrow> bind_into_ctx list" where
  [go_eval]: "resolveBindIntoCtxs pool tree svc = collectBindInto pool svc tree"

section \<open>Methods\<close>

fun find_method :: "string \<Rightarrow> proto_method list \<Rightarrow> proto_method option" where
  "find_method goName [] = None"
| "find_method goName (m # ms) = (if md_GoName m = goName then Some m else find_method goName ms)"

definition findMethod :: "proto_service \<Rightarrow> string \<Rightarrow> proto_method option" where
  [go_eval]: "findMethod svc goName = find_method goName (sv_Methods svc)"

section \<open>Leaves\<close>

text \<open>What the emitted function closes over: the libraries, standard input, the interceptors and the handler.\<close>

record ('i, 'f, 'u) gen_env =
  ge_floats :: "'f float_ops"
  ge_proto :: "'f proto_ops"
  ge_stdin :: reader
  ge_deref :: "('i, 'f, 'u) chain_of"
  ge_handler :: "('i, 'f, 'u) svc_handler"

text \<open>A flag on the variables of the enclosing function, as a flag of the command's state.\<close>

definition lift_flag :: "'f flag_vars flag_def \<Rightarrow> ('f, 'u) cli_world flag_def" where
  [go_eval]: "lift_flag f =
     \<lparr>fName = fName f, fUsage = fUsage f, fDefValue = fDefValue f, fIsBool = fIsBool f,
      fSet = (\<lambda>s w. case fSet f s (cw_vars w) of (e, vars) \<Rightarrow> (e, w\<lparr>cw_vars := vars\<rparr>))\<rparr>"

definition leaf_run ::
  "('i, 'f, 'u) gen_env \<Rightarrow> bind_into_ctx list \<Rightarrow> leaf_info \<Rightarrow> proto_method
   \<Rightarrow> 'i run_context \<Rightarrow> string list \<Rightarrow> ('f, 'u) cli_world \<Rightarrow> goerr option \<times> ('f, 'u) cli_world" where
  [go_eval]: "leaf_run E bindCtxs leaf m ctx args w =
     (let ops = ge_proto E; tq = pm_GoName (md_Input m); ts = pm_GoName (md_Output m) in
      if lf_Shape leaf = shapeClientStream
      then emitClientStreamBody ops (ge_stdin E) (ge_deref E) tq ts (ge_handler E) (md_GoName m) (lf_FullName leaf) ctx args w
      else if lf_Shape leaf = shapeBidi
      then emitBidiStreamBody ops (ge_stdin E) (ge_deref E) tq ts (ge_handler E) (md_GoName m) (lf_FullName leaf) ctx args w
      else case emitRequestParsing (ge_floats E) ops (md_Input m) bindCtxs ctx args (cw_vars w) of
        Inl err \<Rightarrow> (Some err, w)
      | Inr req \<Rightarrow>
          if lf_Shape leaf = shapeServerStream
          then emitStreamingHandlerCall ops (ge_deref E) tq ts (ge_handler E) (md_GoName m) (lf_FullName leaf) ctx req w
          else emitHandlerCall ops (ge_deref E) tq ts (ge_handler E) (md_GoName m) (lf_FullName leaf) ctx req w)"

definition leaf_help ::
  "('i, 'f, 'u) gen_env \<Rightarrow> bind_into_ctx list \<Rightarrow> leaf_info \<Rightarrow> proto_method \<Rightarrow> ('f, 'u) cli_world flagset option" where
  [go_eval]: "leaf_help E bindCtxs leaf m =
     (if lf_Shape leaf = shapeClientStream \<or> lf_Shape leaf = shapeBidi then None
      else map_option (map lift_flag) (new_flagset (ge_floats E) (emitHelpFlags (md_Input m) bindCtxs)))"

definition emitLeafDecl ::
  "('i, 'f, 'u) gen_env \<Rightarrow> proto_service \<Rightarrow> bind_into_ctx list \<Rightarrow> tree_node \<Rightarrow> leaf_info
   \<Rightarrow> ('i run_context, ('f, 'u) cli_world) node" where
  [go_eval]: "emitLeafDecl E svc bindCtxs n leaf =
     (case findMethod svc (lf_MethodGoName leaf) of
        None \<Rightarrow> Node (tn_Segment n) (tn_Summary n) (tn_Hidden n) None None None None
      | Some m \<Rightarrow>
          Node (tn_Segment n) (tn_Summary n) (tn_Hidden n) None (leaf_help E bindCtxs leaf m) None
            (Some (leaf_run E bindCtxs leaf m)))"

section \<open>Groups\<close>

text \<open>The flag set of a bound group; a flag registered twice would panic.\<close>

definition emitGroupFlagSet :: "('i, 'f, 'u) gen_env \<Rightarrow> bind_into_ctx \<Rightarrow> ('f, 'u) cli_world flagset option" where
  [go_eval]: "emitGroupFlagSet E bc = map_option (map lift_flag) (new_flagset (ge_floats E) (emitBindIntoFlagRegistration bc))"

definition group_flags ::
  "('i, 'f, 'u) gen_env \<Rightarrow> bind_into_ctx list \<Rightarrow> tree_node \<Rightarrow> ('f, 'u) cli_world flagset option option" where
  [go_eval]: "group_flags E bindCtxs n =
     (if tn_BindInto n \<noteq> [] then
        (case findBindCtx bindCtxs (tn_BindInto n) of
           Some bc \<Rightarrow> map_option Some (emitGroupFlagSet E bc)
         | None \<Rightarrow> Some None)
      else Some None)"

text \<open>The entries of the map of children name variables; one not declared does not compile (\<open>None\<close>).\<close>

fun child_entries ::
  "(string \<rightharpoonup> ('x, 'w) node) \<Rightarrow> string list \<Rightarrow> string list \<Rightarrow> (string \<times> ('x, 'w) node) list option" where
  "child_entries nodes path [] = Some []"
| "child_entries nodes path (name # names) =
     (case nodes (pathToVarName (path @ [name])) of
        None \<Rightarrow> None
      | Some child \<Rightarrow> map_option (\<lambda>es. (name, child) # es) (child_entries nodes path names))"

definition emitGroupDecl ::
  "('i, 'f, 'u) gen_env \<Rightarrow> bind_into_ctx list \<Rightarrow> node_decl \<Rightarrow> (string \<rightharpoonup> ('i run_context, ('f, 'u) cli_world) node)
   \<Rightarrow> ('i run_context, ('f, 'u) cli_world) node option" where
  [go_eval]: "emitGroupDecl E bindCtxs d nodes =
     (let n = d_node d; childNames = (case tn_Children n of None \<Rightarrow> [] | Some kids \<Rightarrow> sortedKeys kids) in
      case group_flags E bindCtxs n of
        None \<Rightarrow> None
      | Some flags \<Rightarrow>
          map_option (\<lambda>es. Node (tn_Segment n) (tn_Summary n) (tn_Hidden n) flags None (Some es) None)
            (child_entries nodes (d_path d) childNames))"

section \<open>The constructor\<close>

text \<open>A declaration of a variable that is already declared does not compile.\<close>

fun declare_nodes ::
  "('i, 'f, 'u) gen_env \<Rightarrow> proto_service \<Rightarrow> bind_into_ctx list \<Rightarrow> node_decl list
   \<Rightarrow> (string \<rightharpoonup> ('i run_context, ('f, 'u) cli_world) node) \<Rightarrow> (string \<rightharpoonup> ('i run_context, ('f, 'u) cli_world) node) option" where
  "declare_nodes E svc bindCtxs [] nodes = Some nodes"
| "declare_nodes E svc bindCtxs (d # ds) nodes =
     (if nodes (d_varName d) \<noteq> None then None
      else case (case tn_Leaf (d_node d) of
                   Some leaf \<Rightarrow> Some (emitLeafDecl E svc bindCtxs (d_node d) leaf)
                 | None \<Rightarrow> emitGroupDecl E bindCtxs d nodes) of
        None \<Rightarrow> None
      | Some n \<Rightarrow> declare_nodes E svc bindCtxs ds (nodes(d_varName d \<mapsto> n)))"

section \<open>The schema command\<close>

record schema_entry =
  se_commandPath :: string
  se_procedure :: string
  se_summary :: string
  se_streaming :: bool
  se_input :: proto_message
  se_output :: proto_message

fun schema_entries :: "proto_service \<Rightarrow> service_info \<Rightarrow> method_info list \<Rightarrow> schema_entry list" where
  "schema_entries svc info [] = []"
| "schema_entries svc info (mi # ms) =
     (if \<not> m_CLI mi then schema_entries svc info ms
      else case findMethod svc (m_GoName mi) of
        None \<Rightarrow> schema_entries svc info ms
      | Some method \<Rightarrow>
          \<lparr>se_commandPath = join (svc_Path info @ m_Path mi) '' '', se_procedure = m_FullName mi, se_summary = m_Summary mi,
           se_streaming = (m_Shape mi = shapeServerStream \<or> m_Shape mi = shapeBidi),
           se_input = md_Input method, se_output = md_Output method\<rparr> # schema_entries svc info ms)"

definition collectSchemaEntries :: "proto_service \<Rightarrow> service_info \<Rightarrow> schema_entry list" where
  [go_eval]: "collectSchemaEntries svc info = sort_key se_commandPath (schema_entries svc info (svc_Methods info))"

record schema_field =
  sf_Name :: string
  sf_Type :: string
  sf_Description :: string
  sf_Repeated :: bool
  sf_Map :: bool
  sf_EnumValues :: "string list"

record command_info =
  cmd_Command :: string
  cmd_Summary :: string
  cmd_Procedure :: string
  cmd_Flags :: "schema_field list"
  cmd_Output :: "schema_field list"
  cmd_Streaming :: bool

definition schemaKindString :: "kind \<Rightarrow> string" where
  [go_eval]: "schemaKindString k =
     (case k of
        StringKind \<Rightarrow> ''string'' | BoolKind \<Rightarrow> ''bool''
      | Int32Kind \<Rightarrow> ''int32'' | Sint32Kind \<Rightarrow> ''int32'' | Sfixed32Kind \<Rightarrow> ''int32''
      | Int64Kind \<Rightarrow> ''int64'' | Sint64Kind \<Rightarrow> ''int64'' | Sfixed64Kind \<Rightarrow> ''int64''
      | Uint32Kind \<Rightarrow> ''uint32'' | Fixed32Kind \<Rightarrow> ''uint32''
      | Uint64Kind \<Rightarrow> ''uint64'' | Fixed64Kind \<Rightarrow> ''uint64''
      | FloatKind \<Rightarrow> ''float'' | DoubleKind \<Rightarrow> ''double'' | EnumKind \<Rightarrow> ''enum''
      | MessageKind \<Rightarrow> ''message'' | BytesKind \<Rightarrow> ''bytes'' | GroupKind \<Rightarrow> ''group'')"

definition schemaFieldType :: "proto_field \<Rightarrow> string" where
  [go_eval]: "schemaFieldType field =
     (if pf_IsMap field then ''map<'' @ schemaKindString (pf_MapKey field) @ '','' @ schemaKindString (pf_MapValue field) @ ''>''
      else schemaKindString (pf_Kind field))"

definition emitSchemaFieldEntry :: "proto_field \<Rightarrow> schema_field" where
  [go_eval]: "emitSchemaFieldEntry field =
     \<lparr>sf_Name = pf_Name field, sf_Type = schemaFieldType field, sf_Description = getFieldDescription field,
      sf_Repeated = pf_IsList field, sf_Map = pf_IsMap field,
      sf_EnumValues = (if pf_Kind field = EnumKind then enumCLIValuesForSchema (field_enum field) else [])\<rparr>"

definition emitSchemaFields :: "proto_message \<Rightarrow> schema_field list" where
  [go_eval]: "emitSchemaFields msg = map emitSchemaFieldEntry (pm_Fields msg)"

definition emitSchemaInfoLiteral :: "schema_entry \<Rightarrow> command_info" where
  [go_eval]: "emitSchemaInfoLiteral e =
     \<lparr>cmd_Command = se_commandPath e, cmd_Summary = se_summary e, cmd_Procedure = se_procedure e,
      cmd_Flags = emitSchemaFields (se_input e), cmd_Output = emitSchemaFields (se_output e), cmd_Streaming = se_streaming e\<rparr>"

text \<open>The three tables: by command, by procedure, and all.\<close>

record schema_data =
  byCommand :: "string \<rightharpoonup> command_info"
  byProcedure :: "string \<rightharpoonup> command_info"
  all_commands :: "command_info list"

definition emitSchemaDataDecls :: "schema_entry list \<Rightarrow> schema_data" where
  [go_eval]: "emitSchemaDataDecls entries =
     \<lparr>byCommand = map_of (map (\<lambda>e. (se_commandPath e, emitSchemaInfoLiteral e)) entries),
      byProcedure = map_of (map (\<lambda>e. (se_procedure e, emitSchemaInfoLiteral e)) entries),
      all_commands = map emitSchemaInfoLiteral entries\<rparr>"

text \<open>\<open>json.MarshalIndent\<close> with an indent of two spaces, on the values these structs encode to.\<close>

datatype json = JString string | JBool bool | JArray "json list" | JObject "(string \<times> json) list"

definition json_line :: "nat \<Rightarrow> string" where
  [go_std]: "json_line n = newline @ replicate (2 * n) (CHR '' '')"

fun MarshalIndent :: "nat \<Rightarrow> json \<Rightarrow> string" where
  "MarshalIndent n (JString s) = json_string s"
| "MarshalIndent n (JBool b) = json_bool b"
| "MarshalIndent n (JArray vs) =
     (if vs = [] then ''[]''
      else ''['' @ join (map (\<lambda>v. json_line (Suc n) @ MarshalIndent (Suc n) v) vs) '','' @ json_line n @ '']'')"
| "MarshalIndent n (JObject ms) =
     (if ms = [] then ''{}''
      else ''{'' @ join (map (\<lambda>m. json_line (Suc n) @ json_string (fst m) @ '': '' @ MarshalIndent (Suc n) (snd m)) ms) '',''
        @ json_line n @ ''}'')"

definition omit_empty :: "string \<Rightarrow> bool \<Rightarrow> json \<Rightarrow> (string \<times> json) list" where
  [go_std]: "omit_empty name absent v = (if absent then [] else [(name, v)])"

definition schema_field_json :: "schema_field \<Rightarrow> json" where
  [go_eval]: "schema_field_json f = JObject
     ([(''name'', JString (sf_Name f)), (''type'', JString (sf_Type f))]
      @ omit_empty ''description'' (sf_Description f = []) (JString (sf_Description f))
      @ omit_empty ''repeated'' (\<not> sf_Repeated f) (JBool True)
      @ omit_empty ''map'' (\<not> sf_Map f) (JBool True)
      @ omit_empty ''enum_values'' (sf_EnumValues f = []) (JArray (map JString (sf_EnumValues f))))"

definition command_json :: "command_info \<Rightarrow> json" where
  [go_eval]: "command_json c = JObject
     ([(''command'', JString (cmd_Command c))]
      @ omit_empty ''summary'' (cmd_Summary c = []) (JString (cmd_Summary c))
      @ [(''procedure'', JString (cmd_Procedure c)),
         (''flags'', JArray (map schema_field_json (cmd_Flags c))), (''output'', JArray (map schema_field_json (cmd_Output c)))]
      @ omit_empty ''streaming'' (\<not> cmd_Streaming c) (JBool True))"

definition print_json :: "json \<Rightarrow> ('f, 'u) cli_world \<Rightarrow> goerr option \<times> ('f, 'u) cli_world" where
  [go_eval]: "print_json v w = (None, w\<lparr>cw_stdout := cw_stdout w @ MarshalIndent 0 v @ newline\<rparr>)"

definition emitSchemaLookup :: "schema_data \<Rightarrow> string list \<Rightarrow> ('f, 'u) cli_world \<Rightarrow> goerr option \<times> ('f, 'u) cli_world" where
  [go_eval]: "emitSchemaLookup names args w =
     (if length args > 0 then
        let key = join args '' '';
            info = (case byCommand names key of Some i \<Rightarrow> Some i | None \<Rightarrow> byProcedure names key) in
        (case info of
           None \<Rightarrow> (Some (Errorf_plain (''unknown command '' @ go_quote key)), w)
         | Some i \<Rightarrow> print_json (command_json i) w)
      else print_json (JArray (map command_json (all_commands names))) w)"

text \<open>Assignment to the map of children; a nil map panics.\<close>

definition emitSchemaNode ::
  "schema_data \<Rightarrow> ('x, ('f, 'u) cli_world) node \<Rightarrow> ('x, ('f, 'u) cli_world) node option" where
  [go_eval]: "emitSchemaNode names root =
     (case Children root of
        None \<Rightarrow> None
      | Some cs \<Rightarrow>
          let schema = Node ''schema'' ''Show procedure schemas'' False None None None
                (Some (\<lambda>ctx args w. emitSchemaLookup names args w)) in
          Some (Node (Segment root) (Summary root) (Hidden root) (NodeFlagSet root) (HelpFlags root)
            (Some ((''schema'', schema) # filter (\<lambda>c. fst c \<noteq> ''schema'') cs)) (Run root)))"

text \<open>
  The root node the emitted constructor hands to \<open>NewRunner\<close>, and the variables it declares for bound messages.
\<close>

definition generateCLI ::
  "('i, 'f, 'u) gen_env \<Rightarrow> (string \<rightharpoonup> proto_message) \<Rightarrow> proto_service \<Rightarrow> service_info \<Rightarrow> tree_node
   \<Rightarrow> ('i run_context, ('f, 'u) cli_world) node option" where
  [go_eval]: "generateCLI E pool svc info tree =
     (let schema = emitSchemaDataDecls (collectSchemaEntries svc info);
          decls = collectDecls tree [];
          bindCtxs = resolveBindIntoCtxs pool tree svc in
      case declare_nodes E svc bindCtxs decls Map.empty of
        None \<Rightarrow> None
      | Some nodes \<Rightarrow> Option.bind (nodes (d_varName (last decls))) (emitSchemaNode schema))"

definition bound_variables :: "'f float_ops \<Rightarrow> (string \<rightharpoonup> proto_message) \<Rightarrow> proto_service \<Rightarrow> tree_node \<Rightarrow> 'f flag_vars" where
  [go_eval]: "bound_variables fl pool svc tree =
     declare_vars fl (concat (map emitBindIntoVars (resolveBindIntoCtxs pool tree svc)))"

section \<open>The tree the constructor builds\<close>

text \<open>The node of a tree, written down by recursion over the tree.\<close>

function node_of ::
  "('i, 'f, 'u) gen_env \<Rightarrow> proto_service \<Rightarrow> bind_into_ctx list \<Rightarrow> tree_node \<Rightarrow> ('i run_context, ('f, 'u) cli_world) node" where
  "node_of E svc bcs n =
     (case tn_Leaf n of
        Some leaf \<Rightarrow> emitLeafDecl E svc bcs n leaf
      | None \<Rightarrow>
          Node (tn_Segment n) (tn_Summary n) (tn_Hidden n)
            (case group_flags E bcs n of Some flags \<Rightarrow> flags | None \<Rightarrow> None) None
            (Some (case tn_Children n of
               None \<Rightarrow> []
             | Some kids \<Rightarrow> concat (map (\<lambda>name. case map_of kids name of
                 Some c \<Rightarrow> [(name, node_of E svc bcs c)] | None \<Rightarrow> []) (sortedKeys kids)))) None)"
  by pat_completeness auto
termination
proof (relation "measure (\<lambda>(E, svc, bcs, n). size n)")
  fix E :: "('i, 'f, 'u) gen_env" and svc :: proto_service and bcs :: "bind_into_ctx list" and n :: tree_node and kids name c
  assume "tn_Children n = Some kids" "map_of kids name = Some c"
  then show "((E, svc, bcs, c), (E, svc, bcs, n)) \<in> measure (\<lambda>(E, svc, bcs, n). size n)"
    using size_child[of kids name c] by (cases n) simp
qed simp

declare node_of.simps [simp del]

lemma declare_append:
  "declare_nodes E svc bcs (xs @ ys) env = Option.bind (declare_nodes E svc bcs xs env) (declare_nodes E svc bcs ys)"
  by (induction xs arbitrary: env) (auto split: option.splits)

lemma declare_keeps: "declare_nodes E svc bcs ds env = Some env' \<Longrightarrow> env x = Some n \<Longrightarrow> env' x = Some n"
proof (induction ds arbitrary: env)
  case (Cons d ds)
  then have "x \<noteq> d_varName d" by (auto split: if_splits)
  with Cons show ?case by (force split: if_splits option.splits)
qed simp

lemma declare_dom: "declare_nodes E svc bcs ds env = Some env' \<Longrightarrow> dom env' = dom env \<union> d_varName ` set ds"
  by (induction ds arbitrary: env) (auto split: if_splits option.splits)

lemma declare_concat:
  assumes "declare_nodes E svc bcs (concat (map f names)) env = Some env'" and "name \<in> set names"
  shows "\<exists>a b. declare_nodes E svc bcs (f name) a = Some b \<and> (\<forall>x n. b x = Some n \<longrightarrow> env' x = Some n)"
  using assms
proof (induction names arbitrary: env)
  case (Cons g names)
  then obtain e1 where e1: "declare_nodes E svc bcs (f g) env = Some e1"
      "declare_nodes E svc bcs (concat (map f names)) e1 = Some env'"
    by (auto simp: declare_append bind_eq_Some_conv)
  show ?case
  proof (cases "name = g")
    case True
    with e1 declare_keeps[OF e1(2)] show ?thesis by blast
  next
    case False
    with Cons e1(2) show ?thesis by auto
  qed
qed simp

lemma child_entries_known:
  assumes "\<And>name. name \<in> set names \<Longrightarrow> nodes (pathToVarName (path @ [name])) = Some (g name)"
  shows "child_entries nodes path names = Some (map (\<lambda>name. (name, g name)) names)"
  using assms by (induction names) auto

lemma declare_snoc:
  "declare_nodes E svc bcs (ds @ [d]) env = Some env' \<Longrightarrow>
     \<exists>e1 n. declare_nodes E svc bcs ds env = Some e1 \<and> env' = e1(d_varName d \<mapsto> n) \<and>
       (case tn_Leaf (d_node d) of Some leaf \<Rightarrow> n = emitLeafDecl E svc bcs (d_node d) leaf
        | None \<Rightarrow> emitGroupDecl E bcs d e1 = Some n)"
  by (auto simp: declare_append bind_eq_Some_conv split: if_splits option.splits)

lemma children_of_names:
  assumes "set names \<subseteq> fst ` set kids"
  shows "concat (map (\<lambda>name. case map_of kids name of Some c \<Rightarrow> [(name, f c)] | None \<Rightarrow> []) names)
    = map (\<lambda>name. (name, f (the (map_of kids name)))) names"
  using assms
proof (induction names)
  case (Cons name names)
  then obtain c where "map_of kids name = Some c" by (cases "map_of kids name") (auto simp: map_of_eq_None_iff)
  with Cons show ?case by simp
qed simp

lemma sortedKeys_set [simp]: "set (sortedKeys kids) = fst ` set kids"
  by (simp add: sortedKeys_def)

text \<open>When the emitted declarations compile, each variable holds the node of its tree.\<close>

lemma declared_node:
  assumes "wf_tree n"
  shows "\<forall>env env'. declare_nodes E svc bcs (collectDecls n path) env = Some env' \<longrightarrow> env' (pathToVarName path) = Some (node_of E svc bcs n)"
  using assms
proof (induction rule: collectDecls_induct)
  case (leaf n path l)
  then show ?case by (auto simp: node_of.simps[of E svc bcs n] split: if_splits)
next
  case (group n path kids)
  show ?case
  proof (intro allI impI)
    fix env env'
    assume "declare_nodes E svc bcs (concat (map (kid_decls kids path) (sortedKeys kids)) @ [decl_of n path]) env = Some env'"
    then obtain e1 m where e1: "declare_nodes E svc bcs (concat (map (kid_decls kids path) (sortedKeys kids))) env = Some e1"
      and env': "env' = e1(pathToVarName path \<mapsto> m)" and m: "emitGroupDecl E bcs (decl_of n path) e1 = Some m"
      using declare_snoc group(2) by fastforce
    have "e1 (pathToVarName (path @ [name])) = Some (node_of E svc bcs (the (map_of kids name)))" if "name \<in> set (sortedKeys kids)" for name
    proof -
      from that obtain c where c: "map_of kids name = Some c"
        by (cases "map_of kids name") (auto simp: map_of_eq_None_iff)
      from declare_concat[OF e1 that] group(5)[OF c] c show ?thesis by auto
    qed
    then have "child_entries e1 path (sortedKeys kids)
        = Some (map (\<lambda>name. (name, node_of E svc bcs (the (map_of kids name)))) (sortedKeys kids))"
      by (rule child_entries_known)
    with m group(2,3) show "env' (pathToVarName path) = Some (node_of E svc bcs n)"
      by (auto simp: env' emitGroupDecl_def node_of.simps[of E svc bcs n] children_of_names split: option.splits)
  qed
qed

lemma child_entries_defined:
  assumes "\<forall>name \<in> set names. nodes (pathToVarName (path @ [name])) \<noteq> None"
  shows "child_entries nodes path names \<noteq> None"
  using assms by (induction names) auto

lemma bottom_up_butlast: "bottom_up (ds @ [d]) \<Longrightarrow> bottom_up ds"
  unfolding bottom_up_def by (metis append.assoc append_Cons)

lemma declare_succeeds:
  assumes "bottom_up ds" and "distinct (map d_varName ds)" and "\<forall>d \<in> set ds. d_varName d = pathToVarName (d_path d)"
    and "\<forall>d \<in> set ds. group_flags E bcs (d_node d) \<noteq> None"
  shows "declare_nodes E svc bcs ds Map.empty \<noteq> None"
  using assms
proof (induction ds rule: rev_induct)
  case (snoc d ds)
  then obtain e1 where e1: "declare_nodes E svc bcs ds Map.empty = Some e1"
    using bottom_up_butlast[OF snoc.prems(1)] by auto
  have dom: "dom e1 = d_varName ` set ds" using declare_dom[OF e1] by simp
  then have fresh: "e1 (d_varName d) = None" using snoc.prems(2) by force
  have "child_entries e1 (d_path d) (case tn_Children (d_node d) of None \<Rightarrow> [] | Some kids \<Rightarrow> sortedKeys kids) \<noteq> None"
  proof (rule child_entries_defined, rule ballI)
    fix name
    assume "name \<in> set (case tn_Children (d_node d) of None \<Rightarrow> [] | Some kids \<Rightarrow> sortedKeys kids)"
    then obtain kids where kids: "tn_Children (d_node d) = Some kids" "name \<in> fst ` set kids"
      by (cases "tn_Children (d_node d)") (simp_all del: set_map)
    then obtain c where c: "map_of kids name = Some c" by (cases "map_of kids name") (auto simp: map_of_eq_None_iff)
    have "decl_of c (d_path d @ [name]) \<in> set ds"
      using snoc.prems(1) kids(1) c unfolding bottom_up_def by blast
    then have "pathToVarName (d_path d @ [name]) \<in> dom e1" unfolding dom by (metis decl_of_simps(3) image_eqI)
    then show "e1 (pathToVarName (d_path d @ [name])) \<noteq> None" by blast
  qed
  then have "emitGroupDecl E bcs d e1 \<noteq> None"
    using snoc.prems(4) by (auto simp: emitGroupDecl_def Let_def split: option.splits)
  then show ?case using e1 fresh by (auto simp: declare_append split: option.splits)
qed simp

text \<open>The subtree at a path.\<close>

fun tree_at :: "tree_node \<Rightarrow> string list \<Rightarrow> tree_node option" where
  "tree_at n [] = Some n"
| "tree_at n (seg # segs) =
     (case tn_Children n of
        None \<Rightarrow> None
      | Some cs \<Rightarrow> (case map_of cs seg of None \<Rightarrow> None | Some c \<Rightarrow> tree_at c segs))"

lemma leaf_at_tree: "leaf_at n p = Option.bind (tree_at n p) tn_Leaf"
  by (induction n p rule: tree_at.induct) (auto split: option.splits)

lemma tree_at_wf: "wf_tree n \<Longrightarrow> tree_at n p = Some c \<Longrightarrow> wf_tree c"
  by (induction n p rule: tree_at.induct) (auto split: option.splits dest: wf_child)

lemma map_of_children:
  "map_of (concat (map (\<lambda>name. case map_of kids name of Some c \<Rightarrow> [(name, f c)] | None \<Rightarrow> []) names)) k
     = (if k \<in> set names then map_option f (map_of kids k) else None)"
  by (induction names) (auto split: option.splits)

lemma child_list_node_of:
  assumes "wf_tree n"
  shows "map_of (child_list (node_of E svc bcs n)) seg
    = (case tn_Children n of None \<Rightarrow> None | Some kids \<Rightarrow> map_option (node_of E svc bcs) (map_of kids seg))"
proof (cases "tn_Leaf n")
  case None
  with assms obtain kids where "tn_Children n = Some kids" by (auto simp: wf_tree_iff split: option.splits)
  with None show ?thesis
    by (auto simp: node_of.simps[of E svc bcs n] child_list_def map_of_children map_of_eq_None_iff)
next
  case (Some l)
  with assms have "tn_Children n = None" by (auto simp: wf_tree_iff split: option.splits)
  with Some show ?thesis
    by (simp add: node_of.simps[of E svc bcs n] emitLeafDecl_def child_list_def split: option.splits)
qed

lemma node_at_node_of:
  "wf_tree n \<Longrightarrow> node_at (node_of E svc bcs n) p = map_option (node_of E svc bcs) (tree_at n p)"
  by (induction p arbitrary: n) (auto simp: child_list_node_of dest: wf_child split: option.splits)

end
