(* ===== verification/CodegenApp.thy ===== *)
theory CodegenApp imports CodegenCli begin

text \<open>
  Generated programs as a whole: the command tree \<open>buildTree\<close> makes of the services, the constructor
  \<open>generateCLI\<close> emits for it, the bodies of its commands, and the runner that parses the command line.
\<close>

section \<open>The root node\<close>

text \<open>The messages bound by groups have flags that package \<open>flag\<close> accepts.\<close>

definition bindable :: "bind_into_ctx list \<Rightarrow> bool" where
  [go_eval]: "bindable bindCtxs \<longleftrightarrow> list_all (\<lambda>bc. distinct (map pf_Name (pm_Fields (bc_msg bc)))
     \<and> list_all (\<lambda>field. CHR ''-'' \<notin> set (pf_Name field)) (pm_Fields (bc_msg bc))) bindCtxs"

lemma findBindCtx_mem: "findBindCtx bcs name = Some bc \<Longrightarrow> bc \<in> set bcs"
  by (induction bcs) (auto split: if_splits)

lemma bindable_group_flags:
  assumes "bindable bcs"
  shows "group_flags E bcs n \<noteq> None"
proof (cases "findBindCtx bcs (tn_BindInto n)")
  case (Some bc)
  with assms findBindCtx_mem[OF Some] have "new_flagset (ge_floats E) (emitBindIntoFlagRegistration bc) \<noteq> None"
    by (auto simp: bindable_def list_all_iff new_flagset_def intro!: bind_flag_names_distinct)
  with Some show ?thesis by (auto simp: group_flags_def emitGroupFlagSet_def)
qed (simp add: group_flags_def)

definition schema_of :: "proto_service \<Rightarrow> service_info \<Rightarrow> schema_data" where
  [go_eval]: "schema_of svc info = emitSchemaDataDecls (collectSchemaEntries svc info)"

lemma generateCLI_root:
  assumes "wf_tree tree" and "distinct (map d_varName (collectDecls tree []))" and "bindable (resolveBindIntoCtxs pool tree svc)"
  shows "generateCLI E pool svc info tree
    = emitSchemaNode (schema_of svc info) (node_of E svc (resolveBindIntoCtxs pool tree svc) tree)"
proof -
  let ?ds = "collectDecls tree []" let ?bcs = "resolveBindIntoCtxs pool tree svc"
  obtain nodes where nodes: "declare_nodes E svc ?bcs ?ds Map.empty = Some nodes"
    using declare_succeeds[OF collectDecls_bottom_up[OF assms(1)] assms(2) decl_varName[OF assms(1)]]
      bindable_group_flags[OF assms(3)] by blast
  with declared_node[OF assms(1)] have "nodes (pathToVarName []) = Some (node_of E svc ?bcs tree)" by blast
  with nodes decl_self[OF assms(1), of "[]"] show ?thesis by (simp add: generateCLI_def schema_of_def Let_def)
qed

lemma node_of_group: "tn_Leaf n = None \<Longrightarrow> isGroup (node_of E svc bcs n)"
  by (simp add: node_of.simps[of E svc bcs n] isGroup_def)

lemma node_of_leaf: "tn_Leaf n = Some leaf \<Longrightarrow> node_of E svc bcs n = emitLeafDecl E svc bcs n leaf"
  by (simp add: node_of.simps[of E svc bcs n])

lemma map_of_filter_key: "map_of (filter (\<lambda>c. fst c \<noteq> k) cs) x = (if x = k then None else map_of cs x)"
  by (induction cs) auto

lemma schema_root:
  assumes "isGroup n"
  shows "\<exists>root. emitSchemaNode schema n = Some root \<and> NodeFlagSet root = NodeFlagSet n \<and> isGroup root
    \<and> map_of (child_list root) = (map_of (child_list n))(''schema'' \<mapsto>
        Node ''schema'' ''Show procedure schemas'' False None None None (Some (\<lambda>ctx args w. emitSchemaLookup schema args w)))"
  using assms by (auto simp: isGroup_def emitSchemaNode_def Let_def child_list_def fun_eq_iff map_of_filter_key)

lemma plain_words:
  assumes "\<forall>seg \<in> set p. classify_token seg = ArgToken"
  shows "plain_path n p"
proof -
  have "\<not> is_help seg" if "classify_token seg = ArgToken" for seg
    using that by (auto simp: is_help_def classify_token_def split_value_def)
  then show ?thesis using assms
    by (induction p arbitrary: n) (auto simp: passes_def split: option.splits)
qed

lemma run_leaf:
  assumes "node_at n (ps @ [p]) = Some leaf" and "plain_path n (ps @ [p])" and "\<not> isGroup leaf" and "Run leaf = Some run"
    and "rest = [] \<or> \<not> is_help (hd rest)"
  shows "traverse ctx n (ps @ p # rest) path st = on_program (fst st) (run ctx rest (snd st))"
proof -
  obtain g where "isGroup g" "\<not> is_help p" "map_of (child_list g) p = Some leaf"
    "traverse ctx n (ps @ p # rest) path st = dispatch ctx g p rest (path @ ps) st"
    using dispatch_reached[OF assms(1,2)] by blast
  with assms(3-5) show ?thesis by (auto simp: dispatch.simps Let_def)
qed

section \<open>Commands of a service\<close>

definition command_path :: "proto_service \<Rightarrow> proto_method \<Rightarrow> string list" where
  [go_eval]: "command_path svc m = svc_Path (extractServiceInfo svc) @ m_Path (extractMethodInfo m svc)"

definition command_leaf :: "proto_service \<Rightarrow> proto_method \<Rightarrow> leaf_info" where
  [go_eval]: "command_leaf svc m = leaf_of (extractServiceInfo svc) (extractMethodInfo m svc)"

text \<open>
  Services the generator can serve: distinct method names, the duplicate check passed, no command path a
  strict prefix of another, variable names that differ, and groups whose bound messages have usable fields.
\<close>

definition servable :: "(string \<rightharpoonup> proto_message) \<Rightarrow> proto_service \<Rightarrow> tree_node \<Rightarrow> bool" where
  [go_eval]: "servable pool svc tree \<longleftrightarrow>
     distinct (map md_GoName (sv_Methods svc)) \<and> validateDuplicatePaths [extractServiceInfo svc] = None
     \<and> list_all (\<lambda>p. list_all (\<lambda>q. \<not> strict_prefix p q) (cli_paths [extractServiceInfo svc])) (cli_paths [extractServiceInfo svc])
     \<and> buildTree [extractServiceInfo svc] = Some tree
     \<and> distinct (map d_varName (collectDecls tree [])) \<and> bindable (resolveBindIntoCtxs pool tree svc)"

lemma command_leaves:
  "m \<in> set (sv_Methods svc) \<Longrightarrow> m_CLI (extractMethodInfo m svc) \<Longrightarrow>
     (command_path svc m, command_leaf svc m) \<in> set (cli_leaves [extractServiceInfo svc])"
  by (auto simp: cli_leaves_def service_leaves_def cli_methods_def method_path_def command_path_def command_leaf_def)

lemma findMethod_own:
  "distinct (map md_GoName (sv_Methods svc)) \<Longrightarrow> m \<in> set (sv_Methods svc) \<Longrightarrow> findMethod svc (md_GoName m) = Some m"
proof -
  have "find_method (md_GoName m) ms = Some m" if "distinct (map md_GoName ms)" "m \<in> set ms" for ms
    using that by (induction ms) (auto simp: rev_image_eqI)
  then show "distinct (map md_GoName (sv_Methods svc)) \<Longrightarrow> m \<in> set (sv_Methods svc) \<Longrightarrow> findMethod svc (md_GoName m) = Some m"
    by (simp add: findMethod_def)
qed

lemma tree_of_servable:
  assumes "servable pool svc tree" and "m \<in> set (sv_Methods svc)" and "m_CLI (extractMethodInfo m svc)"
  shows "wf_tree tree \<and> leaf_at tree (command_path svc m) = Some (command_leaf svc m)
    \<and> (command_path svc m \<noteq> [] \<longrightarrow> tn_Leaf tree = None)"
  using buildTree_leaf[of "[extractServiceInfo svc]" "command_path svc m" "command_leaf svc m"] command_leaves[OF assms(2,3)] assms(1)
  by (auto simp: servable_def list_all_iff)

lemma command_runs:
  assumes "servable pool svc tree" and "m \<in> set (sv_Methods svc)" and "m_CLI (extractMethodInfo m svc)"
    and "command_path svc m = seg # segs" and "seg \<noteq> ''schema''" and "\<forall>s \<in> set (seg # segs). classify_token s = ArgToken"
  shows "\<exists>root. generateCLI E pool svc (extractServiceInfo svc) tree = Some root \<and>
    (\<forall>ctx rest path st. rest = [] \<or> \<not> is_help (hd rest) \<longrightarrow>
       traverse ctx root (command_path svc m @ rest) path st
         = on_program (fst st) (leaf_run E (resolveBindIntoCtxs pool tree svc) (command_leaf svc m) m ctx rest (snd st)))"
proof -
  let ?bcs = "resolveBindIntoCtxs pool tree svc" and ?leaf = "command_leaf svc m"
  let ?top = "node_of E svc ?bcs tree"
  from tree_of_servable[OF assms(1-3)] assms(4) have wf: "wf_tree tree" and leaf: "leaf_at tree (seg # segs) = Some ?leaf"
    and top: "tn_Leaf tree = None" by auto
  obtain root where root: "generateCLI E pool svc (extractServiceInfo svc) tree = Some root" "NodeFlagSet root = NodeFlagSet ?top"
    "isGroup root" "map_of (child_list root) seg = map_of (child_list ?top) seg"
    using generateCLI_root[OF wf, of pool svc E "extractServiceInfo svc"] assms(1,5)
      schema_root[OF node_of_group[OF top, of E svc ?bcs], of "schema_of svc (extractServiceInfo svc)"]
    by (auto simp: servable_def)
  obtain c where c: "tree_at tree (seg # segs) = Some c" "tn_Leaf c = Some ?leaf"
    using leaf by (auto simp: leaf_at_tree bind_eq_Some_conv)
  have "findMethod svc (lf_MethodGoName ?leaf) = Some m"
    using assms(1,2) by (simp add: findMethod_own servable_def command_leaf_def leaf_of_def)
  then have run: "node_of E svc ?bcs c = Node (tn_Segment c) (tn_Summary c) (tn_Hidden c) None (leaf_help E ?bcs ?leaf m) None
      (Some (leaf_run E ?bcs ?leaf m))"
    by (simp add: node_of_leaf[OF c(2)] emitLeafDecl_def)
  have "node_at ?top (seg # segs) = Some (node_of E svc ?bcs c)"
    unfolding node_at_node_of[OF wf] c(1) by simp
  then have "node_at root (seg # segs) = Some (node_of E svc ?bcs c)" using root(4) by simp
  then have at: "node_at root (butlast (seg # segs) @ [last (seg # segs)]) = Some (node_of E svc ?bcs c)"
    by (simp only: append_butlast_last_id list.distinct simp_thms)
  have "plain_path root (butlast (seg # segs) @ [last (seg # segs)])"
    using plain_words[OF assms(6)] by (simp only: append_butlast_last_id list.distinct simp_thms)
  from run_leaf[OF at this] run
  have "traverse ctx root (butlast (seg # segs) @ last (seg # segs) # rest) path st
      = on_program (fst st) (leaf_run E ?bcs ?leaf m ctx rest (snd st))" if "rest = [] \<or> \<not> is_help (hd rest)" for ctx rest path st
    using that by (simp add: isGroup_def)
  moreover have "command_path svc m @ rest = butlast (seg # segs) @ last (seg # segs) # rest" for rest
    using append_butlast_last_id[of "seg # segs"] assms(4) by (metis append.assoc append_Cons append_Nil list.distinct(1))
  ultimately show ?thesis using root(1) by (intro exI[of _ root] conjI allI impI) (simp_all only:)
qed

lemma plain_use:
  assumes "usable_name n" and "n \<noteq> ''json''" and "n \<noteq> ''output''"
  shows "\<not> is_global (flag_use n tx)" and "\<not> is_help (flag_use n tx)"
proof -
  have "n = k" if "CHR ''='' \<notin> set k" "has_prefix (''--'' @ n @ ''='' @ tx) (''--'' @ k @ ''='')" for k
  proof -
    from that(2) obtain r where "n @ CHR ''='' # tx = k @ CHR ''='' # r" by (auto simp: has_prefix_iff)
    with append_sep_inj[of "CHR ''=''" n k] assms(1) that(1) show ?thesis by (auto simp: usable_name_def)
  qed
  from this[of "''json''"] this[of "''output''"] assms have "\<not> has_prefix (flag_use n tx) ''--json=''" "\<not> has_prefix (flag_use n tx) ''--output=''"
    by (auto simp: flag_use_def)
  moreover have no: "flag_use n tx \<noteq> k" if "CHR ''='' \<notin> set k" for k
    using that by (auto simp: flag_use_def)
  have "flag_use n tx \<noteq> ''--json''" "flag_use n tx \<noteq> ''--output''" "flag_use n tx \<noteq> ''--help''" "flag_use n tx \<noteq> ''-h''"
    by (rule no; simp)+
  ultimately show "\<not> is_global (flag_use n tx)" "\<not> is_help (flag_use n tx)" by (simp_all add: is_global_def is_help_def)
qed

lemma plain_segment: "classify_token s = ArgToken \<Longrightarrow> \<not> is_global s"
  by (auto simp: is_global_def classify_token_def split_value_def has_prefix_def prefix_def split: list.splits if_splits option.splits)

lemma preParse_plain:
  assumes "\<forall>a \<in> set args. \<not> is_global a"
  shows "preParseGlobalFlags args = Inr (args, no_globals)"
proof -
  have "concat (map render_piece (map Plain args)) = args" by (rule plain_args_map)
  moreover have "list_all wf_piece (map Plain args)" using assms by (simp add: list_all_iff)
  ultimately show ?thesis
    using pre_parse_pieces[of "map Plain args" "[]" no_globals False False args no_globals]
    by (simp only: preParseGlobalFlags_def plain_args_map) (simp add: once_def value_or_def)
qed

section \<open>Calls\<close>

text \<open>The runner of a program that sets its name, standard input, error mapper and interceptors.\<close>

definition program :: "string \<Rightarrow> reader \<Rightarrow> error_mapper \<Rightarrow> 'i list \<Rightarrow> ('i run_context, 'w) node \<Rightarrow> ('i, reader, 'w) runner" where
  [go_eval]: "program name stdin mapper interceptors root =
     NewRunner [] ([], EOF) root
       [cli_WithName name, cli_WithStdin stdin, cli_WithErrorMapper mapper, cli_WithInterceptors interceptors]"

text \<open>The handler's result for the request with the given values, written to standard output.\<close>

definition handled ::
  "('i, 'f, 'u) gen_env \<Rightarrow> proto_service \<Rightarrow> proto_method \<Rightarrow> 'i run_context \<Rightarrow> (string \<Rightarrow> 'f flag_val) \<Rightarrow> ('f, 'u) cli_world
   \<Rightarrow> goerr option \<times> ('f, 'u) cli_world" where
  [go_eval]: "handled E svc m ctx vals w =
     finish_call (ge_proto E) ctx
       (h_Unary (ge_handler E) (md_GoName m) ctx (Some (cli_request (procedure_name m svc) (request_of (md_Input m) vals))) w)"

definition plain_flags :: "proto_message \<Rightarrow> bool" where
  [go_eval]: "plain_flags msg \<longleftrightarrow> usable_fields msg \<and> flat_fields msg \<and>
     list_all (\<lambda>field. fieldToFlagName (pf_Name field) \<noteq> ''json'' \<and> fieldToFlagName (pf_Name field) \<noteq> ''output'') (pm_Fields msg)"

lemma command_line_plain:
  assumes "plain_flags msg" and "a \<in> set (command_line msg vals)"
  shows "\<not> is_global a" and "\<not> is_help a"
  using assms plain_use by (auto simp: command_line_def plain_flags_def usable_fields_def list_all_iff)

lemma unary_leaf_run:
  assumes "methodShape m = shapeUnary" and "plain_flags (md_Input m)"
    and "\<forall>field \<in> set (pm_Fields (md_Input m)). field_texts field (vals (pf_Name field)) \<noteq> None"
    and "JSONPayloadFromContext ctx = None" and "\<forall>i \<in> set (chain_of_ctx (ge_deref E) ctx). \<forall>h. wrap_slot i h = h"
    and "cw_vars w = Map.empty"
  shows "leaf_run E [] (command_leaf svc m) m ctx (command_line (md_Input m) vals) w = handled E svc m ctx vals w"
proof -
  have "emitRequestParsing (ge_floats E) (ge_proto E) (md_Input m) [] ctx (command_line (md_Input m) vals) Map.empty
      = Inr (request_of (md_Input m) vals)"
    using assms(2) by (intro request_parsed assms(3,4)) (simp_all add: plain_flags_def)
  then show ?thesis
    by (simp add: leaf_run_def Let_def command_leaf_def leaf_of_def assms(1,6) shapeUnary_def shapeClientStream_def shapeBidi_def
        shapeServerStream_def emitHandlerCall_def InvokeUnary_identity[OF assms(5)] handled_def)
qed

section \<open>The schema command\<close>

definition command_entry :: "proto_service \<Rightarrow> proto_method \<Rightarrow> schema_entry" where
  [go_eval]: "command_entry svc m =
     \<lparr>se_commandPath = join (command_path svc m) '' '', se_procedure = procedure_name m svc,
      se_summary = m_Summary (extractMethodInfo m svc),
      se_streaming = (methodShape m = shapeServerStream \<or> methodShape m = shapeBidi), se_input = md_Input m, se_output = md_Output m\<rparr>"

definition command_methods :: "proto_service \<Rightarrow> proto_method list" where
  [go_eval]: "command_methods svc = filter (\<lambda>m. m_CLI (extractMethodInfo m svc)) (sv_Methods svc)"

lemma schema_entries_all:
  assumes "distinct (map md_GoName (sv_Methods svc))" and "set ms \<subseteq> set (sv_Methods svc)"
  shows "schema_entries svc (extractServiceInfo svc) (map (\<lambda>m. extractMethodInfo m svc) ms)
    = map (command_entry svc) (filter (\<lambda>m. m_CLI (extractMethodInfo m svc)) ms)"
  using assms(2) by (induction ms) (simp_all add: findMethod_own[OF assms(1)] command_entry_def command_path_def)

lemma service_entries:
  assumes "distinct (map md_GoName (sv_Methods svc))"
  shows "collectSchemaEntries svc (extractServiceInfo svc) = sort_key se_commandPath (map (command_entry svc) (command_methods svc))"
  using schema_entries_all[OF assms order_refl] by (simp add: collectSchemaEntries_def command_methods_def)

lemma service_keys_distinct:
  assumes "validateDuplicatePaths [extractServiceInfo svc] = None"
  shows "distinct (map (\<lambda>m. join (command_path svc m) '' '') (command_methods svc))"
  using assms unfolding validateDuplicatePaths_def dup_services_ok
  by (simp add: cli_paths_def cli_leaves_def service_leaves_def
      cli_methods_def command_methods_def method_path_def command_path_def o_def filter_map)

lemma schema_by_command:
  assumes "servable pool svc tree" and "m \<in> set (command_methods svc)"
  shows "byCommand (schema_of svc (extractServiceInfo svc)) (join (command_path svc m) '' '')
    = Some (emitSchemaInfoLiteral (command_entry svc m))"
proof -
  let ?es = "sort_key se_commandPath (map (command_entry svc) (command_methods svc))"
  have "distinct (map se_commandPath (map (command_entry svc) (command_methods svc)))"
    using assms(1) service_keys_distinct[of svc] by (simp add: servable_def command_entry_def o_def)
  then have "distinct (map se_commandPath ?es)" by (metis distinct_map distinct_sort inj_on_cong set_sort)
  moreover have "command_entry svc m \<in> set ?es" using assms(2) by simp
  moreover have "se_commandPath (command_entry svc m) = join (command_path svc m) '' ''" by (simp add: command_entry_def)
  ultimately have "map_of (map (\<lambda>e. (se_commandPath e, emitSchemaInfoLiteral e)) ?es) (join (command_path svc m) '' '')
      = Some (emitSchemaInfoLiteral (command_entry svc m))"
    by (intro map_of_is_SomeI) (auto simp: o_def intro!: image_eqI[of _ _ "command_entry svc m"])
  then show ?thesis using assms(1) by (simp add: servable_def schema_of_def emitSchemaDataDecls_def service_entries)
qed

lemma sorted_sort_map: "sorted (map f (sort_key f xs))"
  by (rule sorted_sort_key)

definition printed :: "json \<Rightarrow> ('f, 'u) cli_world \<Rightarrow> ('f, 'u) cli_world" where
  [go_eval]: "printed v w = w\<lparr>cw_stdout := cw_stdout w @ MarshalIndent 0 v @ newline\<rparr>"

lemma schema_runs:
  assumes "servable pool svc tree" and "m \<in> set (command_methods svc)" and "command_path svc m \<noteq> []"
    and "rest = [] \<or> \<not> is_help (hd rest)"
  shows "\<exists>root. generateCLI E pool svc (extractServiceInfo svc) tree = Some root \<and>
    traverse ctx root (''schema'' # rest) path st
      = on_program (fst st) (emitSchemaLookup (schema_of svc (extractServiceInfo svc)) rest (snd st))"
proof -
  have m: "m \<in> set (sv_Methods svc)" "m_CLI (extractMethodInfo m svc)" using assms(2) by (simp_all add: command_methods_def)
  from tree_of_servable[OF assms(1) m] assms(3) have wf: "wf_tree tree" and top: "tn_Leaf tree = None" by auto
  let ?top = "node_of E svc (resolveBindIntoCtxs pool tree svc) tree"
  obtain root where root: "generateCLI E pool svc (extractServiceInfo svc) tree = Some root" "NodeFlagSet root = NodeFlagSet ?top" "isGroup root"
    "map_of (child_list root) ''schema'' = Some (Node ''schema'' ''Show procedure schemas'' False None None None
       (Some (\<lambda>ctx args w. emitSchemaLookup (schema_of svc (extractServiceInfo svc)) args w)))"
    using generateCLI_root[OF wf, of pool svc E "extractServiceInfo svc"] assms(1)
      schema_root[OF node_of_group[OF top, of E svc "resolveBindIntoCtxs pool tree svc"], of "schema_of svc (extractServiceInfo svc)"]
    by (auto simp: servable_def)
  have "plain_path root [''schema'']" by (intro plain_words) (simp add: classify_token_def)
  with root(4) run_leaf[of root "[]" "''schema''"] assms(4) root(1) show ?thesis
    by (intro exI[of _ root]) (simp add: isGroup_def)
qed

section \<open>Properties\<close>



section \<open>Witnesses\<close>

definition list_method :: proto_method where
  [go_eval]: "list_method = \<lparr>md_GoName = ''List'', md_Name = ''List'', md_Input = list_request,
     md_Output = \<lparr>pm_GoName = ''ListResponse'', pm_Fields = []\<rparr>, md_StreamingClient = False, md_StreamingServer = False,
     md_Options = Some \<lparr>proc_CliPath = Some [''list''], proc_Cli = None, proc_Connect = Some True, proc_Ws = None,
       proc_Summary = Some ''List'', proc_Hidden = None\<rparr>\<rparr>"

definition repo_service :: proto_service where
  [go_eval]: "repo_service = \<lparr>sv_GoName = ''Repo'', sv_Name = ''Repo'', sv_Package = ''p'',
     sv_Options = Some \<lparr>grp_Path = Some [''repo''], grp_BindInto = None, grp_Summary = Some ''Repositories'', grp_Hidden = None\<rparr>,
     sv_Methods = [list_method]\<rparr>"

definition repo_tree :: tree_node where
  [go_eval]: "repo_tree = (case buildTree [extractServiceInfo repo_service] of Some t \<Rightarrow> t | None \<Rightarrow> new_group [])"

lemma repo_servable: "servable (\<lambda>_. None) repo_service repo_tree" "resolveBindIntoCtxs (\<lambda>_. None) repo_tree repo_service = []"
  by code_simp+

definition list_values :: "string \<Rightarrow> unit flag_val" where
  [go_eval]: "list_values x = (if x = ''page_size'' then FInt32 25 else FStrings [''a'', ''b c''])"

definition repo_env :: "(nat, unit, unit) gen_env" where
  "repo_env = \<lparr>ge_floats = no_floats, ge_proto = text_ops, ge_stdin = ([], EOF), ge_deref = (\<lambda>i. None), ge_handler = stream_handler\<rparr>"

lemma repo_path: "command_path repo_service list_method = [''repo'', ''list'']"
  by code_simp

lemma repo_command_line: "command_line list_request list_values = [''--page-size=25'', ''--label=a'', ''--label=b c'']"
  by code_simp



end
