(* ===== verification/WsHandlers.thy ===== *)
theory WsHandlers imports Interceptor Boundary begin

text \<open>
  The WebSocket transport's frames and handlers: \<open>transport/ws/frame.go\<close>, \<open>errors.go\<close>, \<open>option.go\<close>,
  \<open>stream.go\<close> and the four registration functions of \<open>server.go\<close>. A handler runs on the payloads its
  session will receive before its channel is closed; \<open>writeFn\<close> appends a frame. protojson and whether a
  message type implements \<open>proto.Message\<close> are the parameter \<open>proto\<close>.
\<close>

section \<open>Frames\<close>

definition frameTypeOpen :: string where [go_eval]: "frameTypeOpen = ''open''"
definition frameTypeMessage :: string where [go_eval]: "frameTypeMessage = ''message''"
definition frameTypeClose :: string where [go_eval]: "frameTypeClose = ''close''"
definition frameTypeCancel :: string where [go_eval]: "frameTypeCancel = ''cancel''"
definition frameTypeError :: string where [go_eval]: "frameTypeError = ''error''"

record inbound_frame =
  in_Type :: string
  in_ID :: string
  in_Procedure :: string
  in_Shape :: string
  in_Payload :: string

record error_detail =
  ed_Code :: string
  ed_Message :: string
  ed_Retryable :: bool

record outbound_frame =
  out_Type :: string
  out_ID :: string
  out_Payload :: "string option"
  out_Error :: "error_detail option"

definition message_frame :: "string \<Rightarrow> string \<Rightarrow> outbound_frame" where
  [go_eval]: "message_frame sid data =
     \<lparr>out_Type = frameTypeMessage, out_ID = sid, out_Payload = Some data, out_Error = None\<rparr>"

definition close_frame :: "string \<Rightarrow> outbound_frame" where
  [go_eval]: "close_frame sid = \<lparr>out_Type = frameTypeClose, out_ID = sid, out_Payload = None, out_Error = None\<rparr>"

definition error_frame :: "string \<Rightarrow> error_detail \<Rightarrow> outbound_frame" where
  [go_eval]: "error_frame sid d = \<lparr>out_Type = frameTypeError, out_ID = sid, out_Payload = None, out_Error = Some d\<rparr>"

definition frame_of_status :: "string \<Rightarrow> status \<Rightarrow> outbound_frame" where
  [go_eval]: "frame_of_status sid st =
     error_frame sid \<lparr>ed_Code = Code st, ed_Message = Message st, ed_Retryable = Retryable st\<rparr>"

definition toErrorFrame :: "string \<Rightarrow> goerr \<Rightarrow> error_mapper \<Rightarrow> outbound_frame" where
  [go_eval]: "toErrorFrame sid err mapper =
     frame_of_status sid
       (case (case StatusOf err of
                Some st \<Rightarrow> Some st
              | None \<Rightarrow> (case mapper of Some f \<Rightarrow> f err | None \<Rightarrow> None)) of
          Some st \<Rightarrow> st
        | None \<Rightarrow> \<lparr>Code = CodeInternal, Message = error_text err, Retryable = False\<rparr>)"

interpretation ws_boundary: error_boundary "\<lambda>mapper e. toErrorFrame sid e mapper" "frame_of_status sid"
    "\<lambda>e. frame_of_status sid \<lparr>Code = CodeInternal, Message = error_text e, Retryable = False\<rparr>" for sid
  by unfold_locales (simp_all add: toErrorFrame_def)

section \<open>Options\<close>

record ('c, 'v, 's) ws_options =
  wo_errorMapper :: error_mapper
  wo_maxInflight :: int
  wo_interceptors :: "('c, 'v, 's) interceptor option list"

definition defaultOptions :: "('c, 'v, 's) ws_options" where
  [go_eval]: "defaultOptions = \<lparr>wo_errorMapper = None, wo_maxInflight = 64, wo_interceptors = []\<rparr>"

definition ws_WithErrorMapper :: "error_mapper \<Rightarrow> ('c, 'v, 's) ws_options \<Rightarrow> ('c, 'v, 's) ws_options" where
  [go_eval]: "ws_WithErrorMapper mapper wo = wo\<lparr>wo_errorMapper := mapper\<rparr>"

definition ws_WithInterceptors ::
  "('c, 'v, 's) interceptor option list \<Rightarrow> ('c, 'v, 's) ws_options \<Rightarrow> ('c, 'v, 's) ws_options" where
  [go_eval]: "ws_WithInterceptors chain wo = wo\<lparr>wo_interceptors := chain\<rparr>"

definition WithMaxInflight :: "int \<Rightarrow> ('c, 'v, 's) ws_options \<Rightarrow> ('c, 'v, 's) ws_options" where
  [go_eval]: "WithMaxInflight n wo = wo\<lparr>wo_maxInflight := n\<rparr>"

section \<open>A session as its handler sees it\<close>

record 'w ws_world =
  ws_recv :: "string list"
  ws_out :: "outbound_frame list"
  ws_rest :: 'w

definition writeFn :: "outbound_frame \<Rightarrow> 'w ws_world \<Rightarrow> 'w ws_world" where
  [go_eval]: "writeFn f w = w\<lparr>ws_out := ws_out w @ [f]\<rparr>"

definition on_rest :: "('w \<Rightarrow> 'r \<times> 'w) \<Rightarrow> 'w ws_world \<Rightarrow> 'r \<times> 'w ws_world" where
  [go_eval]: "on_rest f w = (let (r, x) = f (ws_rest w) in (r, w\<lparr>ws_rest := x\<rparr>))"

text \<open>A receive on the channel: the next payload, or \<open>None\<close> once it is closed and empty.\<close>

definition chan_recv :: "'w ws_world \<Rightarrow> string option \<times> 'w ws_world" where
  [go_eval]: "chan_recv w = (case ws_recv w of [] \<Rightarrow> (None, w) | p # ps \<Rightarrow> (Some p, w\<lparr>ws_recv := ps\<rparr>))"

record 'v proto =
  isRequest :: bool
  isResponse :: bool
  pjUnmarshal :: "string \<Rightarrow> goerr + 'v"
  pjMarshal :: "'v option \<Rightarrow> goerr + string"

definition unmarshalRequest :: "'v proto \<Rightarrow> string \<Rightarrow> string \<Rightarrow> goerr + 'v" where
  [go_eval]: "unmarshalRequest pr tq payload =
     (if \<not> isRequest pr then Inl (Errorf_plain (''request type '' @ tq @ '' does not implement proto.Message''))
      else case pjUnmarshal pr payload of
        Inl e \<Rightarrow> Inl (NewError CodeInvalidArgument (error_text e))
      | Inr m \<Rightarrow> Inr m)"

text \<open>The message is a pointer, which may be nil.\<close>

definition marshalProto :: "'v proto \<Rightarrow> string \<Rightarrow> 'v option \<Rightarrow> goerr + string" where
  [go_eval]: "marshalProto pr ts msg =
     (if \<not> isResponse pr then Inl (Errorf_plain (''response type *'' @ ts @ '' does not implement proto.Message''))
      else pjMarshal pr msg)"

definition receiveRequest :: "'v proto \<Rightarrow> string \<Rightarrow> 'w ws_world \<Rightarrow> (goerr + 'v request option) \<times> 'w ws_world" where
  [go_eval]: "receiveRequest pr tq w =
     (case chan_recv w of
        (None, w') \<Rightarrow> (Inl EOF, w')
      | (Some payload, w') \<Rightarrow>
          if \<not> isRequest pr
          then (Inl (NewError CodeInternal (''request type '' @ tq @ '' does not implement proto.Message'')), w')
          else case pjUnmarshal pr payload of
            Inl e \<Rightarrow> (Inl (NewError CodeInvalidArgument (error_text e)), w')
          | Inr m \<Rightarrow> (Inr (Some \<lparr>req_Msg = Some m, req_Meta = meta_zero\<rparr>), w'))"

text \<open>
  A stream's \<open>Send\<close>. Sending a nil response would crash; what a crash does is \<open>crash\<close>.
\<close>

definition ws_stream_Send ::
  "('w ws_world \<Rightarrow> goerr option \<times> 'w ws_world) \<Rightarrow> 'v proto \<Rightarrow> string \<Rightarrow> string \<Rightarrow> 'v response option
   \<Rightarrow> 'w ws_world \<Rightarrow> goerr option \<times> 'w ws_world" where
  [go_eval]: "ws_stream_Send crash pr ts sid resp w =
     (case resp of
        None \<Rightarrow> crash w
      | Some r \<Rightarrow>
          (case marshalProto pr ts (resp_Msg r) of
             Inl e \<Rightarrow> (Some e, w)
           | Inr data \<Rightarrow> (None, writeFn (message_frame sid data) w)))"

section \<open>The run functions\<close>

definition recvExactlyOne :: "'w ws_world \<Rightarrow> string option \<times> 'w ws_world" where
  [go_eval]: "recvExactlyOne w = chan_recv w"

definition drainAndVerifyEmpty :: "'w ws_world \<Rightarrow> bool \<times> 'w ws_world" where
  [go_eval]: "drainAndVerifyEmpty w =
     (case chan_recv w of
        (None, w') \<Rightarrow> (True, w')
      | (Some extra, w') \<Rightarrow> (False, w'\<lparr>ws_recv := []\<rparr>))"

definition writeResponseAndClose ::
  "'v proto \<Rightarrow> string \<Rightarrow> string \<Rightarrow> 'v response option \<Rightarrow> error_mapper \<Rightarrow> 'w ws_world \<Rightarrow> 'w ws_world" where
  [go_eval]: "writeResponseAndClose pr ts sid resp mapper w =
     (case (case resp of None \<Rightarrow> None | Some r \<Rightarrow> resp_Msg r) of
        None \<Rightarrow> writeFn (toErrorFrame sid (NewError CodeInternal ''handler returned nil response'') mapper) w
      | Some m \<Rightarrow>
          (case marshalProto pr ts (Some m) of
             Inl e \<Rightarrow> writeFn (toErrorFrame sid (NewError CodeInternal (error_text e)) mapper) w
           | Inr data \<Rightarrow> writeFn (close_frame sid) (writeFn (message_frame sid data) w)))"

definition ws_spec :: "string \<Rightarrow> string \<Rightarrow> call_spec" where
  [go_eval]: "ws_spec procedure shape = \<lparr>cs_Procedure = procedure, cs_Transport = TransportWS, cs_Shape = shape\<rparr>"

definition ws_meta :: "string \<Rightarrow> string \<Rightarrow> meta" where
  [go_eval]: "ws_meta procedure sid = meta_zero\<lparr>meta_Procedure := procedure, meta_RequestID := sid\<rparr>"

text \<open>The request of the two shapes with a single one: received, verified and decoded, or refused.\<close>

definition run_unary ::
  "('c, 'v, ('v, 'w) conn_state) ws_options \<Rightarrow> 'v proto \<Rightarrow> string \<Rightarrow> string \<Rightarrow> string \<Rightarrow> ('c, 'v, 'w) unary_handler
   \<Rightarrow> 'c \<Rightarrow> string \<Rightarrow> 'w ws_world \<Rightarrow> 'w ws_world" where
  [go_eval]: "run_unary wo pr tq ts procedure h ctx sid w =
     (let mapper = wo_errorMapper wo in
      case recvExactlyOne w of
        (None, w1) \<Rightarrow>
          writeFn (toErrorFrame sid (NewError CodeInvalidArgument ''session closed without request'') mapper) w1
      | (Some payload, w1) \<Rightarrow>
          (case drainAndVerifyEmpty w1 of
             (False, w2) \<Rightarrow>
               writeFn (toErrorFrame sid (NewError CodeInvalidArgument ''unary session received multiple messages'') mapper) w2
           | (True, w2) \<Rightarrow>
               (case unmarshalRequest pr tq payload of
                  Inl err \<Rightarrow> writeFn (toErrorFrame sid err mapper) w2
                | Inr req \<Rightarrow>
                    (case on_rest (InvokeUnary tq ts ctx (ws_spec procedure CallShapeUnary)
                             (Some \<lparr>req_Msg = Some req, req_Meta = ws_meta procedure sid\<rparr>) h (wo_interceptors wo)) w2 of
                       (Inl err, w3) \<Rightarrow> writeFn (toErrorFrame sid err mapper) w3
                     | (Inr resp, w3) \<Rightarrow> writeResponseAndClose pr ts sid resp mapper w3))))"

definition run_server_stream ::
  "('w ws_world \<Rightarrow> goerr option \<times> 'w ws_world) \<Rightarrow> ('c, 'v, ('v, 'w ws_world) conn_state) ws_options \<Rightarrow> 'v proto \<Rightarrow> string \<Rightarrow> string
   \<Rightarrow> string \<Rightarrow> ('c, 'v, ('v, 'w ws_world) conn_state) server_stream_handler \<Rightarrow> 'c \<Rightarrow> string \<Rightarrow> 'w ws_world \<Rightarrow> 'w ws_world" where
  [go_eval]: "run_server_stream crash wo pr tq ts procedure h ctx sid w =
     (let mapper = wo_errorMapper wo in
      case recvExactlyOne w of
        (None, w1) \<Rightarrow>
          writeFn (toErrorFrame sid (NewError CodeInvalidArgument ''session closed without request'') mapper) w1
      | (Some payload, w1) \<Rightarrow>
          (case drainAndVerifyEmpty w1 of
             (False, w2) \<Rightarrow>
               writeFn (toErrorFrame sid
                 (NewError CodeInvalidArgument ''server-stream session received multiple messages'') mapper) w2
           | (True, w2) \<Rightarrow>
               (case unmarshalRequest pr tq payload of
                  Inl err \<Rightarrow> writeFn (toErrorFrame sid err mapper) w2
                | Inr req \<Rightarrow>
                    (case InvokeServerStream tq ts ctx (ws_spec procedure CallShapeServerStream)
                            (Some \<lparr>req_Msg = Some req, req_Meta = ws_meta procedure sid\<rparr>)
                            \<lparr>ss_Context = ctx, ss_Send = ws_stream_Send crash pr ts sid\<rparr> h (wo_interceptors wo) w2 of
                       (Some err, w3) \<Rightarrow> writeFn (toErrorFrame sid err mapper) w3
                     | (None, w3) \<Rightarrow> writeFn (close_frame sid) w3))))"

definition run_client_stream ::
  "('c, 'v, ('v, 'w ws_world) conn_state) ws_options \<Rightarrow> 'v proto \<Rightarrow> string \<Rightarrow> string
   \<Rightarrow> string \<Rightarrow> ('c, 'v, ('v, 'w ws_world) conn_state) client_stream_handler \<Rightarrow> 'c \<Rightarrow> string \<Rightarrow> 'w ws_world \<Rightarrow> 'w ws_world" where
  [go_eval]: "run_client_stream wo pr tq ts procedure h ctx sid w =
     (case InvokeClientStream tq ts ctx (ws_spec procedure CallShapeClientStream)
             \<lparr>cl_Context = ctx, cl_Receive = receiveRequest pr tq\<rparr> h (wo_interceptors wo) w of
        (Inl err, w1) \<Rightarrow> writeFn (toErrorFrame sid err (wo_errorMapper wo)) w1
      | (Inr resp, w1) \<Rightarrow> writeResponseAndClose pr ts sid resp (wo_errorMapper wo) w1)"

definition run_bidi ::
  "('w ws_world \<Rightarrow> goerr option \<times> 'w ws_world) \<Rightarrow> ('c, 'v, ('v, 'w ws_world) conn_state) ws_options \<Rightarrow> 'v proto \<Rightarrow> string \<Rightarrow> string
   \<Rightarrow> string \<Rightarrow> ('c, 'v, ('v, 'w ws_world) conn_state) bidi_handler \<Rightarrow> 'c \<Rightarrow> string \<Rightarrow> 'w ws_world \<Rightarrow> 'w ws_world" where
  [go_eval]: "run_bidi crash wo pr tq ts procedure h ctx sid w =
     (case InvokeBidi tq ts ctx (ws_spec procedure CallShapeBidi)
             \<lparr>bs_Context = ctx, bs_Receive = receiveRequest pr tq, bs_Send = ws_stream_Send crash pr ts sid\<rparr>
             h (wo_interceptors wo) w of
        (Some err, w1) \<Rightarrow> writeFn (toErrorFrame sid err (wo_errorMapper wo)) w1
      | (None, w1) \<Rightarrow> writeFn (close_frame sid) w1)"

section \<open>What a run writes\<close>

definition is_message :: "string \<Rightarrow> outbound_frame \<Rightarrow> bool" where
  "is_message sid f \<longleftrightarrow> out_Type f = frameTypeMessage \<and> out_ID f = sid \<and> out_Error f = None"

definition is_terminal :: "string \<Rightarrow> outbound_frame \<Rightarrow> bool" where
  "is_terminal sid f \<longleftrightarrow> out_ID f = sid \<and>
     (out_Type f = frameTypeClose \<and> out_Error f = None \<or> out_Type f = frameTypeError \<and> out_Error f \<noteq> None)"

text \<open>Message frames of the session, then exactly one terminal frame.\<close>

definition session_frames :: "string \<Rightarrow> outbound_frame list \<Rightarrow> bool" where
  "session_frames sid fs \<longleftrightarrow> fs \<noteq> [] \<and> list_all (is_message sid) (butlast fs) \<and> is_terminal sid (last fs)"

lemma frame_kinds [simp]:
  "is_message sid (message_frame sid data)" "is_terminal sid (close_frame sid)"
  "is_terminal sid (toErrorFrame sid e mapper)"
  by (simp_all add: is_message_def message_frame_def is_terminal_def close_frame_def toErrorFrame_def
      frame_of_status_def error_frame_def)

lemma session_frames_snoc [simp]:
  "session_frames sid (fs @ [f]) \<longleftrightarrow> list_all (is_message sid) fs \<and> is_terminal sid f"
  by (simp add: session_frames_def)

lemma session_frames_short [simp]:
  "session_frames sid [f] \<longleftrightarrow> is_terminal sid f"
  "session_frames sid [g, f] \<longleftrightarrow> is_message sid g \<and> is_terminal sid f"
  by (simp_all add: session_frames_def)

text \<open>\<open>w'\<close> extends the frames of \<open>w\<close> by messages of the session only.\<close>

definition adds_messages :: "string \<Rightarrow> 'w ws_world \<Rightarrow> 'w ws_world \<Rightarrow> bool" where
  "adds_messages sid w w' \<longleftrightarrow> (\<exists>ms. ws_out w' = ws_out w @ ms \<and> list_all (is_message sid) ms)"

lemma adds_messages_refl: "adds_messages sid w w"
  by (simp add: adds_messages_def)

lemma adds_messages_trans: "adds_messages sid w v \<Longrightarrow> adds_messages sid v u \<Longrightarrow> adds_messages sid w u"
  by (auto simp: adds_messages_def)

lemma chan_recv_out [simp]: "chan_recv w = (x, w') \<Longrightarrow> ws_out w' = ws_out w \<and> ws_rest w' = ws_rest w"
  by (auto simp: chan_recv_def split: list.splits)

lemma receiveRequest_adds: "adds_messages sid w (snd (receiveRequest pr tq w))"
  by (auto simp: receiveRequest_def adds_messages_def split: prod.splits option.splits sum.splits)

lemma guarded_ws_Send_adds: "adds_messages sid w (snd (guarded_send (ws_stream_Send crash pr ts sid) m w))"
  by (auto simp: guarded_send_def ws_stream_Send_def adds_messages_def writeFn_def split: option.splits sum.splits)

lemma drain_out: "drainAndVerifyEmpty w = (ok, w') \<Longrightarrow> ws_out w' = ws_out w \<and> ws_rest w' = ws_rest w"
  by (auto simp: drainAndVerifyEmpty_def split: prod.splits option.splits)

lemma on_rest_out: "on_rest f w = (x, w') \<Longrightarrow> ws_out w' = ws_out w"
  by (auto simp: on_rest_def split: prod.splits)

lemma writeResponse_frames:
  "\<exists>fs. ws_out (writeResponseAndClose pr ts sid resp mapper w) = ws_out w @ fs \<and> session_frames sid fs \<and> length fs \<le> 2"
  by (auto simp: writeResponseAndClose_def writeFn_def split: option.splits sum.splits)

lemma terminal_after_messages:
  assumes "adds_messages sid w w'" and "is_terminal sid f"
  shows "\<exists>fs. ws_out (writeFn f w') = ws_out w @ fs \<and> session_frames sid fs"
proof -
  obtain ms where ms: "ws_out w' = ws_out w @ ms" "list_all (is_message sid) ms"
    using assms(1) by (auto simp: adds_messages_def)
  then show ?thesis using assms(2) by (intro exI[of _ "ms @ [f]"]) (simp add: writeFn_def)
qed

section \<open>Properties\<close>

text \<open>
  A unary session answers exactly once, whatever the handler and the middleware do: it writes one error
  frame, or one message and one close frame, all with the session's id, and nothing after its terminal frame.
\<close>

theorem run_unary_answers_once:
  "\<exists>fs. ws_out (run_unary wo pr tq ts procedure h ctx sid w) = ws_out w @ fs \<and> session_frames sid fs \<and> length fs \<le> 2"
proof (cases "chan_recv w")
  case (Pair x w1)
  show ?thesis
  proof (cases x)
    case None
    with Pair show ?thesis by (simp add: run_unary_def recvExactlyOne_def writeFn_def Let_def)
  next
    case (Some payload)
    obtain ok w2 where d: "drainAndVerifyEmpty w1 = (ok, w2)" by fastforce
    have out2: "ws_out w2 = ws_out w" using drain_out[OF d] chan_recv_out[OF Pair] by simp
    show ?thesis
    proof (cases "ok \<and> is_ok (unmarshalRequest pr tq payload)")
      case False
      with Pair Some d out2 show ?thesis
        by (cases ok) (auto simp: run_unary_def recvExactlyOne_def writeFn_def Let_def split: sum.splits)
    next
      case True
      then obtain req where req: "unmarshalRequest pr tq payload = Inr req" by (auto simp: is_ok_iff)
      obtain r w3 where r: "on_rest (InvokeUnary tq ts ctx (ws_spec procedure CallShapeUnary)
          (Some \<lparr>req_Msg = Some req, req_Meta = ws_meta procedure sid\<rparr>) h (wo_interceptors wo)) w2 = (r, w3)" by fastforce
      have out3: "ws_out w3 = ws_out w" using on_rest_out[OF r] out2 by simp
      have step: "run_unary wo pr tq ts procedure h ctx sid w = (case r of
          Inl err \<Rightarrow> writeFn (toErrorFrame sid err (wo_errorMapper wo)) w3
        | Inr resp \<Rightarrow> writeResponseAndClose pr ts sid resp (wo_errorMapper wo) w3)"
        using Pair Some d True req r by (simp add: run_unary_def recvExactlyOne_def Let_def)
      show ?thesis
        unfolding step using out3 writeResponse_frames[of pr ts sid _ "wo_errorMapper wo" w3]
        by (cases r) (simp_all add: writeFn_def)
    qed
  qed
qed

text \<open>
  A unary handler runs only on a well-formed session: unless exactly one payload arrives before the close
  and it decodes, the program's state is untouched and the client gets a single error frame.
\<close>

theorem run_unary_guards_handler:
  "(\<exists>p m. ws_recv w = [p] \<and> unmarshalRequest pr tq p = Inr m) \<or>
   (\<exists>e. ws_out (run_unary wo pr tq ts procedure h ctx sid w) = ws_out w @ [toErrorFrame sid e (wo_errorMapper wo)]
      \<and> ws_rest (run_unary wo pr tq ts procedure h ctx sid w) = ws_rest w)"
proof (cases "ws_recv w")
  case Nil
  then show ?thesis by (auto simp: run_unary_def recvExactlyOne_def chan_recv_def writeFn_def Let_def)
next
  case (Cons p ps)
  show ?thesis
  proof (cases ps)
    case Nil
    with Cons show ?thesis
      by (cases "unmarshalRequest pr tq p")
        (auto simp: run_unary_def recvExactlyOne_def chan_recv_def drainAndVerifyEmpty_def writeFn_def Let_def)
  next
    case (Cons q qs)
    with \<open>ws_recv w = p # ps\<close> show ?thesis
      by (auto simp: run_unary_def recvExactlyOne_def chan_recv_def drainAndVerifyEmpty_def writeFn_def Let_def)
  qed
qed

lemma run_prog_recv_adds:
  "adds_messages sid w (snd (run_prog (receiveRequest pr tq) (guarded_send (ws_stream_Send crash pr ts sid)) p w))"
  by (rule run_prog_preserves) (blast intro: adds_messages_refl adds_messages_trans receiveRequest_adds guarded_ws_Send_adds)+

lemma run_prog_send_adds:
  "adds_messages sid w (snd (run_prog (\<lambda>w. (Inl EOF, w)) (guarded_send (ws_stream_Send crash pr ts sid)) p w))"
  by (rule run_prog_preserves)
    (auto intro: adds_messages_refl adds_messages_trans guarded_ws_Send_adds simp del: snd_conv simp: snd_conv)

lemma run_server_stream_frames:
  assumes "\<forall>i\<in>set (wo_interceptors wo). \<forall>h. wrap_slot i h = h"
  shows "\<exists>fs. ws_out (run_server_stream crash wo pr tq ts procedure
      (\<lambda>ctx rq st. run_prog (\<lambda>s. (Inl EOF, s)) (ss_Send st) (t ctx rq)) ctx sid w) = ws_out w @ fs \<and> session_frames sid fs"
proof -
  obtain x w1 where x: "chan_recv w = (x, w1)" by fastforce
  obtain ok w2 where d: "drainAndVerifyEmpty w1 = (ok, w2)" by fastforce
  have out2: "ws_out w2 = ws_out w" using drain_out[OF d] chan_recv_out[OF x] by simp
  show ?thesis
  proof (cases "\<exists>p req. x = Some p \<and> ok \<and> unmarshalRequest pr tq p = Inr req")
    case False
    with x d out2 chan_recv_out[OF x] show ?thesis
      by (cases x; cases ok) (auto simp: run_server_stream_def recvExactlyOne_def writeFn_def Let_def split: sum.splits)
  next
    case True
    then obtain p req where p: "x = Some p" ok "unmarshalRequest pr tq p = Inr req" by blast
    let ?rq = "Some \<lparr>req_Msg = Some req, req_Meta = ws_meta procedure sid\<rparr>"
    obtain r w3 where r: "run_prog (\<lambda>w. (Inl EOF, w)) (guarded_send (ws_stream_Send crash pr ts sid)) (t ctx ?rq) w2 = (r, w3)"
      by fastforce
    then have "adds_messages sid w2 w3"
      using run_prog_send_adds[of sid w2 crash pr ts "t ctx ?rq"] by simp
    then have "adds_messages sid w w3" using out2 by (simp add: adds_messages_def)
    moreover have "run_server_stream crash wo pr tq ts procedure
        (\<lambda>ctx rq st. run_prog (\<lambda>s. (Inl EOF, s)) (ss_Send st) (t ctx rq)) ctx sid w =
        (case r of Some err \<Rightarrow> writeFn (toErrorFrame sid err (wo_errorMapper wo)) w3
         | None \<Rightarrow> writeFn (close_frame sid) w3)"
      unfolding run_server_stream_def InvokeServerStream_prog[OF assms]
      using x d p r by (simp add: recvExactlyOne_def Let_def)
    ultimately show ?thesis by (cases r) (simp_all add: terminal_after_messages)
  qed
qed

text \<open>
  C33. A streaming session ends exactly once: behind pass-through middleware, whatever program a bidi,
  client-stream or server-stream handler runs on its stream, and whether or not a nil response would crash, the session
  writes messages of its own id followed by one terminal frame.
\<close>

theorem run_streams_end_once:
  assumes "\<forall>i\<in>set (wo_interceptors wo). \<forall>h. wrap_slot i h = h"
  shows "(\<exists>fs. ws_out (run_bidi crash wo pr tq ts procedure
              (\<lambda>ctx st. run_prog (bs_Receive st) (bs_Send st) (p ctx)) ctx sid w) = ws_out w @ fs \<and> session_frames sid fs)
    \<and> (\<exists>fs. ws_out (run_client_stream wo pr tq ts procedure
              (\<lambda>ctx st. run_prog (cl_Receive st) (\<lambda>m s. (None, s)) (q ctx)) ctx sid w) = ws_out w @ fs \<and> session_frames sid fs)
    \<and> (\<exists>fs. ws_out (run_server_stream crash wo pr tq ts procedure
              (\<lambda>ctx rq st. run_prog (\<lambda>s. (Inl EOF, s)) (ss_Send st) (t ctx rq)) ctx sid w) = ws_out w @ fs \<and> session_frames sid fs)"
proof (intro conjI)
  show "\<exists>fs. ws_out (run_server_stream crash wo pr tq ts procedure
      (\<lambda>ctx rq st. run_prog (\<lambda>s. (Inl EOF, s)) (ss_Send st) (t ctx rq)) ctx sid w) = ws_out w @ fs \<and> session_frames sid fs"
    by (rule run_server_stream_frames[OF assms])
  obtain r w1 where r: "run_prog (receiveRequest pr tq) (guarded_send (ws_stream_Send crash pr ts sid)) (p ctx) w = (r, w1)"
    by fastforce
  then have "adds_messages sid w w1"
    using run_prog_recv_adds[of sid w pr tq crash ts "p ctx"] by simp
  then show "\<exists>fs. ws_out (run_bidi crash wo pr tq ts procedure
      (\<lambda>ctx st. run_prog (bs_Receive st) (bs_Send st) (p ctx)) ctx sid w) = ws_out w @ fs \<and> session_frames sid fs"
    unfolding run_bidi_def InvokeBidi_prog[OF assms]
    by (auto simp: r split: option.splits intro: terminal_after_messages)
  obtain x w2 where x: "run_prog (receiveRequest pr tq) (\<lambda>m w. (None, w)) (q ctx) w = (x, w2)" by fastforce
  have keep: "ws_out (snd (run_prog (receiveRequest pr tq) (\<lambda>m w. (None, w)) pg w)) = ws_out w" for pg
    using run_prog_preserves[of "\<lambda>u v. ws_out v = ws_out u" "receiveRequest pr tq" "\<lambda>m w. (None, w)" w pg]
    by (auto simp: receiveRequest_def split: prod.splits option.splits sum.splits)
  have "ws_out w2 = ws_out w" using keep[of "q ctx"] x by simp
  then show "\<exists>fs. ws_out (run_client_stream wo pr tq ts procedure
      (\<lambda>ctx st. run_prog (cl_Receive st) (\<lambda>m s. (None, s)) (q ctx)) ctx sid w) = ws_out w @ fs \<and> session_frames sid fs"
    unfolding run_client_stream_def InvokeClientStream_prog[OF assms]
    using writeResponse_frames[of pr ts sid _ "wo_errorMapper wo" w2]
    by (auto simp: x writeFn_def split: sum.splits)
qed

definition example_proto :: "string proto" where
  "example_proto = \<lparr>isRequest = True, isResponse = True, pjUnmarshal = (\<lambda>s. Inr s),
     pjMarshal = (\<lambda>m. case m of Some s \<Rightarrow> Inr s | None \<Rightarrow> Inr ''{}'')\<rparr>"

theorem run_streams_end_once_witness:
  "\<exists>fs. ws_out (run_bidi (\<lambda>w. (None, w)) (ws_WithInterceptors [None] defaultOptions) example_proto ''Req'' ''Res'' ''/p.S/M''
      (\<lambda>ctx st. run_prog (bs_Receive st) (bs_Send st)
         (Send (Some \<lparr>resp_Msg = Some ''x'', resp_Meta = meta_zero\<rparr>) (\<lambda>e. Return e))) () ''1''
      \<lparr>ws_recv = [''a''], ws_out = [], ws_rest = ()\<rparr>) = [] @ fs \<and> session_frames ''1'' fs"
proof -
  let ?w = "\<lparr>ws_recv = [''a''], ws_out = [], ws_rest = ()\<rparr>"
  have "\<forall>i\<in>set (wo_interceptors (ws_WithInterceptors [None] defaultOptions :: (unit, string, (string, unit ws_world) conn_state) ws_options)).
      \<forall>h. wrap_slot i h = h"
    by (simp add: ws_WithInterceptors_def)
  from run_streams_end_once[OF this, where w = ?w and sid = "''1''" and crash = "\<lambda>w. (None, w)" and pr = example_proto
      and p = "\<lambda>_. Send (Some \<lparr>resp_Msg = Some ''x'', resp_Meta = meta_zero\<rparr>) Return" and ctx = "()"]
  show ?thesis by simp
qed

end
