(* ===== verification/WsServer.thy ===== *)
theory WsServer imports WsHandlers "HOL-Library.Sublist" begin

text \<open>
  The session machine of \<open>transport/ws/server.go\<close>: what each inbound frame does to the connection, with the
  handler goroutines as other steps between frames. A goroutine's channel and context are those of its
  session, so goroutines are identified with the session they run. The semaphore is the number of its
  tokens in use; \<open>leaving\<close> counts the goroutines that have deleted their session and not yet released
  their token. \<open>sent\<close> is the history of the frames written. Sending on a closed channel panics.
\<close>

section \<open>State\<close>

definition recvChBufSize :: nat where [go_eval]: "recvChBufSize = 64"

record session_info =
  si_recvCh :: "string list"
  si_chClosed :: bool
  si_closed :: bool
  si_cancelled :: bool

definition new_session :: session_info where
  [go_eval]: "new_session = \<lparr>si_recvCh = [], si_chClosed = False, si_closed = False, si_cancelled = False\<rparr>"

record server_cfg =
  cfg_handlers :: "string \<rightharpoonup> string"
  cfg_maxInflight :: nat
  cfg_errorMapper :: error_mapper

record server =
  sessions :: "string \<rightharpoonup> session_info"
  sem :: nat
  leaving :: nat
  sent :: "outbound_frame list"

definition init_server :: server where
  [go_eval]: "init_server = \<lparr>sessions = Map.empty, sem = 0, leaving = 0, sent = []\<rparr>"

text \<open>
  The handlers registered by \<open>HandleUnary\<close> and its siblings, of which only the shapes matter here, and the
  start of \<open>serve\<close>: \<open>None\<close> is the panic of making a channel of negative size.
\<close>

definition register_handler :: "string \<Rightarrow> string \<Rightarrow> (string \<rightharpoonup> string) \<Rightarrow> string \<rightharpoonup> string" where
  [go_eval]: "register_handler procedure shape handlers = handlers(procedure \<mapsto> shape)"

definition serve_start :: "(string \<rightharpoonup> string) \<Rightarrow> ('c, 'v, 's) ws_options \<Rightarrow> (server_cfg \<times> server) option" where
  [go_eval]: "serve_start handlers wo =
     (if wo_maxInflight wo < 0 then None
      else Some (\<lparr>cfg_handlers = handlers, cfg_maxInflight = nat (wo_maxInflight wo), cfg_errorMapper = wo_errorMapper wo\<rparr>,
             init_server))"

definition srv_write :: "outbound_frame \<Rightarrow> server \<Rightarrow> server" where
  [go_eval]: "srv_write f s = s\<lparr>sent := sent s @ [f]\<rparr>"

section \<open>Frame handlers\<close>

text \<open>\<open>startSession\<close> is called with a token already taken; a duplicate gives it back.\<close>

definition startSession :: "inbound_frame \<Rightarrow> server \<Rightarrow> goerr option \<times> server" where
  [go_eval]: "startSession frame s =
     (if sessions s (in_ID frame) \<noteq> None
      then (Some (NewError CodeAlreadyExists (''duplicate session id: '' @ in_ID frame)), s\<lparr>sem := sem s - 1\<rparr>)
      else (None, s\<lparr>sessions := (sessions s)(in_ID frame \<mapsto> new_session)\<rparr>))"

definition handleOpen :: "server_cfg \<Rightarrow> inbound_frame \<Rightarrow> server \<Rightarrow> server" where
  [go_eval]: "handleOpen cfg frame s =
     (case cfg_handlers cfg (in_Procedure frame) of
        None \<Rightarrow>
          srv_write (error_frame (in_ID frame)
            \<lparr>ed_Code = CodeNotFound, ed_Message = ''unknown procedure: '' @ in_Procedure frame, ed_Retryable = False\<rparr>) s
      | Some shape \<Rightarrow>
          if in_Shape frame \<noteq> shape then
            srv_write (error_frame (in_ID frame)
              \<lparr>ed_Code = CodeInvalidArgument,
               ed_Message = ''shape mismatch: want '' @ shape @ '', got '' @ in_Shape frame, ed_Retryable = False\<rparr>) s
          else if \<not> sem s < cfg_maxInflight cfg then
            srv_write (error_frame (in_ID frame)
              \<lparr>ed_Code = CodeUnavailable, ed_Message = ''max inflight exceeded'', ed_Retryable = True\<rparr>) s
          else
            (case startSession frame (s\<lparr>sem := sem s + 1\<rparr>) of
               (Some err, s') \<Rightarrow> srv_write (toErrorFrame (in_ID frame) err (cfg_errorMapper cfg)) s'
             | (None, s') \<Rightarrow> s'))"

text \<open>\<open>None\<close> is the panic of a send on a closed channel; a full channel drops the payload.\<close>

definition handleMessage :: "inbound_frame \<Rightarrow> server \<Rightarrow> server option" where
  [go_eval]: "handleMessage frame s =
     (case sessions s (in_ID frame) of
        None \<Rightarrow>
          Some (srv_write (error_frame (in_ID frame)
            \<lparr>ed_Code = CodeNotFound, ed_Message = ''session not found: '' @ in_ID frame, ed_Retryable = False\<rparr>) s)
      | Some sess \<Rightarrow>
          if si_closed sess then Some s
          else if si_chClosed sess then None
          else if length (si_recvCh sess) < recvChBufSize
          then Some (s\<lparr>sessions := (sessions s)(in_ID frame \<mapsto> sess\<lparr>si_recvCh := si_recvCh sess @ [in_Payload frame]\<rparr>)\<rparr>)
          else Some s)"

definition safeCloseRecvCh :: "session_info \<Rightarrow> session_info" where
  [go_eval]: "safeCloseRecvCh sess = (if si_chClosed sess then sess else sess\<lparr>si_chClosed := True\<rparr>)"

definition handleClose :: "inbound_frame \<Rightarrow> server \<Rightarrow> server" where
  [go_eval]: "handleClose frame s =
     (case sessions s (in_ID frame) of
        None \<Rightarrow> s
      | Some sess \<Rightarrow> s\<lparr>sessions := (sessions s)(in_ID frame \<mapsto> safeCloseRecvCh (sess\<lparr>si_closed := True\<rparr>))\<rparr>)"

definition handleCancel :: "inbound_frame \<Rightarrow> server \<Rightarrow> server" where
  [go_eval]: "handleCancel frame s =
     (case sessions s (in_ID frame) of
        None \<Rightarrow> s
      | Some sess \<Rightarrow> s\<lparr>sessions := (sessions s)(in_ID frame \<mapsto> sess\<lparr>si_cancelled := True\<rparr>)\<rparr>)"

text \<open>One round of the read loop on a frame that decoded; other types are ignored.\<close>

definition readFrame :: "server_cfg \<Rightarrow> inbound_frame \<Rightarrow> server \<Rightarrow> server option" where
  [go_eval]: "readFrame cfg frame s =
     (if in_Type frame = frameTypeOpen then Some (handleOpen cfg frame s)
      else if in_Type frame = frameTypeMessage then handleMessage frame s
      else if in_Type frame = frameTypeClose then Some (handleClose frame s)
      else if in_Type frame = frameTypeCancel then Some (handleCancel frame s)
      else Some s)"

definition closeAllSessions :: "server \<Rightarrow> server" where
  [go_eval]: "closeAllSessions s =
     s\<lparr>sessions := (\<lambda>sid. map_option (\<lambda>sess. safeCloseRecvCh (sess\<lparr>si_cancelled := True\<rparr>)) (sessions s sid))\<rparr>"

section \<open>Steps\<close>

text \<open>
  What happens on a connection: the read loop handles a frame; a session's handler receives a payload or the
  end of its channel, writes a frame, returns (its session is deleted), and its token is released.
\<close>

datatype event =
    In inbound_frame
  | HandlerRecv string "string option"
  | HandlerWrite outbound_frame
  | HandlerReturn string
  | TokenRelease

inductive server_step :: "server_cfg \<Rightarrow> server \<Rightarrow> event \<Rightarrow> server \<Rightarrow> bool" for cfg where
  frame: "readFrame cfg f s = Some s' \<Longrightarrow> server_step cfg s (In f) s'"
| recv: "sessions s sid = Some sess \<Longrightarrow> si_recvCh sess = p # ps \<Longrightarrow>
    server_step cfg s (HandlerRecv sid (Some p)) (s\<lparr>sessions := (sessions s)(sid \<mapsto> sess\<lparr>si_recvCh := ps\<rparr>)\<rparr>)"
| eof: "sessions s sid = Some sess \<Longrightarrow> si_recvCh sess = [] \<Longrightarrow> si_chClosed sess \<Longrightarrow>
    server_step cfg s (HandlerRecv sid None) s"
| handler_write: "sessions s (out_ID f) \<noteq> None \<Longrightarrow> server_step cfg s (HandlerWrite f) (srv_write f s)"
| handler_return: "sessions s sid \<noteq> None \<Longrightarrow>
    server_step cfg s (HandlerReturn sid) (s\<lparr>sessions := (sessions s)(sid := None), leaving := leaving s + 1\<rparr>)"
| release: "0 < leaving s \<Longrightarrow>
    server_step cfg s TokenRelease (s\<lparr>leaving := leaving s - 1, sem := sem s - 1\<rparr>)"

inductive server_run :: "server_cfg \<Rightarrow> server \<Rightarrow> event list \<Rightarrow> server \<Rightarrow> bool" for cfg where
  start: "server_run cfg s [] s"
| more: "server_run cfg s tr t \<Longrightarrow> server_step cfg t ev u \<Longrightarrow> server_run cfg s (tr @ [ev]) u"

inductive_cases server_step_InE: "server_step cfg s (In f) s'"
inductive_cases server_step_RecvE: "server_step cfg s (HandlerRecv sid p) s'"
inductive_cases server_step_WriteE: "server_step cfg s (HandlerWrite f) s'"
inductive_cases server_step_ReturnE: "server_step cfg s (HandlerReturn sid) s'"
inductive_cases server_step_ReleaseE: "server_step cfg s TokenRelease s'"

lemmas server_stepEs = server_step_InE server_step_RecvE server_step_WriteE server_step_ReturnE server_step_ReleaseE

section \<open>The invariant\<close>

definition session_ok :: "session_info \<Rightarrow> bool" where
  "session_ok sess \<longleftrightarrow> si_closed sess = si_chClosed sess \<and> length (si_recvCh sess) \<le> recvChBufSize"

definition server_ok :: "server_cfg \<Rightarrow> server \<Rightarrow> bool" where
  "server_ok cfg s \<longleftrightarrow>
     finite (dom (sessions s)) \<and> card (dom (sessions s)) + leaving s = sem s \<and> sem s \<le> cfg_maxInflight cfg \<and>
     (\<forall>sess \<in> ran (sessions s). session_ok sess)"

lemma server_ok_init [inv_intros]: "server_ok cfg init_server"
  by (simp add: server_ok_def init_server_def)

lemma write_simps [simp]:
  "sessions (srv_write f s) = sessions s" "sem (srv_write f s) = sem s" "leaving (srv_write f s) = leaving s"
  "sent (srv_write f s) = sent s @ [f]"
  by (simp_all add: srv_write_def)

lemma server_ok_srv_write [inv_intros]: "server_ok cfg s \<Longrightarrow> server_ok cfg (srv_write f s)"
  by (simp add: server_ok_def)

lemma server_ok_update:
  assumes "server_ok cfg s" and "sessions s sid = Some old" and "session_ok new"
  shows "server_ok cfg (s\<lparr>sessions := (sessions s)(sid \<mapsto> new)\<rparr>)"
proof -
  have "insert sid (dom (sessions s)) = dom (sessions s)" using assms(2) by auto
  moreover have "session_ok sess" if "sess \<in> ran ((sessions s)(sid \<mapsto> new))" for sess
    using that assms(1,3) by (auto simp: server_ok_def ran_def split: if_splits)
  ultimately show ?thesis using assms(1) by (simp add: server_ok_def)
qed

lemma server_ok_lookup: "server_ok cfg s \<Longrightarrow> sessions s sid = Some sess \<Longrightarrow> session_ok sess"
  by (auto simp: server_ok_def ran_def)

lemma handleOpen_ok [inv_intros]: "server_ok cfg s \<Longrightarrow> server_ok cfg (handleOpen cfg frame s)"
proof -
  assume ok: "server_ok cfg s"
  have opened: "server_ok cfg (s\<lparr>sem := Suc (sem s), sessions := (sessions s)(in_ID frame \<mapsto> new_session)\<rparr>)"
    if "sessions s (in_ID frame) = None" "sem s < cfg_maxInflight cfg"
  proof -
    have "in_ID frame \<notin> dom (sessions s)" using that by auto
    moreover have "session_ok sess" if "sess \<in> ran ((sessions s)(in_ID frame \<mapsto> new_session))" for sess
      using that ok by (auto simp: server_ok_def ran_def session_ok_def new_session_def split: if_splits)
    ultimately show ?thesis using ok that by (simp add: server_ok_def)
  qed
  show ?thesis
    using ok opened
    by (auto simp: handleOpen_def startSession_def server_ok_srv_write split: option.splits)
qed

lemma handleMessage_ok [inv_intros]:
  assumes "server_ok cfg s" and "handleMessage frame s = Some s'"
  shows "server_ok cfg s'"
proof (cases "sessions s (in_ID frame)")
  case None
  with assms show ?thesis by (auto simp: handleMessage_def server_ok_srv_write)
next
  case (Some sess)
  note ok = server_ok_lookup[OF assms(1) Some]
  show ?thesis
  proof (cases "\<not> si_closed sess \<and> length (si_recvCh sess) < recvChBufSize")
    case True
    with ok have "session_ok (sess\<lparr>si_recvCh := si_recvCh sess @ [in_Payload frame]\<rparr>)" by (simp add: session_ok_def)
    with server_ok_update[OF assms(1) Some] True assms(2) Some ok show ?thesis
      by (auto simp: handleMessage_def session_ok_def split: if_splits)
  next
    case False
    with assms Some show ?thesis by (auto simp: handleMessage_def split: if_splits)
  qed
qed

lemma handleMessage_no_panic: "server_ok cfg s \<Longrightarrow> handleMessage frame s \<noteq> None"
  by (auto simp: handleMessage_def session_ok_def split: option.splits dest!: server_ok_lookup)

lemma handleClose_ok [inv_intros]: "server_ok cfg s \<Longrightarrow> server_ok cfg (handleClose frame s)"
  by (auto simp: handleClose_def safeCloseRecvCh_def session_ok_def split: option.splits
      intro!: server_ok_update dest: server_ok_lookup)

lemma handleCancel_ok [inv_intros]: "server_ok cfg s \<Longrightarrow> server_ok cfg (handleCancel frame s)"
  by (auto simp: handleCancel_def session_ok_def split: option.splits intro!: server_ok_update dest: server_ok_lookup)

lemma readFrame_ok [inv_intros]: "server_ok cfg s \<Longrightarrow> readFrame cfg frame s = Some s' \<Longrightarrow> server_ok cfg s'"
  by (auto simp: readFrame_def handleOpen_ok handleClose_ok handleCancel_ok split: if_splits intro: handleMessage_ok)

lemma server_step_ok [inv_intros]:
  assumes "server_ok cfg s" and "server_step cfg s ev s'"
  shows "server_ok cfg s'"
  using assms(2)
proof cases
  case (frame f)
  with assms(1) readFrame_ok show ?thesis by blast
next
  case (recv sid sess p ps)
  with server_ok_lookup[OF assms(1) recv(3)] have "session_ok (sess\<lparr>si_recvCh := ps\<rparr>)" by (simp add: session_ok_def)
  with server_ok_update[OF assms(1) recv(3)] recv(2) show ?thesis by simp
next
  case (handler_return sid)
  then have "sid \<in> dom (sessions s)" by auto
  moreover have "\<forall>sess\<in>ran ((sessions s)(sid := None)). session_ok sess"
    using assms(1) by (auto simp: server_ok_def ran_def)
  ultimately show ?thesis using assms(1) handler_return card_gt_0_iff[of "dom (sessions s)"]
    by (auto simp: server_ok_def card_Diff_singleton)
next
  case release
  with assms(1) show ?thesis by (auto simp: server_ok_def)
qed (use assms(1) server_ok_srv_write in auto)

lemma server_run_ok: "server_run cfg s tr t \<Longrightarrow> server_ok cfg s \<Longrightarrow> server_ok cfg t"
  by (induction rule: server_run.induct) (auto intro: server_step_ok)

section \<open>Delivery\<close>

text \<open>
  The inbound frames of a session in a trace, the payloads it was offered before its close, and the
  payloads its handler received.
\<close>

fun inbound :: "string \<Rightarrow> event list \<Rightarrow> inbound_frame list" where
  "inbound sid [] = []"
| "inbound sid (In f # tr) = (if in_ID f = sid then f # inbound sid tr else inbound sid tr)"
| "inbound sid (_ # tr) = inbound sid tr"

definition offered :: "string \<Rightarrow> event list \<Rightarrow> string list" where
  "offered sid tr = map in_Payload (filter (\<lambda>f. in_Type f = frameTypeMessage)
     (takeWhile (\<lambda>f. in_Type f \<noteq> frameTypeClose) (inbound sid tr)))"

definition closed_by :: "string \<Rightarrow> event list \<Rightarrow> bool" where
  "closed_by sid tr \<longleftrightarrow> (\<exists>f \<in> set (inbound sid tr). in_Type f = frameTypeClose)"

fun received :: "string \<Rightarrow> event list \<Rightarrow> string list" where
  "received sid [] = []"
| "received sid (HandlerRecv i (Some p) # tr) = (if i = sid then p # received sid tr else received sid tr)"
| "received sid (_ # tr) = received sid tr"

lemma inbound_append: "inbound sid (tr @ tr') = inbound sid tr @ inbound sid tr'"
  by (induction sid tr rule: inbound.induct) auto

lemma received_append: "received sid (tr @ tr') = received sid tr @ received sid tr'"
  by (induction sid tr rule: received.induct) auto

lemma frame_types [simp]:
  "frameTypeMessage \<noteq> frameTypeClose" "frameTypeOpen \<noteq> frameTypeMessage" "frameTypeOpen \<noteq> frameTypeClose"
  "frameTypeCancel \<noteq> frameTypeOpen" "frameTypeCancel \<noteq> frameTypeMessage" "frameTypeCancel \<noteq> frameTypeClose"
  "frameTypeMessage \<noteq> frameTypeOpen" "frameTypeClose \<noteq> frameTypeMessage" "frameTypeClose \<noteq> frameTypeOpen"
  "frameTypeOpen \<noteq> frameTypeCancel" "frameTypeMessage \<noteq> frameTypeCancel" "frameTypeClose \<noteq> frameTypeCancel"
  "frameTypeError \<noteq> frameTypeClose" "frameTypeError \<noteq> frameTypeMessage"
  by (simp_all add: frameTypeOpen_def frameTypeMessage_def frameTypeClose_def frameTypeCancel_def frameTypeError_def)

lemma offered_snoc:
  "offered sid (tr @ [ev]) =
     (if \<not> closed_by sid tr \<and> (\<exists>f. ev = In f \<and> in_ID f = sid \<and> in_Type f = frameTypeMessage)
      then offered sid tr @ [in_Payload (case ev of In f \<Rightarrow> f)] else offered sid tr)"
proof (cases "closed_by sid tr")
  case True
  then have "takeWhile (\<lambda>f. in_Type f \<noteq> frameTypeClose) (inbound sid tr @ xs) =
      takeWhile (\<lambda>f. in_Type f \<noteq> frameTypeClose) (inbound sid tr)" for xs
    by (auto simp: closed_by_def takeWhile_append1)
  with True show ?thesis by (simp add: offered_def inbound_append)
next
  case False
  then have "takeWhile (\<lambda>f. in_Type f \<noteq> frameTypeClose) (inbound sid tr @ xs) =
      inbound sid tr @ takeWhile (\<lambda>f. in_Type f \<noteq> frameTypeClose) xs" for xs
    by (auto simp: closed_by_def takeWhile_append2)
  moreover from this[of "[]"] have "takeWhile (\<lambda>f. in_Type f \<noteq> frameTypeClose) (inbound sid tr) = inbound sid tr"
    by simp
  ultimately show ?thesis using False by (cases ev) (auto simp: offered_def inbound_append takeWhile_eq_all_conv[THEN iffD2])
qed

lemma closed_by_snoc:
  "closed_by sid (tr @ [ev]) \<longleftrightarrow> closed_by sid tr \<or> (\<exists>f. ev = In f \<and> in_ID f = sid \<and> in_Type f = frameTypeClose)"
  by (cases ev) (auto simp: closed_by_def inbound_append)

text \<open>What delivery means for a session whose handler still runs.\<close>

definition delivers :: "string \<Rightarrow> event list \<Rightarrow> session_info \<Rightarrow> bool" where
  "delivers sid tr sess \<longleftrightarrow>
     si_closed sess = closed_by sid tr \<and> si_chClosed sess = closed_by sid tr \<and>
     subseq (received sid tr @ si_recvCh sess) (offered sid tr) \<and>
     (length (offered sid tr) \<le> recvChBufSize \<longrightarrow> received sid tr @ si_recvCh sess = offered sid tr)"

text \<open>The effect of one step on a session that stays.\<close>

lemma readFrame_session:
  assumes "readFrame cfg f s = Some s'" and "sessions s sid = Some sess"
  shows "sessions s' sid = Some
    (if in_ID f \<noteq> sid then sess
     else if in_Type f = frameTypeMessage then
       (if si_closed sess then sess
        else if length (si_recvCh sess) < recvChBufSize then sess\<lparr>si_recvCh := si_recvCh sess @ [in_Payload f]\<rparr>
        else sess)
     else if in_Type f = frameTypeClose then safeCloseRecvCh (sess\<lparr>si_closed := True\<rparr>)
     else if in_Type f = frameTypeCancel then sess\<lparr>si_cancelled := True\<rparr>
     else sess)"
proof -
  consider "in_Type f = frameTypeOpen" | "in_Type f = frameTypeMessage" | "in_Type f = frameTypeClose"
    | "in_Type f = frameTypeCancel"
    | "in_Type f \<noteq> frameTypeOpen" "in_Type f \<noteq> frameTypeMessage" "in_Type f \<noteq> frameTypeClose" "in_Type f \<noteq> frameTypeCancel"
    by blast
  then show ?thesis
  proof cases
    case 1
    with assms show ?thesis
      by (auto simp: readFrame_def handleOpen_def startSession_def split: option.splits if_splits)
  next
    case 2
    with assms show ?thesis
      by (auto simp: readFrame_def handleMessage_def split: option.splits if_splits)
  qed (use assms in \<open>auto simp: readFrame_def handleClose_def handleCancel_def split: option.splits\<close>)
qed

lemma received_snoc:
  "received sid (tr @ [ev]) =
     received sid tr @ (case ev of HandlerRecv i (Some p) \<Rightarrow> (if i = sid then [p] else []) | _ \<Rightarrow> [])"
  by (cases ev) (auto simp: received_append split: option.splits)

lemma subseq_snoc: "subseq (xs @ ys) zs \<Longrightarrow> subseq (xs @ ys @ [p]) (zs @ [p])"
  using subseq_append[of "xs @ ys" "[p]" zs] by simp

lemma delivers_frame:
  assumes "delivers sid tr sess" and "readFrame cfg f s = Some s'" and "sessions s sid = Some sess"
  shows "\<exists>sess'. sessions s' sid = Some sess' \<and> delivers sid (tr @ [In f]) sess'"
proof (cases "in_ID f = sid \<and> (in_Type f = frameTypeMessage \<or> in_Type f = frameTypeClose)")
  case False
  then have "offered sid (tr @ [In f]) = offered sid tr" "closed_by sid (tr @ [In f]) = closed_by sid tr"
    by (auto simp: offered_snoc closed_by_snoc)
  with assms(1) readFrame_session[OF assms(2,3)] False show ?thesis
    by (auto simp: delivers_def received_snoc)
next
  case True
  show ?thesis
  proof (cases "in_Type f = frameTypeMessage")
    case False
    with True assms(1) readFrame_session[OF assms(2,3)] show ?thesis
      by (simp add: delivers_def received_snoc offered_snoc closed_by_snoc safeCloseRecvCh_def)
  next
    case msg: True
    show ?thesis
    proof (cases "closed_by sid tr \<or> length (si_recvCh sess) < recvChBufSize")
      case True
      with msg \<open>in_ID f = sid \<and> _\<close> assms(1) readFrame_session[OF assms(2,3)] show ?thesis
        by (auto simp: delivers_def received_snoc offered_snoc closed_by_snoc intro: subseq_snoc)
    next
      case full: False
      have sub: "subseq (received sid tr @ si_recvCh sess) (offered sid tr)"
        using assms(1) by (simp add: delivers_def)
      then have "recvChBufSize \<le> length (offered sid tr)"
        using list_emb_length[OF sub] full by simp
      with full msg \<open>in_ID f = sid \<and> _\<close> assms(1) readFrame_session[OF assms(2,3)] sub show ?thesis
        by (auto simp: delivers_def received_snoc offered_snoc closed_by_snoc intro: list_emb_append2)
    qed
  qed
qed

lemma delivers_run:
  assumes "server_run cfg s tr t" and "sessions s sid = Some new_session" and "HandlerReturn sid \<notin> set tr"
  shows "\<exists>sess. sessions t sid = Some sess \<and> delivers sid tr sess"
  using assms
proof (induction rule: server_run.induct)
  case (start s)
  then show ?case by (simp add: delivers_def new_session_def closed_by_def offered_def)
next
  case (more s tr t ev u)
  then obtain sess where sess: "sessions t sid = Some sess" "delivers sid tr sess" by auto
  have keep: "offered sid (tr @ [ev]) = offered sid tr \<and> closed_by sid (tr @ [ev]) = closed_by sid tr"
    if "\<And>f. ev \<noteq> In f"
    using that by (auto simp: offered_snoc closed_by_snoc)
  from more.hyps(2) show ?case
  proof cases
    case (frame f)
    with delivers_frame[OF sess(2) frame(2) sess(1)] show ?thesis by simp
  next
    case (recv i si p ps)
    with sess keep show ?thesis by (auto simp: delivers_def received_snoc)
  next
    case (handler_return i)
    with more.prems sess keep show ?thesis by (auto simp: delivers_def received_snoc)
  qed (use sess keep in \<open>auto simp: delivers_def received_snoc\<close>)
qed

section \<open>Running a trace\<close>

text \<open>The step relation as a function of the event: it is deterministic and executable.\<close>

fun exec_event :: "server_cfg \<Rightarrow> event \<Rightarrow> server \<Rightarrow> server option" where
  "exec_event cfg (In f) s = readFrame cfg f s"
| "exec_event cfg (HandlerRecv sid (Some p)) s =
     (case sessions s sid of
        None \<Rightarrow> None
      | Some sess \<Rightarrow>
          (case si_recvCh sess of
             [] \<Rightarrow> None
           | q # ps \<Rightarrow> if q = p then Some (s\<lparr>sessions := (sessions s)(sid \<mapsto> sess\<lparr>si_recvCh := ps\<rparr>)\<rparr>) else None))"
| "exec_event cfg (HandlerRecv sid None) s =
     (case sessions s sid of
        None \<Rightarrow> None
      | Some sess \<Rightarrow> if si_recvCh sess = [] \<and> si_chClosed sess then Some s else None)"
| "exec_event cfg (HandlerWrite f) s = (if sessions s (out_ID f) \<noteq> None then Some (srv_write f s) else None)"
| "exec_event cfg (HandlerReturn sid) s =
     (if sessions s sid \<noteq> None
      then Some (s\<lparr>sessions := (sessions s)(sid := None), leaving := leaving s + 1\<rparr>) else None)"
| "exec_event cfg TokenRelease s =
     (if 0 < leaving s then Some (s\<lparr>leaving := leaving s - 1, sem := sem s - 1\<rparr>) else None)"

fun exec_run :: "server_cfg \<Rightarrow> event list \<Rightarrow> server \<Rightarrow> server option" where
  "exec_run cfg [] s = Some s"
| "exec_run cfg (ev # tr) s = (case exec_event cfg ev s of None \<Rightarrow> None | Some t \<Rightarrow> exec_run cfg tr t)"

lemma exec_event_step: "exec_event cfg ev s = Some t \<longleftrightarrow> server_step cfg s ev t"
proof
  assume "exec_event cfg ev s = Some t"
  then show "server_step cfg s ev t"
    by (induction cfg ev s rule: exec_event.induct)
      (auto intro: server_step.intros server_step.handler_return[simplified] server_step.release[simplified]
        split: option.splits list.splits if_splits)
next
  assume "server_step cfg s ev t"
  then show "exec_event cfg ev s = Some t"
    by cases auto
qed

lemma exec_run_append:
  "exec_run cfg (tr @ tr') s = (case exec_run cfg tr s of None \<Rightarrow> None | Some t \<Rightarrow> exec_run cfg tr' t)"
  by (induction cfg tr s rule: exec_run.induct) (auto split: option.splits)

lemma exec_run_run: "exec_run cfg tr s = Some t \<Longrightarrow> server_run cfg s tr t"
proof (induction tr arbitrary: t rule: rev_induct)
  case Nil
  then show ?case using server_run.start by simp
next
  case (snoc ev tr)
  then obtain u where "exec_run cfg tr s = Some u" "exec_event cfg ev u = Some t"
    by (auto simp: exec_run_append split: option.splits)
  with snoc.IH[of u] show ?case using server_run.more exec_event_step by blast
qed

definition open_frame :: "string \<Rightarrow> inbound_frame" where
  [go_eval]: "open_frame sid = \<lparr>in_Type = frameTypeOpen, in_ID = sid, in_Procedure = ''/p.S/M'', in_Shape = ''bidi'', in_Payload = []\<rparr>"

definition client_frame :: "string \<Rightarrow> string \<Rightarrow> string \<Rightarrow> inbound_frame" where
  [go_eval]: "client_frame ty sid payload =
     \<lparr>in_Type = ty, in_ID = sid, in_Procedure = [], in_Shape = [], in_Payload = payload\<rparr>"

definition example_cfg :: server_cfg where
  [go_eval]: "example_cfg = \<lparr>cfg_handlers = [''/p.S/M'' \<mapsto> ''bidi''], cfg_maxInflight = 64, cfg_errorMapper = None\<rparr>"

definition opened :: server where
  [go_eval]: "opened = \<lparr>sessions = [''1'' \<mapsto> new_session], sem = 1, leaving = 0, sent = []\<rparr>"

definition fed :: server where
  [go_eval]: "fed = opened\<lparr>sessions := [''1'' \<mapsto> new_session\<lparr>si_chClosed := True, si_closed := True\<rparr>]\<rparr>"

definition feeding :: "event list" where
  [go_eval]: "feeding = [In (client_frame ''message'' ''1'' ''a''), HandlerRecv ''1'' (Some ''a''), In (client_frame ''close'' ''1'' [])]"

lemma run_opened: "server_run example_cfg init_server [In (open_frame ''1'')] opened"
  by (rule exec_run_run) (simp add: go_eval frameTypeOpen_def)

lemma run_fed: "server_run example_cfg opened feeding fed"
  by (rule exec_run_run) (simp add: go_eval)

section \<open>Properties\<close>

text \<open>
  C8. The server bounds its work and leaks no token: on every reachable state the running handlers, counting
  those on their way out, are exactly the tokens taken, never more than the configured maximum, and no
  session buffers more than 64 payloads.
\<close>

theorem ws_inflight_bounded:
  assumes "server_run cfg init_server tr s"
  shows "card (dom (sessions s)) + leaving s = sem s \<and> sem s \<le> cfg_maxInflight cfg
    \<and> (\<forall>sess \<in> ran (sessions s). length (si_recvCh sess) \<le> 64)"
  using server_run_ok[OF assms server_ok_init]
  by (auto simp: server_ok_def session_ok_def recvChBufSize_def)

text \<open>
  C14. The read loop never panics: on every reachable state every inbound frame is handled, in particular no
  message is sent on a channel that a close frame has closed.
\<close>

theorem ws_never_panics:
  assumes "server_run cfg init_server tr s"
  shows "\<exists>s'. readFrame cfg f s = Some s'"
  using handleMessage_no_panic[OF server_run_ok[OF assms server_ok_init], of f] by (simp add: readFrame_def)

text \<open>
  C17. Delivery is in order and, within the buffer, lossless: from the moment a session is opened until its
  handler returns, what the handler received and what is buffered for it is a subsequence of the payloads
  offered before the close, in their order, and all of them as long as at most 64 were offered.
\<close>

theorem ws_delivers_in_order:
  assumes "server_run cfg s tr t" and "sessions s sid = Some new_session" and "HandlerReturn sid \<notin> set tr"
  shows "\<exists>sess. sessions t sid = Some sess
    \<and> subseq (received sid tr @ si_recvCh sess) (offered sid tr)
    \<and> (length (offered sid tr) > 64 \<or> received sid tr @ si_recvCh sess = offered sid tr)"
  using delivers_run[OF assms] by (auto simp: delivers_def recvChBufSize_def not_less)

text \<open>
  The end of a stream is announced only after a close, and only once everything has been delivered: when
  a handler sees its channel closed, the client has closed the session, and the handler has received every
  payload offered before, unless more than 64 were offered.
\<close>

theorem ws_eof_after_close:
  assumes "server_run cfg s tr t" and "sessions s sid = Some new_session" and "HandlerReturn sid \<notin> set tr"
    and "server_step cfg t (HandlerRecv sid None) u"
  shows "closed_by sid tr \<and> (length (offered sid tr) > 64 \<or> received sid tr = offered sid tr)"
proof -
  obtain sess where sess: "sessions t sid = Some sess" "delivers sid tr sess"
    using delivers_run[OF assms(1-3)] by blast
  from assms(4) sess(1) have "si_recvCh sess = []" "si_chClosed sess"
    by (auto elim: server_step_RecvE)
  with sess(2) show ?thesis by (auto simp: delivers_def recvChBufSize_def not_less)
qed

text \<open>
  Opening a session is all or nothing: if the procedure is registered with the requested shape, a token is
  free and the id is not in use, the session is added with one token and nothing is written; otherwise
  the sessions and the tokens are unchanged and exactly one error frame with the frame's id is written.
\<close>

theorem handleOpen_all_or_nothing:
  "if cfg_handlers cfg (in_Procedure f) = Some (in_Shape f) \<and> sem s < cfg_maxInflight cfg \<and> sessions s (in_ID f) = None
   then handleOpen cfg f s = s\<lparr>sem := sem s + 1, sessions := (sessions s)(in_ID f \<mapsto> new_session)\<rparr>
   else \<exists>d. handleOpen cfg f s = s\<lparr>sent := sent s @ [error_frame (in_ID f) d]\<rparr>"
  by (auto simp: handleOpen_def startSession_def srv_write_def toErrorFrame_def frame_of_status_def split: option.splits)

text \<open>
  After a disconnect no handler waits forever for its client: once all sessions are closed, every session
  has been cancelled and its handler's next receive returns at once, with a buffered payload or the end.
\<close>

theorem ws_shutdown_unblocks:
  assumes "sessions s sid \<noteq> None"
  shows "\<exists>sess p u. sessions (closeAllSessions s) sid = Some sess \<and> si_cancelled sess
    \<and> server_step cfg (closeAllSessions s) (HandlerRecv sid p) u"
proof -
  obtain old where old: "sessions s sid = Some old" using assms by auto
  let ?sess = "safeCloseRecvCh (old\<lparr>si_cancelled := True\<rparr>)"
  have sess: "sessions (closeAllSessions s) sid = Some ?sess"
    using old by (simp add: closeAllSessions_def)
  have flags: "si_cancelled ?sess" "si_chClosed ?sess" by (simp_all add: safeCloseRecvCh_def)
  show ?thesis
  proof (cases "si_recvCh ?sess")
    case Nil
    with server_step.eof[OF sess] sess flags show ?thesis by blast
  next
    case (Cons p ps)
    from server_step.recv[OF sess Cons] sess flags show ?thesis by blast
  qed
qed

text \<open>
  An error frame is not always its session's end: a second open with an id in use is answered by an error
  frame with the id of the session that runs on, so that the client sees two terminal frames for one session.
\<close>

theorem ws_duplicate_open_two_terminals:
  "\<exists>s. server_run example_cfg init_server
       [In (open_frame ''1''), In (open_frame ''1''), HandlerWrite (close_frame ''1'')] s
     \<and> length (filter (is_terminal ''1'') (sent s)) = 2"
proof -
  let ?s = "opened\<lparr>sent := [toErrorFrame ''1'' (NewError CodeAlreadyExists ''duplicate session id: 1'') None, close_frame ''1'']\<rparr>"
  have "server_run example_cfg init_server [In (open_frame ''1''), In (open_frame ''1''), HandlerWrite (close_frame ''1'')] ?s"
    by (rule exec_run_run)
      (simp add: example_cfg_def open_frame_def readFrame_def handleOpen_def init_server_def startSession_def
        srv_write_def opened_def close_frame_def)
  then show ?thesis by (intro exI[of _ ?s]) simp
qed

section \<open>Witnesses\<close>

theorem ws_inflight_bounded_witness:
  "card (dom (sessions opened)) + leaving opened = sem opened \<and> sem opened \<le> cfg_maxInflight example_cfg
    \<and> ran (sessions opened) = {new_session} \<and> length (si_recvCh new_session) \<le> 64"
  using ws_inflight_bounded[OF run_opened] by (simp add: opened_def)

theorem ws_never_panics_witness: "\<exists>s'. readFrame example_cfg (client_frame ''message'' ''1'' ''x'') opened = Some s'"
  using run_opened by (rule ws_never_panics)

theorem ws_delivers_in_order_witness:
  "\<exists>sess. sessions fed ''1'' = Some sess \<and> subseq (received ''1'' feeding @ si_recvCh sess) (offered ''1'' feeding)
    \<and> (length (offered ''1'' feeding) > 64 \<or> received ''1'' feeding @ si_recvCh sess = offered ''1'' feeding)"
  using run_fed by (rule ws_delivers_in_order) (simp_all add: opened_def feeding_def)

theorem ws_eof_after_close_witness:
  "closed_by ''1'' feeding \<and> (length (offered ''1'' feeding) > 64 \<or> received ''1'' feeding = offered ''1'' feeding)"
  by (rule ws_eof_after_close[OF run_fed, where u = fed])
    (simp_all add: opened_def feeding_def fed_def new_session_def exec_event_step[symmetric])

theorem ws_shutdown_unblocks_witness:
  "\<exists>sess p u. sessions (closeAllSessions opened) ''1'' = Some sess \<and> si_cancelled sess
    \<and> server_step example_cfg (closeAllSessions opened) (HandlerRecv ''1'' p) u"
  by (rule ws_shutdown_unblocks) (simp add: opened_def)

end
