(* ===== verification/WsClient.thy ===== *)
theory WsClient imports WsHandlers Codec begin

text \<open>
  The WebSocket client: \<open>transport/ws/client.go\<close>, \<open>client_stream.go\<close> and \<open>call.go\<close>. A connection holds its
  sessions and the channels allocated for them, a channel being an index into the list of channels; a
  caller keeps the index of its channel after the session is removed. Frames cross the wire as records.
  The read loop may be blocked on a full channel; \<open>blocked\<close> is the send it waits for.
\<close>

section \<open>The connection\<close>

record channel =
  ch_frames :: "outbound_frame list"
  ch_closed :: bool

record client =
  c_sessions :: "(string \<rightharpoonup> nat) option"
  c_chans :: "channel list"
  c_nextID :: "64 word"
  c_wire :: "inbound_frame list"
  c_done :: bool
  c_err :: "goerr option"
  c_blocked :: "(nat \<times> outbound_frame) option"

definition NewConn :: client where
  [go_eval]: "NewConn = \<lparr>c_sessions = Some Map.empty, c_chans = [], c_nextID = 0, c_wire = [], c_done = False,
     c_err = None, c_blocked = None\<rparr>"

definition closeErr :: "client \<Rightarrow> goerr" where
  [go_eval]: "closeErr c = (case c_err c of Some e \<Rightarrow> e | None \<Rightarrow> NewError CodeUnavailable ''connection closed'')"

definition session_id :: "64 word \<Rightarrow> string" where
  [go_eval]: "session_id n = ''s-'' @ FormatUint (unat n)"

definition newSession :: "client \<Rightarrow> (string \<times> nat) \<times> client" where
  [go_eval]: "newSession c =
     (let n = c_nextID c + 1; sid = session_id n; ch = length (c_chans c) in
      ((sid, ch),
       c\<lparr>c_nextID := n, c_chans := c_chans c @ [\<lparr>ch_frames = [], ch_closed = False\<rparr>],
         c_sessions := map_option (\<lambda>m. m(sid \<mapsto> ch)) (c_sessions c)\<rparr>))"

definition removeSession :: "string \<Rightarrow> client \<Rightarrow> client" where
  [go_eval]: "removeSession sid c = c\<lparr>c_sessions := map_option (\<lambda>m. m(sid := None)) (c_sessions c)\<rparr>"

text \<open>
  The body of the read loop on a decoded frame: it runs only when the loop is not blocked; the channel of a
  session has room for 64 frames.
\<close>

definition recvBuf :: nat where [go_eval]: "recvBuf = 64"

definition deliver :: "nat \<Rightarrow> outbound_frame \<Rightarrow> client \<Rightarrow> client" where
  [go_eval]: "deliver ch frame c =
     (if length (ch_frames (c_chans c ! ch)) < recvBuf
      then c\<lparr>c_chans := (c_chans c)[ch := (c_chans c ! ch)\<lparr>ch_frames := ch_frames (c_chans c ! ch) @ [frame]\<rparr>], c_blocked := None\<rparr>
      else c\<lparr>c_blocked := Some (ch, frame)\<rparr>)"

definition client_read :: "outbound_frame \<Rightarrow> client \<Rightarrow> client" where
  [go_eval]: "client_read frame c =
     (case c_sessions c of
        None \<Rightarrow> c
      | Some m \<Rightarrow> (case m (out_ID frame) of None \<Rightarrow> c | Some ch \<Rightarrow> deliver ch frame c))"

text \<open>
  Room in the channel lets a blocked read loop go on; a failing read or write is remembered once, and ends
  its loop.
\<close>

definition client_unblock :: "client \<Rightarrow> client" where
  [go_eval]: "client_unblock c = (case c_blocked c of None \<Rightarrow> c | Some (ch, frame) \<Rightarrow> deliver ch frame c)"

definition record_err :: "goerr \<Rightarrow> client \<Rightarrow> client" where
  [go_eval]: "record_err e c = (if c_err c = None then c\<lparr>c_err := Some e\<rparr> else c)"

text \<open>\<open>send\<close>: when the connection is done the select may still pick the buffered channel, \<open>pick\<close> says so.\<close>

definition client_send :: "bool \<Rightarrow> inbound_frame \<Rightarrow> client \<Rightarrow> goerr option \<times> client" where
  [go_eval]: "client_send pick frame c =
     (if c_done c \<and> \<not> pick then (Some (closeErr c), c) else (None, c\<lparr>c_wire := c_wire c @ [frame]\<rparr>))"

definition plain_frame :: "string \<Rightarrow> string \<Rightarrow> inbound_frame" where
  [go_eval]: "plain_frame ty sid = \<lparr>in_Type = ty, in_ID = sid, in_Procedure = [], in_Shape = [], in_Payload = []\<rparr>"

definition sendOpen :: "bool \<Rightarrow> string \<Rightarrow> string \<Rightarrow> string \<Rightarrow> client \<Rightarrow> goerr option \<times> client" where
  [go_eval]: "sendOpen pick sid procedure shape c =
     client_send pick ((plain_frame frameTypeOpen sid)\<lparr>in_Procedure := procedure, in_Shape := shape\<rparr>) c"

definition sendMessage :: "bool \<Rightarrow> string \<Rightarrow> string \<Rightarrow> client \<Rightarrow> goerr option \<times> client" where
  [go_eval]: "sendMessage pick sid payload c =
     client_send pick ((plain_frame frameTypeMessage sid)\<lparr>in_Payload := payload\<rparr>) c"

definition sendClose :: "bool \<Rightarrow> string \<Rightarrow> client \<Rightarrow> goerr option \<times> client" where
  [go_eval]: "sendClose pick sid c = client_send pick (plain_frame frameTypeClose sid) c"

definition sendCancel :: "bool \<Rightarrow> string \<Rightarrow> client \<Rightarrow> goerr option \<times> client" where
  [go_eval]: "sendCancel pick sid c = client_send pick (plain_frame frameTypeCancel sid) c"

text \<open>When both loops have ended every registered channel is closed and the connection is done.\<close>

definition teardown :: "client \<Rightarrow> client" where
  [go_eval]: "teardown c =
     (let live = (case c_sessions c of None \<Rightarrow> {} | Some m \<Rightarrow> ran m) in
      c\<lparr>c_chans := map (\<lambda>(i, ch). if i \<in> live then ch\<lparr>ch_closed := True\<rparr> else ch) (enumerate 0 (c_chans c)),
        c_sessions := None, c_done := True\<rparr>)"

section \<open>Receiving\<close>

text \<open>
  The context of a receive is \<open>None\<close> while it lives. \<open>Some (e, n)\<close> is a context that has ended with \<open>e\<close>, where the
  select takes it after \<open>n\<close> turns that took something else; it takes it at once where nothing else is ready.
\<close>

definition ctx_wins :: "(goerr \<times> nat) option \<Rightarrow> goerr option" where
  [go_eval]: "ctx_wins ctx = (case ctx of None \<Rightarrow> None | Some (e, n) \<Rightarrow> if n = 0 then Some e else None)"

definition ctx_turn :: "(goerr \<times> nat) option \<Rightarrow> (goerr \<times> nat) option" where
  [go_eval]: "ctx_turn ctx = (case ctx of None \<Rightarrow> None | Some (e, n) \<Rightarrow> Some (e, n - 1))"

definition toStatusError :: "error_detail \<Rightarrow> goerr" where
  [go_eval]: "toStatusError ed =
     (let err = NewError (ed_Code ed) (ed_Message ed) in if ed_Retryable ed then WithRetryable err else err)"

definition unmarshalResponse :: "'v proto \<Rightarrow> string \<Rightarrow> string \<Rightarrow> goerr + 'v" where
  [go_eval]: "unmarshalResponse pr ts payload =
     (if \<not> isResponse pr then Inl (NewError CodeInternal (''response type '' @ ts @ '' does not implement proto.Message''))
      else case pjUnmarshal pr payload of
        Inl e \<Rightarrow> Inl (NewError CodeInternal (error_text e))
      | Inr m \<Rightarrow> Inr m)"

text \<open>
  \<open>receiveResponse\<close> on a channel's frames: \<open>None\<close> when it would wait for a frame, a close or the context. A
  payload that is absent is empty.
\<close>

fun receiveResponse ::
  "'v proto \<Rightarrow> string \<Rightarrow> (goerr \<times> nat) option \<Rightarrow> goerr \<Rightarrow> bool \<Rightarrow> outbound_frame list
     \<Rightarrow> ((goerr + 'v) \<times> outbound_frame list) option" where
  "receiveResponse pr ts ctx closed_err closed [] =
     (case ctx_wins ctx of
        Some e \<Rightarrow> Some (Inl e, [])
      | None \<Rightarrow>
          if closed then Some (Inl closed_err, [])
          else (case ctx of None \<Rightarrow> None | Some (e, n) \<Rightarrow> Some (Inl e, [])))"
| "receiveResponse pr ts ctx closed_err closed (f # fs) =
     (case ctx_wins ctx of
        Some e \<Rightarrow> Some (Inl e, f # fs)
      | None \<Rightarrow>
          (case out_Error f of
             Some ed \<Rightarrow> Some (Inl (toStatusError ed), fs)
           | None \<Rightarrow>
               if out_Type f = frameTypeClose then Some (Inl EOF, fs)
               else if out_Type f \<noteq> frameTypeMessage then receiveResponse pr ts (ctx_turn ctx) closed_err closed fs
               else Some (unmarshalResponse pr ts (case out_Payload f of Some p \<Rightarrow> p | None \<Rightarrow> []), fs)))"

definition chan_receive ::
  "'v proto \<Rightarrow> string \<Rightarrow> (goerr \<times> nat) option \<Rightarrow> nat \<Rightarrow> client \<Rightarrow> ((goerr + 'v) \<times> client) option" where
  [go_eval]: "chan_receive pr ts ctx ch c =
     (case receiveResponse pr ts ctx (closeErr c) (ch_closed (c_chans c ! ch)) (ch_frames (c_chans c ! ch)) of
        None \<Rightarrow> None
      | Some (r, fs) \<Rightarrow> Some (r, c\<lparr>c_chans := (c_chans c)[ch := (c_chans c ! ch)\<lparr>ch_frames := fs\<rparr>]\<rparr>))"

section \<open>Calls\<close>

definition sendRequest ::
  "bool \<Rightarrow> 'q proto \<Rightarrow> string \<Rightarrow> string \<Rightarrow> string \<Rightarrow> string \<Rightarrow> 'q option \<Rightarrow> client \<Rightarrow> goerr option \<times> client" where
  [go_eval]: "sendRequest pick pr tq sid procedure shape req c =
     (case sendOpen pick sid procedure shape c of
        (Some e, c1) \<Rightarrow> (Some e, c1)
      | (None, c1) \<Rightarrow>
          (case marshalProto pr tq req of
             Inl e \<Rightarrow> (Some e, c1)
           | Inr data \<Rightarrow>
               (case sendMessage pick sid data c1 of
                  (Some e, c2) \<Rightarrow> (Some e, c2)
                | (None, c2) \<Rightarrow> sendClose pick sid c2)))"

text \<open>
  A stream: its session, its channel and the terminal error it remembers. \<open>cleanup\<close> runs once, and removing
  a session again changes nothing.
\<close>

record stream =
  st_sessID :: string
  st_recvCh :: nat
  st_termErr :: "goerr option"
  st_closed :: bool

definition new_stream :: "string \<times> nat \<Rightarrow> stream" where
  [go_eval]: "new_stream sc = \<lparr>st_sessID = fst sc, st_recvCh = snd sc, st_termErr = None, st_closed = False\<rparr>"

definition CallServerStream ::
  "bool \<Rightarrow> 'q proto \<Rightarrow> string \<Rightarrow> string \<Rightarrow> 'q option \<Rightarrow> client \<Rightarrow> (goerr + stream) \<times> client" where
  [go_eval]: "CallServerStream pick pr tq procedure req c =
     (case newSession c of
        ((sid, ch), c1) \<Rightarrow>
          (case sendRequest pick pr tq sid procedure CallShapeServerStream req c1 of
             (Some e, c2) \<Rightarrow> (Inl e, removeSession sid c2)
           | (None, c2) \<Rightarrow> (Inr (new_stream (sid, ch)), c2)))"

definition CallClientStream :: "bool \<Rightarrow> string \<Rightarrow> client \<Rightarrow> (goerr + stream) \<times> client" where
  [go_eval]: "CallClientStream pick procedure c =
     (case newSession c of
        ((sid, ch), c1) \<Rightarrow>
          (case sendOpen pick sid procedure CallShapeClientStream c1 of
             (Some e, c2) \<Rightarrow> (Inl e, removeSession sid c2)
           | (None, c2) \<Rightarrow> (Inr (new_stream (sid, ch)), c2)))"

definition CallBidi :: "bool \<Rightarrow> string \<Rightarrow> client \<Rightarrow> (goerr + stream) \<times> client" where
  [go_eval]: "CallBidi pick procedure c =
     (case newSession c of
        ((sid, ch), c1) \<Rightarrow>
          (case sendOpen pick sid procedure CallShapeBidi c1 of
             (Some e, c2) \<Rightarrow> (Inl e, removeSession sid c2)
           | (None, c2) \<Rightarrow> (Inr (new_stream (sid, ch)), c2)))"

text \<open>
  The two halves of \<open>CallUnary\<close>: the request it sends, and what it does with what it receives. Between them
  it waits. When it fails and its context has ended it cancels the session.
\<close>

definition CallUnary_request ::
  "bool \<Rightarrow> 'q proto \<Rightarrow> string \<Rightarrow> string \<Rightarrow> 'q option \<Rightarrow> client \<Rightarrow> (goerr + string \<times> nat) \<times> client" where
  [go_eval]: "CallUnary_request pick pr tq procedure req c =
     (case newSession c of
        ((sid, ch), c1) \<Rightarrow>
          (case sendRequest pick pr tq sid procedure CallShapeUnary req c1 of
             (Some e, c2) \<Rightarrow> (Inl e, removeSession sid c2)
           | (None, c2) \<Rightarrow> (Inr (sid, ch), c2)))"

definition CallUnary_response ::
  "bool \<Rightarrow> 'v proto \<Rightarrow> string \<Rightarrow> (goerr \<times> nat) option \<Rightarrow> string \<times> nat \<Rightarrow> client \<Rightarrow> ((goerr + 'v) \<times> client) option" where
  [go_eval]: "CallUnary_response pick pr ts ctx sc c =
     (case chan_receive pr ts ctx (snd sc) c of
        None \<Rightarrow> None
      | Some (r, c1) \<Rightarrow>
          Some (r, removeSession (fst sc)
                     (if \<not> is_ok r \<and> ctx \<noteq> None then snd (sendCancel pick (fst sc) c1) else c1)))"

text \<open>\<open>Receive\<close> of the server and bidi streams, and \<open>Close\<close>, which ends the context of the stream as well.\<close>

definition stream_receive ::
  "'v proto \<Rightarrow> string \<Rightarrow> (goerr \<times> nat) option \<Rightarrow> stream \<Rightarrow> client \<Rightarrow> ((goerr + 'v) \<times> stream \<times> client) option" where
  [go_eval]: "stream_receive pr ts ctx st c =
     (case st_termErr st of
        Some e \<Rightarrow> Some (Inl e, st, c)
      | None \<Rightarrow>
          (case chan_receive pr ts ctx (st_recvCh st) c of
             None \<Rightarrow> None
           | Some (Inl e, c1) \<Rightarrow> Some (Inl e, st\<lparr>st_termErr := Some e\<rparr>, removeSession (st_sessID st) c1)
           | Some (Inr m, c1) \<Rightarrow> Some (Inr m, st, c1)))"

definition stream_close :: "bool \<Rightarrow> stream \<Rightarrow> client \<Rightarrow> goerr option \<times> stream \<times> client" where
  [go_eval]: "stream_close pick st c =
     (let c1 = removeSession (st_sessID st) c in
      if st_closed st then (None, st, c1)
      else let st1 = st\<lparr>st_closed := True\<rparr> in
        case sendCancel pick (st_sessID st) c1 of (e, c2) \<Rightarrow> (e, st1, c2))"

definition stream_Send ::
  "bool \<Rightarrow> 'q proto \<Rightarrow> string \<Rightarrow> stream \<Rightarrow> 'q option \<Rightarrow> client \<Rightarrow> goerr option \<times> client" where
  [go_eval]: "stream_Send pick pr tq st msg c =
     (case marshalProto pr tq msg of Inl e \<Rightarrow> (Some e, c) | Inr data \<Rightarrow> sendMessage pick (st_sessID st) data c)"

definition CloseSend :: "bool \<Rightarrow> stream \<Rightarrow> client \<Rightarrow> goerr option \<times> client" where
  [go_eval]: "CloseSend pick st c = sendClose pick (st_sessID st) c"

text \<open>The sending half of \<open>CloseAndReceive\<close> and what it does with what it receives.\<close>

definition CloseAndReceive_close :: "bool \<Rightarrow> stream \<Rightarrow> client \<Rightarrow> goerr option \<times> client" where
  [go_eval]: "CloseAndReceive_close pick st c =
     (case sendClose pick (st_sessID st) c of
        (Some e, c1) \<Rightarrow> (Some e, removeSession (st_sessID st) c1)
      | (None, c1) \<Rightarrow> (None, c1))"

definition CloseAndReceive_receive ::
  "'v proto \<Rightarrow> string \<Rightarrow> (goerr \<times> nat) option \<Rightarrow> stream \<Rightarrow> client \<Rightarrow> ((goerr + 'v) \<times> client) option" where
  [go_eval]: "CloseAndReceive_receive pr ts ctx st c =
     (case chan_receive pr ts ctx (st_recvCh st) c of
        None \<Rightarrow> None
      | Some (r, c1) \<Rightarrow> Some (r, removeSession (st_sessID st) c1))"

lemma ctx_wins_live [simp, go_eval]: "ctx_wins None = None" "ctx_turn None = None"
  by (simp_all add: ctx_wins_def ctx_turn_def)

section \<open>Lemmas\<close>

fun new_sessions :: "nat \<Rightarrow> client \<Rightarrow> string list" where
  "new_sessions 0 c = []"
| "new_sessions (Suc n) c = (case newSession c of ((sid, ch), c1) \<Rightarrow> sid # new_sessions n c1)"

lemma session_id_inj: "session_id m = session_id n \<longleftrightarrow> m = n"
proof
  assume "session_id m = session_id n"
  then have "FormatUint (unat m) = FormatUint (unat n)" by (simp add: session_id_def)
  then have "unat m = unat n" by (metis ParseUint_unat64 sum.inject(2))
  then show "m = n" by (simp add: word_unat_eq_iff)
qed simp

lemma new_sessions_ids: "new_sessions n c = map (\<lambda>i. session_id (c_nextID c + of_nat (Suc i))) [0..<n]"
proof (induction n arbitrary: c)
  case (Suc n)
  have "map (\<lambda>i. session_id (c_nextID c + of_nat (Suc i))) [0..<Suc n] =
      session_id (c_nextID c + 1) # map (\<lambda>i. session_id (c_nextID c + of_nat (Suc (Suc i)))) [0..<n]"
    by (simp only: map_upt_Suc) simp
  then show ?case by (simp add: newSession_def Let_def Suc add.assoc)
qed simp

lemma StatusOf_toStatusError [simp]:
  "StatusOf (toStatusError ed) = Some \<lparr>Code = ed_Code ed, Message = ed_Message ed, Retryable = ed_Retryable ed\<rparr>"
  by (simp add: toStatusError_def NewError_def Let_def)

text \<open>What a client sees of a handler's error: the status the boundary reports, as a \<open>StatusError\<close>.\<close>

definition reported_status :: "error_mapper \<Rightarrow> goerr \<Rightarrow> status" where
  "reported_status mapper e =
     (case boundary_status mapper e of
        Some st \<Rightarrow> st
      | None \<Rightarrow> \<lparr>Code = CodeInternal, Message = error_text e, Retryable = False\<rparr>)"

definition wire_error :: "error_mapper \<Rightarrow> goerr \<Rightarrow> goerr" where
  "wire_error mapper e = StatusError (reported_status mapper e) None"

lemma toErrorFrame_reported: "toErrorFrame sid e mapper = frame_of_status sid (reported_status mapper e)"
  using ws_boundary.report_eq[where mapper=mapper and e=e] by (simp add: reported_status_def split: option.splits)

lemma receive_error [simp]:
  "receiveResponse pr ts None ce cl (toErrorFrame sid e mapper # fs) = Some (Inl (wire_error mapper e), fs)"
  by (cases "reported_status mapper e")
    (simp add: toErrorFrame_reported frame_of_status_def error_frame_def wire_error_def toStatusError_def NewError_def Let_def)

lemma receive_close [simp]: "receiveResponse pr ts None ce cl (close_frame sid # fs) = Some (Inl EOF, fs)"
  by (simp add: close_frame_def)

lemma receive_message [simp]:
  "receiveResponse pr ts None ce cl (message_frame sid data # fs) = Some (unmarshalResponse pr ts data, fs)"
  by (simp add: message_frame_def frameTypeMessage_def frameTypeClose_def)

declare receiveResponse.simps [simp del]

text \<open>The law of protojson a call relies on: what a message is marshalled to decodes to it.\<close>

definition proto_ok :: "'v proto \<Rightarrow> bool" where
  "proto_ok pr \<longleftrightarrow> isRequest pr \<and> isResponse pr \<and> (\<forall>m. \<exists>data. pjMarshal pr (Some m) = Inr data \<and> pjUnmarshal pr data = Inr m)"

lemma proto_okD: "proto_ok pr \<Longrightarrow> \<exists>data. pjMarshal pr (Some m) = Inr data \<and> pjUnmarshal pr data = Inr m"
  by (simp add: proto_ok_def)

text \<open>Successive receives on a stream; \<open>None\<close> where one would wait.\<close>

fun stream_receives :: "nat \<Rightarrow> 'v proto \<Rightarrow> string \<Rightarrow> stream \<Rightarrow> client \<Rightarrow> (goerr + 'v) option list" where
  "stream_receives 0 pr ts st c = []"
| "stream_receives (Suc n) pr ts st c =
     (case stream_receive pr ts None st c of
        None \<Rightarrow> [None]
      | Some (r, st1, c1) \<Rightarrow> Some r # stream_receives n pr ts st1 c1)"

definition terminal_error :: "outbound_frame \<Rightarrow> goerr" where
  "terminal_error f = (case out_Error f of Some ed \<Rightarrow> toStatusError ed | None \<Rightarrow> EOF)"

lemma receive_terminal:
  "is_terminal sid t \<Longrightarrow> receiveResponse pr ts None ce cl (t # fs) = Some (Inl (terminal_error t), fs)"
  by (auto simp: is_terminal_def terminal_error_def receiveResponse.simps)

lemma stream_receives_ended:
  "st_termErr st = Some e \<Longrightarrow> stream_receives k pr ts st c = replicate k (Some (Inl e))"
  by (induction k) (simp_all add: stream_receive_def)

lemma removeSession_chans [simp]: "c_chans (removeSession sid c) = c_chans c"
  by (simp add: removeSession_def)

lemma stream_receives_all:
  assumes "list_all2 (\<lambda>d m. unmarshalResponse pr ts d = Inr m) ds ms" and "is_terminal sid t"
    and "st_recvCh st < length (c_chans c)" and "st_termErr st = None"
    and "ch_frames (c_chans c ! st_recvCh st) = map (message_frame sid) ds @ t # rest"
  shows "stream_receives (length ms + Suc k) pr ts st c =
    map (\<lambda>m. Some (Inr m)) ms @ replicate (Suc k) (Some (Inl (terminal_error t)))"
  using assms
proof (induction ds ms arbitrary: c rule: list_all2_induct)
  case Nil
  then show ?case
    by (simp add: stream_receive_def chan_receive_def receive_terminal[OF Nil.prems(1)] stream_receives_ended)
next
  case (Cons d ds m ms)
  let ?c1 = "c\<lparr>c_chans := (c_chans c)[st_recvCh st := (c_chans c ! st_recvCh st)
      \<lparr>ch_frames := map (message_frame sid) ds @ t # rest\<rparr>]\<rparr>"
  have "stream_receive pr ts None st c = Some (Inr m, st, ?c1)"
    using Cons by (simp add: stream_receive_def chan_receive_def)
  moreover have "stream_receives (length ms + Suc k) pr ts st ?c1 =
      map (\<lambda>m. Some (Inr m)) ms @ replicate (Suc k) (Some (Inl (terminal_error t)))"
    using Cons.prems by (intro Cons.IH) simp_all
  ultimately show ?case by simp
qed

text \<open>On a closed channel no receive waits, and each that returns a message takes a frame.\<close>

lemma receive_closed:
  "\<exists>r fs'. receiveResponse pr ts None ce True fs = Some (r, fs') \<and> (\<forall>m. r = Inr m \<longrightarrow> length fs' < length fs)"
proof (induction fs)
  case (Cons f fs)
  then show ?case by (auto simp: receiveResponse.simps less_SucI split: option.splits)
qed (simp add: receiveResponse.simps)

lemma closed_receives:
  assumes "st_recvCh st < length (c_chans c)" and "ch_closed (c_chans c ! st_recvCh st)" and "st_termErr st = None"
  shows "None \<notin> set (stream_receives n pr ts st c)
    \<and> (length (ch_frames (c_chans c ! st_recvCh st)) < n \<longrightarrow> (\<exists>e. last (stream_receives n pr ts st c) = Some (Inl e)))"
  using assms
proof (induction n arbitrary: c)
  case (Suc n)
  let ?ch = "c_chans c ! st_recvCh st"
  obtain r fs where r: "receiveResponse pr ts None (closeErr c) True (ch_frames ?ch) = Some (r, fs)"
    "\<forall>m. r = Inr m \<longrightarrow> length fs < length (ch_frames ?ch)"
    using receive_closed[of pr ts "closeErr c" "ch_frames ?ch"] by blast
  let ?c1 = "c\<lparr>c_chans := (c_chans c)[st_recvCh st := ?ch\<lparr>ch_frames := fs\<rparr>]\<rparr>"
  show ?case
  proof (cases r)
    case (Inl e)
    with r Suc.prems show ?thesis
      by (simp add: stream_receive_def chan_receive_def stream_receives_ended last_replicate)
  next
    case (Inr m)
    with r Suc.prems have step: "stream_receives (Suc n) pr ts st c = Some (Inr m) # stream_receives n pr ts st ?c1"
      by (simp add: stream_receive_def chan_receive_def)
    have IH: "None \<notin> set (stream_receives n pr ts st ?c1) \<and> (length fs < n \<longrightarrow> (\<exists>e. last (stream_receives n pr ts st ?c1) = Some (Inl e)))"
      using Suc.IH[of ?c1] Suc.prems by simp
    moreover have "length fs < length (ch_frames ?ch)" using r(2) Inr by simp
    moreover have "0 < n \<Longrightarrow> stream_receives n pr ts st ?c1 \<noteq> []" by (cases n) (auto split: option.splits)
    ultimately show ?thesis unfolding step by (auto simp del: stream_receives.simps)
  qed
qed simp

section \<open>Properties\<close>

text \<open>
  Session ids do not repeat: the ids of up to 2 to the 64 successive sessions of a connection are all different.
\<close>

theorem session_ids_distinct:
  assumes "n \<le> 2 ^ 64"
  shows "distinct (new_sessions n c)"
proof -
  have "i = j" if "i < n" "j < n" "c_nextID c + of_nat (Suc i) = c_nextID c + of_nat (Suc j)" for i j
  proof -
    from that(3) have "(of_nat i :: 64 word) = of_nat j" by simp
    then show "i = j" using that(1,2) assms by (simp add: word_of_nat_eq_iff take_bit_nat_eq_self)
  qed
  then show ?thesis by (auto simp: new_sessions_ids distinct_map inj_on_def session_id_inj)
qed

theorem session_ids_distinct_witness: "distinct (new_sessions 3 NewConn)"
  by (rule session_ids_distinct) simp

text \<open>
  C49. An error's status survives the wire: the client's error for a server's error frame is a \<open>StatusError\<close> with
  exactly the code, message and retryable flag the boundary reports for the handler's error.
\<close>

theorem ws_status_survives:
  "\<exists>err rest. receiveResponse pr ts None ce cl (toErrorFrame sid e mapper # fs) = Some (Inl err, rest)
     \<and> StatusOf err = Some (case boundary_status mapper e of
         Some st \<Rightarrow> st | None \<Rightarrow> \<lparr>Code = CodeInternal, Message = error_text e, Retryable = False\<rparr>)"
  by (simp add: wire_error_def reported_status_def)


text \<open>
  C35. A response stream is received in full: on a channel holding the frames of a server's session, repeated
  receives return every message in order and then, however often they are repeated, the one terminal
  error (\<open>io.EOF\<close> after a close), without waiting.
\<close>

theorem ws_stream_received_in_full:
  assumes "list_all2 (\<lambda>d m. unmarshalResponse pr ts d = Inr m) ds ms" and "is_terminal sid t"
    and "st_recvCh st < length (c_chans c)" and "st_termErr st = None"
    and "ch_frames (c_chans c ! st_recvCh st) = map (message_frame sid) ds @ t # rest"
  shows "stream_receives (length ms + Suc k) pr ts st c =
    map (\<lambda>m. Some (Inr m)) ms @ replicate (Suc k) (Some (Inl (terminal_error t)))"
  using assms by (rule stream_receives_all)

theorem ws_stream_received_in_full_witness:
  "stream_receives (length [''a'', ''b''] + Suc 1) example_proto ''Res'' (new_stream (''s-1'', 0))
     (NewConn\<lparr>c_chans := [\<lparr>ch_frames = map (message_frame ''s-1'') [''a'', ''b''] @ close_frame ''s-1'' # [], ch_closed = False\<rparr>]\<rparr>)
   = map (\<lambda>m. Some (Inr m)) [''a'', ''b''] @ replicate (Suc 1) (Some (Inl (terminal_error (close_frame ''s-1''))))"
  by (rule ws_stream_received_in_full[where ds = "[''a'', ''b'']" and sid = "''s-1''" and rest = "[]"])
    (simp_all add: unmarshalResponse_def example_proto_def new_stream_def)


text \<open>
  A request that cannot be marshalled abandons its session: the call fails after the open frame, and
  neither a close nor a cancel follows, so that the server's handler waits and keeps its token until disconnect.
\<close>

theorem sendRequest_abandons_session:
  assumes "marshalProto pr tq req = Inl e" and "\<not> c_done c"
  shows "\<exists>c'. CallUnary_request pick pr tq procedure req c = (Inl e, c')
    \<and> c_wire c' = c_wire c @ [(plain_frame frameTypeOpen (session_id (c_nextID c + 1)))
                               \<lparr>in_Procedure := procedure, in_Shape := CallShapeUnary\<rparr>]"
  using assms
  by (simp add: CallUnary_request_def newSession_def sendRequest_def sendOpen_def client_send_def removeSession_def Let_def)

theorem sendRequest_abandons_session_witness:
  "\<exists>c'. CallUnary_request True (example_proto\<lparr>isResponse := False\<rparr>) ''Req'' ''/p.S/M'' (Some ''q'') NewConn
     = (Inl (Errorf_plain ''response type *Req does not implement proto.Message''), c')
    \<and> c_wire c' = c_wire NewConn @ [(plain_frame frameTypeOpen (session_id (c_nextID NewConn + 1)))
                               \<lparr>in_Procedure := ''/p.S/M'', in_Shape := CallShapeUnary\<rparr>]"
  by (rule sendRequest_abandons_session) (simp_all add: marshalProto_def NewConn_def)



end
