(* ===== verification/CodegenServe.thy ===== *)
theory CodegenServe imports CodegenOptions Connect WsServer WsClient begin

text \<open>
  The code the generator emits for the network transports, from \<open>internal/codegen\<close>: the handler interface of
  \<open>handler.go\<close>, the registrations of \<open>connect.go\<close> and \<open>ws.go\<close> and the clients of \<open>connect_client.go\<close> and
  \<open>ws_client.go\<close>. Emitted code is data: signatures with the Go types they mention, registrations as the
  constructor called with its procedure and the method of the handler passed to it. What the registrations and
  client methods do when they run is the WebSocket server's table of handlers and client of this repository.
\<close>

section \<open>Go types\<close>

datatype go_type = Named string | Pointer go_type | Instance string "go_type list"

record go_func =
  fn_params :: "go_type list"
  fn_results :: "go_type list"

definition context_type :: go_type where [go_eval]: "context_type = Named ''context.Context''"
definition error_type :: go_type where [go_eval]: "error_type = Named ''error''"

definition input_type :: "proto_method \<Rightarrow> go_type" where
  [go_eval]: "input_type m = Named (pm_GoName (md_Input m))"

definition output_type :: "proto_method \<Rightarrow> go_type" where
  [go_eval]: "output_type m = Named (pm_GoName (md_Output m))"

section \<open>The handler interface\<close>

definition handler_method :: "proto_method \<Rightarrow> string \<times> go_func" where
  [go_eval]: "handler_method m =
     (let q = input_type m; s = output_type m; shape = methodShape m in
      (md_GoName m,
       if shape = shapeClientStream then
         \<lparr>fn_params = [context_type, Instance ''procframe.ClientStream'' [q]],
          fn_results = [Pointer (Instance ''procframe.Response'' [s]), error_type]\<rparr>
       else if shape = shapeServerStream then
         \<lparr>fn_params = [context_type, Pointer (Instance ''procframe.Request'' [q]), Instance ''procframe.ServerStream'' [s]],
          fn_results = [error_type]\<rparr>
       else if shape = shapeBidi then
         \<lparr>fn_params = [context_type, Instance ''procframe.BidiStream'' [q, s]], fn_results = [error_type]\<rparr>
       else
         \<lparr>fn_params = [context_type, Pointer (Instance ''procframe.Request'' [q])],
          fn_results = [Pointer (Instance ''procframe.Response'' [s]), error_type]\<rparr>))"

definition generateHandler :: "proto_service \<Rightarrow> (string \<times> go_func) list" where
  [go_eval]: "generateHandler svc = map handler_method (sv_Methods svc)"

section \<open>Registrations\<close>

record registration =
  rg_call :: string
  rg_procedure :: string
  rg_method :: string

text \<open>Loops over the methods of the service and of its extracted form go in step.\<close>

definition methods_of :: "proto_service \<Rightarrow> service_info \<Rightarrow> (proto_method \<times> method_info) list" where
  [go_eval]: "methods_of svc info = zip (sv_Methods svc) (svc_Methods info)"

definition emitConnectHandlerRegistration :: "proto_method \<Rightarrow> method_info \<Rightarrow> registration" where
  [go_eval]: "emitConnectHandlerRegistration m mi =
     \<lparr>rg_call = (if m_Shape mi = shapeServerStream then ''NewServerStreamHandler''
                 else if m_Shape mi = shapeClientStream then ''NewClientStreamHandler''
                 else if m_Shape mi = shapeBidi then ''NewBidiStreamHandler''
                 else ''NewUnaryHandler''),
      rg_procedure = m_FullName mi, rg_method = md_GoName m\<rparr>"

text \<open>The path prefix returned and what is registered with the mux, in order.\<close>

definition generateConnect :: "proto_service \<Rightarrow> service_info \<Rightarrow> string \<times> registration list" where
  [go_eval]: "generateConnect svc info =
     (''/'' @ sv_Package svc @ ''.'' @ sv_Name svc @ ''/'',
      map (\<lambda>(m, mi). emitConnectHandlerRegistration m mi) (filter (\<lambda>(m, mi). m_Connect mi) (methods_of svc info)))"

definition generateWS :: "proto_service \<Rightarrow> service_info \<Rightarrow> registration list" where
  [go_eval]: "generateWS svc info =
     map (\<lambda>(m, mi).
       \<lparr>rg_call = (if m_Shape mi = shapeServerStream then ''HandleServerStream''
                   else if m_Shape mi = shapeClientStream then ''HandleClientStream''
                   else if m_Shape mi = shapeBidi then ''HandleBidi''
                   else ''HandleUnary''),
        rg_procedure = m_FullName mi, rg_method = md_GoName m\<rparr>)
       (filter (\<lambda>(m, mi). m_Ws mi) (methods_of svc info))"

text \<open>The type of the handler each constructor takes, at its two type arguments.\<close>

definition handler_param :: "string \<Rightarrow> go_type \<Rightarrow> go_type \<Rightarrow> go_func option" where
  [go_eval]: "handler_param call q s =
     (if call = ''NewUnaryHandler'' \<or> call = ''HandleUnary'' then
        Some \<lparr>fn_params = [context_type, Pointer (Instance ''procframe.Request'' [q])],
              fn_results = [Pointer (Instance ''procframe.Response'' [s]), error_type]\<rparr>
      else if call = ''NewClientStreamHandler'' \<or> call = ''HandleClientStream'' then
        Some \<lparr>fn_params = [context_type, Instance ''procframe.ClientStream'' [q]],
              fn_results = [Pointer (Instance ''procframe.Response'' [s]), error_type]\<rparr>
      else if call = ''NewServerStreamHandler'' \<or> call = ''HandleServerStream'' then
        Some \<lparr>fn_params = [context_type, Pointer (Instance ''procframe.Request'' [q]), Instance ''procframe.ServerStream'' [s]],
              fn_results = [error_type]\<rparr>
      else if call = ''NewBidiStreamHandler'' \<or> call = ''HandleBidi'' then
        Some \<lparr>fn_params = [context_type, Instance ''procframe.BidiStream'' [q, s]], fn_results = [error_type]\<rparr>
      else None)"

text \<open>Registration with the WebSocket server: each function registers its shape.\<close>

definition handle_shape :: "string \<Rightarrow> string" where
  [go_eval]: "handle_shape call =
     (if call = ''HandleServerStream'' then CallShapeServerStream
      else if call = ''HandleClientStream'' then CallShapeClientStream
      else if call = ''HandleBidi'' then CallShapeBidi
      else CallShapeUnary)"

definition run_registrations :: "registration list \<Rightarrow> (string \<rightharpoonup> string) \<Rightarrow> string \<rightharpoonup> string" where
  [go_eval]: "run_registrations rs handlers = fold (\<lambda>r. register_handler (rg_procedure r) (handle_shape (rg_call r))) rs handlers"

section \<open>The Connect client\<close>

text \<open>Adding to a byte wraps around; the sum is then converted to a string as a code point.\<close>

definition unexport :: "string \<Rightarrow> string" where
  [go_eval]: "unexport s =
     (case s of
        [] \<Rightarrow> []
      | c # cs \<Rightarrow>
          (let n = (of_char c + 32) mod 256 :: nat in
           if n < 128 then [char_of n] else [char_of (192 + n div 64), char_of (128 + n mod 64)]) @ cs)"

definition emitClientInterfaceMethod :: "proto_method \<Rightarrow> method_info \<Rightarrow> string \<times> go_func" where
  [go_eval]: "emitClientInterfaceMethod m mi =
     (let q = input_type m; s = output_type m in
      (md_GoName m,
       if m_Shape mi = shapeClientStream then
         \<lparr>fn_params = [context_type], fn_results = [Pointer (Instance ''connect.ClientStreamForClient'' [q, s])]\<rparr>
       else if m_Shape mi = shapeServerStream then
         \<lparr>fn_params = [context_type, Pointer (Instance ''connect.Request'' [q])],
          fn_results = [Pointer (Instance ''connect.ServerStreamForClient'' [s]), error_type]\<rparr>
       else if m_Shape mi = shapeBidi then
         \<lparr>fn_params = [context_type], fn_results = [Pointer (Instance ''connect.BidiStreamForClient'' [q, s])]\<rparr>
       else
         \<lparr>fn_params = [context_type, Pointer (Instance ''connect.Request'' [q])],
          fn_results = [Pointer (Instance ''connect.Response'' [s]), error_type]\<rparr>))"

text \<open>A method of the client: its signature, the field it calls on and the call.\<close>

record client_method =
  cm_sig :: "string \<times> go_func"
  cm_field :: string
  cm_call :: string

definition emitClientMethodImpl :: "proto_method \<Rightarrow> method_info \<Rightarrow> client_method" where
  [go_eval]: "emitClientMethodImpl m mi =
     (let q = input_type m; s = output_type m; fieldName = unexport (md_GoName m) in
      if m_Shape mi = shapeClientStream then
        \<lparr>cm_sig = (md_GoName m, \<lparr>fn_params = [context_type],
           fn_results = [Pointer (Instance ''connect.ClientStreamForClient'' [q, s])]\<rparr>),
         cm_field = fieldName, cm_call = ''CallClientStream''\<rparr>
      else if m_Shape mi = shapeServerStream then
        \<lparr>cm_sig = (md_GoName m, \<lparr>fn_params = [context_type, Pointer (Instance ''connect.Request'' [q])],
           fn_results = [Pointer (Instance ''connect.ServerStreamForClient'' [s]), error_type]\<rparr>),
         cm_field = fieldName, cm_call = ''CallServerStream''\<rparr>
      else if m_Shape mi = shapeBidi then
        \<lparr>cm_sig = (md_GoName m, \<lparr>fn_params = [context_type],
           fn_results = [Pointer (Instance ''connect.BidiStreamForClient'' [q, s])]\<rparr>),
         cm_field = fieldName, cm_call = ''CallBidiStream''\<rparr>
      else
        \<lparr>cm_sig = (md_GoName m, \<lparr>fn_params = [context_type, Pointer (Instance ''connect.Request'' [q])],
           fn_results = [Pointer (Instance ''connect.Response'' [s]), error_type]\<rparr>),
         cm_field = fieldName, cm_call = ''CallUnary''\<rparr>)"

record connect_client =
  cc_interface :: "(string \<times> go_func) list"
  cc_struct :: "(string \<times> go_type) list"
  cc_inits :: "(string \<times> go_type \<times> string) list"
  cc_methods :: "client_method list"

definition client_type :: "proto_method \<Rightarrow> go_type" where
  [go_eval]: "client_type m = Instance ''connect.Client'' [input_type m, output_type m]"

definition generateConnectClient :: "proto_service \<Rightarrow> service_info \<Rightarrow> connect_client" where
  [go_eval]: "generateConnectClient svc info =
     (let methods = filter (\<lambda>(m, mi). m_Connect mi) (methods_of svc info) in
      \<lparr>cc_interface = map (\<lambda>(m, mi). emitClientInterfaceMethod m mi) methods,
       cc_struct = map (\<lambda>(m, mi). (unexport (md_GoName m), Pointer (client_type m))) methods,
       cc_inits = map (\<lambda>(m, mi). (unexport (md_GoName m), client_type m, m_FullName mi)) methods,
       cc_methods = map (\<lambda>(m, mi). emitClientMethodImpl m mi) methods\<rparr>)"

text \<open>What calling a method of a constructed client does: which call on which procedure.\<close>

definition connect_client_call :: "connect_client \<Rightarrow> string \<Rightarrow> (string \<times> string) option" where
  [go_eval]: "connect_client_call cc name =
     (case map_of (map (\<lambda>cm. (fst (cm_sig cm), cm)) (cc_methods cc)) name of
        None \<Rightarrow> None
      | Some cm \<Rightarrow> map_option (\<lambda>(ty, procedure). (cm_call cm, procedure)) (map_of (cc_inits cc) (cm_field cm)))"

section \<open>The WebSocket client\<close>

definition emitWSClientInterfaceMethod :: "proto_method \<Rightarrow> method_info \<Rightarrow> (string \<times> go_func) option" where
  [go_eval]: "emitWSClientInterfaceMethod m mi =
     (let q = input_type m; s = output_type m in
      if m_Shape mi = shapeUnary then
        Some (md_GoName m, \<lparr>fn_params = [context_type, Pointer q], fn_results = [Pointer s, error_type]\<rparr>)
      else if m_Shape mi = shapeServerStream then
        Some (md_GoName m, \<lparr>fn_params = [context_type, Pointer q], fn_results = [Instance ''ws.ServerStream'' [s], error_type]\<rparr>)
      else if m_Shape mi = shapeClientStream then
        Some (md_GoName m, \<lparr>fn_params = [context_type], fn_results = [Instance ''ws.ClientStream'' [q, s], error_type]\<rparr>)
      else if m_Shape mi = shapeBidi then
        Some (md_GoName m, \<lparr>fn_params = [context_type], fn_results = [Instance ''ws.BidiStream'' [q, s], error_type]\<rparr>)
      else None)"

text \<open>A method of this client calls a function of the transport, at its type arguments, with its procedure.\<close>

record ws_client_method =
  wc_sig :: "string \<times> go_func"
  wc_call :: string
  wc_types :: "go_type \<times> go_type"
  wc_procedure :: string

definition emitWSClientMethodImpl :: "proto_method \<Rightarrow> method_info \<Rightarrow> ws_client_method option" where
  [go_eval]: "emitWSClientMethodImpl m mi =
     (let q = input_type m; s = output_type m in
      if m_Shape mi = shapeUnary then
        Some \<lparr>wc_sig = (md_GoName m, \<lparr>fn_params = [context_type, Pointer q], fn_results = [Pointer s, error_type]\<rparr>),
              wc_call = ''CallUnary'', wc_types = (q, s), wc_procedure = m_FullName mi\<rparr>
      else if m_Shape mi = shapeServerStream then
        Some \<lparr>wc_sig = (md_GoName m, \<lparr>fn_params = [context_type, Pointer q],
                fn_results = [Instance ''ws.ServerStream'' [s], error_type]\<rparr>),
              wc_call = ''CallServerStream'', wc_types = (q, s), wc_procedure = m_FullName mi\<rparr>
      else if m_Shape mi = shapeClientStream then
        Some \<lparr>wc_sig = (md_GoName m, \<lparr>fn_params = [context_type], fn_results = [Instance ''ws.ClientStream'' [q, s], error_type]\<rparr>),
              wc_call = ''CallClientStream'', wc_types = (q, s), wc_procedure = m_FullName mi\<rparr>
      else if m_Shape mi = shapeBidi then
        Some \<lparr>wc_sig = (md_GoName m, \<lparr>fn_params = [context_type], fn_results = [Instance ''ws.BidiStream'' [q, s], error_type]\<rparr>),
              wc_call = ''CallBidi'', wc_types = (q, s), wc_procedure = m_FullName mi\<rparr>
      else None)"

definition generateWSClient :: "proto_service \<Rightarrow> service_info \<Rightarrow> (string \<times> go_func) list \<times> ws_client_method list" where
  [go_eval]: "generateWSClient svc info =
     (let methods = filter (\<lambda>(m, mi). m_Ws mi) (methods_of svc info) in
      (List.map_filter (\<lambda>(m, mi). emitWSClientInterfaceMethod m mi) methods,
       List.map_filter (\<lambda>(m, mi). emitWSClientMethodImpl m mi) methods))"

text \<open>
  The signatures of the functions the methods call, after the context, connection and procedure they pass, and
  what a call does to the client before it waits.
\<close>

definition ws_call_sig :: "string \<Rightarrow> go_type \<times> go_type \<Rightarrow> go_func option" where
  [go_eval]: "ws_call_sig call qs =
     (case qs of (q, s) \<Rightarrow>
      if call = ''CallUnary'' then Some \<lparr>fn_params = [Pointer q], fn_results = [Pointer s, error_type]\<rparr>
      else if call = ''CallServerStream'' then Some \<lparr>fn_params = [Pointer q], fn_results = [Instance ''ws.ServerStream'' [s], error_type]\<rparr>
      else if call = ''CallClientStream'' then Some \<lparr>fn_params = [], fn_results = [Instance ''ws.ClientStream'' [q, s], error_type]\<rparr>
      else if call = ''CallBidi'' then Some \<lparr>fn_params = [], fn_results = [Instance ''ws.BidiStream'' [q, s], error_type]\<rparr>
      else None)"

definition ws_call :: "bool \<Rightarrow> 'q proto \<Rightarrow> string \<Rightarrow> ws_client_method \<Rightarrow> 'q option \<Rightarrow> client \<Rightarrow> client" where
  [go_eval]: "ws_call pick pr tq wc req c =
     (if wc_call wc = ''CallUnary'' then snd (CallUnary_request pick pr tq (wc_procedure wc) req c)
      else if wc_call wc = ''CallServerStream'' then snd (CallServerStream pick pr tq (wc_procedure wc) req c)
      else if wc_call wc = ''CallClientStream'' then snd (CallClientStream pick (wc_procedure wc) c)
      else snd (CallBidi pick (wc_procedure wc) c))"

section \<open>The loops\<close>

lemma methods_of_extract: "methods_of svc (extractServiceInfo svc) = map (\<lambda>m. (m, extractMethodInfo m svc)) (sv_Methods svc)"
  by (simp add: methods_of_def zip_map2 zip_same_conv_map)

lemma shapes: "methodShape m \<in> {shapeUnary, shapeClientStream, shapeServerStream, shapeBidi}"
  by (simp add: methodShape_def Let_def)

lemmas shape_defs = shapeUnary_def shapeClientStream_def shapeServerStream_def shapeBidi_def

definition connect_methods :: "proto_service \<Rightarrow> proto_method list" where
  [go_eval]: "connect_methods svc = filter (\<lambda>m. m_Connect (extractMethodInfo m svc)) (sv_Methods svc)"

definition ws_methods :: "proto_service \<Rightarrow> proto_method list" where
  [go_eval]: "ws_methods svc = filter (\<lambda>m. m_Ws (extractMethodInfo m svc)) (sv_Methods svc)"

lemma filtered_methods:
  "filter (\<lambda>(m, mi). m_Connect mi) (methods_of svc (extractServiceInfo svc)) = map (\<lambda>m. (m, extractMethodInfo m svc)) (connect_methods svc)"
  "filter (\<lambda>(m, mi). m_Ws mi) (methods_of svc (extractServiceInfo svc)) = map (\<lambda>m. (m, extractMethodInfo m svc)) (ws_methods svc)"
  by (simp_all add: methods_of_extract filter_map o_def connect_methods_def ws_methods_def)

definition connect_registration :: "proto_service \<Rightarrow> proto_method \<Rightarrow> registration" where
  "connect_registration svc m = emitConnectHandlerRegistration m (extractMethodInfo m svc)"

lemma connect_registrations: "snd (generateConnect svc (extractServiceInfo svc)) = map (connect_registration svc) (connect_methods svc)"
  by (simp add: generateConnect_def filtered_methods connect_registration_def o_def)

definition ws_registration :: "proto_service \<Rightarrow> proto_method \<Rightarrow> registration" where
  "ws_registration svc m =
     \<lparr>rg_call = (if methodShape m = shapeServerStream then ''HandleServerStream''
                 else if methodShape m = shapeClientStream then ''HandleClientStream''
                 else if methodShape m = shapeBidi then ''HandleBidi'' else ''HandleUnary''),
      rg_procedure = procedure_name m svc, rg_method = md_GoName m\<rparr>"

lemma ws_registrations: "generateWS svc (extractServiceInfo svc) = map (ws_registration svc) (ws_methods svc)"
  by (simp add: generateWS_def filtered_methods ws_registration_def o_def)

lemma handler_lookup:
  assumes "distinct (map md_GoName (sv_Methods svc))" and "m \<in> set (sv_Methods svc)"
  shows "map_of (generateHandler svc) (md_GoName m) = Some (snd (handler_method m))"
proof -
  have "map_of (map handler_method ms) (md_GoName m) = Some (snd (handler_method m))" if "distinct (map md_GoName ms)" "m \<in> set ms" for ms
    using that by (induction ms) (auto simp: handler_method_def Let_def rev_image_eqI)
  with assms show ?thesis by (simp add: generateHandler_def)
qed

lemma registration_typed:
  "handler_param (rg_call (connect_registration svc m)) (input_type m) (output_type m) = Some (snd (handler_method m))"
  "handler_param (rg_call (ws_registration svc m)) (input_type m) (output_type m) = Some (snd (handler_method m))"
  using shapes[of m]
  by (auto simp: connect_registration_def emitConnectHandlerRegistration_def ws_registration_def handler_param_def handler_method_def
      shape_defs Let_def)

lemma procedure_inj: "procedure_name m svc = procedure_name m' svc \<longleftrightarrow> md_Name m = md_Name m'"
  by (simp add: procedure_name_def)

lemma run_registrations_map:
  assumes "distinct (map rg_procedure rs)" and "r \<in> set rs"
  shows "run_registrations rs handlers (rg_procedure r) = Some (handle_shape (rg_call r))"
proof -
  have keep: "run_registrations rs h p = h p" if "p \<notin> rg_procedure ` set rs" for h p rs
    using that by (induction rs arbitrary: h) (simp_all add: run_registrations_def register_handler_def)
  show ?thesis
    using assms
  proof (induction rs arbitrary: handlers)
    case (Cons a rs)
    show ?case
    proof (cases "r = a")
      case True
      with Cons.prems(1) keep[of "rg_procedure r" rs] show ?thesis
        by (simp add: run_registrations_def register_handler_def)
    next
      case False
      with Cons show ?thesis by (simp add: run_registrations_def)
    qed
  qed simp
qed

section \<open>Clients\<close>

definition capital :: "string \<Rightarrow> bool" where
  [go_eval]: "capital s = (case s of [] \<Rightarrow> False | c # cs \<Rightarrow> is_upper c)"

lemma capital_bound: "is_upper c \<Longrightarrow> (of_char c :: nat) \<le> 90"
  by (simp add: is_upper_def less_eq_char_def)

lemma unexport_capital: "capital s \<Longrightarrow> unexport s = char_of ((of_char (hd s) :: nat) + 32) # tl s"
  by (cases s) (auto simp: capital_def unexport_def Let_def dest!: capital_bound)

lemma unexport_inj:
  assumes "capital a" and "capital b" and "unexport a = unexport b"
  shows "a = b"
proof -
  obtain x xs y ys where ab: "a = x # xs" "b = y # ys" using assms(1,2) by (cases a; cases b) (auto simp: capital_def)
  have le: "(of_char x :: nat) \<le> 90" "(of_char y :: nat) \<le> 90"
    using assms(1,2) ab capital_bound by (simp_all add: capital_def)
  have eq: "char_of ((of_char x :: nat) + 32) = (char_of ((of_char y :: nat) + 32) :: char)" "xs = ys"
    using assms(3) unexport_capital[OF assms(1)] unexport_capital[OF assms(2)] ab by simp_all
  have "((of_char x :: nat) + 32) mod 256 = (of_char y + 32) mod 256"
    using arg_cong[OF eq(1), of "of_char :: char \<Rightarrow> nat"] by simp
  with le have "(of_char x :: nat) = of_char y" by simp
  with eq(2) ab show ?thesis by simp
qed

lemma client_methods:
  "map (\<lambda>(m, mi). f m mi) (map (\<lambda>m. (m, extractMethodInfo m svc)) ms) = map (\<lambda>m. f m (extractMethodInfo m svc)) ms"
  by simp

definition client_call_name :: "proto_method \<Rightarrow> string" where
  "client_call_name m =
     (if methodShape m = shapeClientStream then ''CallClientStream''
      else if methodShape m = shapeServerStream then ''CallServerStream''
      else if methodShape m = shapeBidi then ''CallBidiStream'' else ''CallUnary'')"

lemma client_impl:
  "cm_sig (emitClientMethodImpl m (extractMethodInfo m svc)) = emitClientInterfaceMethod m (extractMethodInfo m svc)"
  "fst (emitClientInterfaceMethod m (extractMethodInfo m svc)) = md_GoName m"
  "cm_field (emitClientMethodImpl m (extractMethodInfo m svc)) = unexport (md_GoName m)"
  "cm_call (emitClientMethodImpl m (extractMethodInfo m svc)) = client_call_name m"
  by (simp_all add: emitClientMethodImpl_def emitClientInterfaceMethod_def client_call_name_def Let_def)

lemma ws_impl:
  "\<exists>wc. emitWSClientMethodImpl m (extractMethodInfo m svc) = Some wc \<and> wc_procedure wc = procedure_name m svc
     \<and> emitWSClientInterfaceMethod m (extractMethodInfo m svc) = Some (wc_sig wc)
     \<and> wc_types wc = (input_type m, output_type m) \<and> fst (wc_sig wc) = md_GoName m
     \<and> ws_call_sig (wc_call wc) (wc_types wc) = Some \<lparr>fn_params = tl (fn_params (snd (wc_sig wc))), fn_results = fn_results (snd (wc_sig wc))\<rparr>
     \<and> (wc_call wc, handle_shape (rg_call (ws_registration svc m)))
         \<in> {(''CallUnary'', CallShapeUnary), (''CallServerStream'', CallShapeServerStream),
            (''CallClientStream'', CallShapeClientStream), (''CallBidi'', CallShapeBidi)}"
  using shapes[of m]
  by (auto simp: emitWSClientMethodImpl_def emitWSClientInterfaceMethod_def ws_call_sig_def ws_registration_def handle_shape_def
      shape_defs Let_def)

text \<open>A call first opens a session for its procedure, with the shape of the function called.\<close>

lemma ws_call_opens:
  assumes "\<not> c_done c" and "(wc_call wc, shape) \<in> {(''CallUnary'', CallShapeUnary), (''CallServerStream'', CallShapeServerStream),
      (''CallClientStream'', CallShapeClientStream), (''CallBidi'', CallShapeBidi)}"
  shows "\<exists>rest. c_wire (ws_call pick pr tq wc req c) = c_wire c @
    (plain_frame frameTypeOpen (session_id (c_nextID c + 1)))\<lparr>in_Procedure := wc_procedure wc, in_Shape := shape\<rparr> # rest"
  using assms
  by (auto simp: ws_call_def CallUnary_request_def CallServerStream_def CallClientStream_def CallBidi_def newSession_def Let_def
      sendRequest_def sendOpen_def sendMessage_def sendClose_def client_send_def removeSession_def split: sum.splits)

lemma ws_signatures:
  "map wc_sig (snd (generateWSClient svc (extractServiceInfo svc))) = fst (generateWSClient svc (extractServiceInfo svc))"
proof -
  have "map wc_sig (List.map_filter (\<lambda>(m, mi). emitWSClientMethodImpl m mi) (map (\<lambda>m. (m, extractMethodInfo m svc)) ms))
      = List.map_filter (\<lambda>(m, mi). emitWSClientInterfaceMethod m mi) (map (\<lambda>m. (m, extractMethodInfo m svc)) ms)" for ms
  proof (induction ms)
    case (Cons m ms)
    with ws_impl[of m svc] show ?case by (auto simp: map_filter_simps)
  qed (simp add: map_filter_simps)
  then show ?thesis by (simp add: generateWSClient_def filtered_methods Let_def)
qed

section \<open>Properties\<close>

text \<open>
  C25. The code emitted for the network transports type-checks: the method each registration passes exists in the
  handler interface with exactly the type the constructor takes, the clients implement their interfaces, and a
  WebSocket client method takes and returns what the function it calls takes and returns.
\<close>

theorem generated_services_typed:
  assumes "distinct (map md_GoName (sv_Methods svc))"
    and "r \<in> set (snd (generateConnect svc (extractServiceInfo svc))) \<union> set (generateWS svc (extractServiceInfo svc))"
  shows "(\<exists>m ty. map_of (generateHandler svc) (rg_method r) = Some ty
      \<and> handler_param (rg_call r) (input_type m) (output_type m) = Some ty)
    \<and> map cm_sig (cc_methods (generateConnectClient svc (extractServiceInfo svc))) = cc_interface (generateConnectClient svc (extractServiceInfo svc))
    \<and> map wc_sig (snd (generateWSClient svc (extractServiceInfo svc))) = fst (generateWSClient svc (extractServiceInfo svc))
    \<and> (\<forall>wc \<in> set (snd (generateWSClient svc (extractServiceInfo svc))).
         ws_call_sig (wc_call wc) (wc_types wc)
           = Some \<lparr>fn_params = tl (fn_params (snd (wc_sig wc))), fn_results = fn_results (snd (wc_sig wc))\<rparr>)"
proof (intro conjI)
  obtain m where "m \<in> set (sv_Methods svc)" "r = connect_registration svc m \<or> r = ws_registration svc m"
    using assms(2) by (auto simp: connect_registrations ws_registrations connect_methods_def ws_methods_def)
  moreover from this have "rg_method r = md_GoName m"
    by (auto simp: connect_registration_def emitConnectHandlerRegistration_def ws_registration_def)
  ultimately show "\<exists>m ty. map_of (generateHandler svc) (rg_method r) = Some ty
      \<and> handler_param (rg_call r) (input_type m) (output_type m) = Some ty"
    using handler_lookup[OF assms(1)] registration_typed[of svc m] by metis
  show "map cm_sig (cc_methods (generateConnectClient svc (extractServiceInfo svc))) = cc_interface (generateConnectClient svc (extractServiceInfo svc))"
    by (simp add: generateConnectClient_def filtered_methods client_impl)
  show "map wc_sig (snd (generateWSClient svc (extractServiceInfo svc))) = fst (generateWSClient svc (extractServiceInfo svc))"
    by (rule ws_signatures)
  show "\<forall>wc \<in> set (snd (generateWSClient svc (extractServiceInfo svc))).
         ws_call_sig (wc_call wc) (wc_types wc)
           = Some \<lparr>fn_params = tl (fn_params (snd (wc_sig wc))), fn_results = fn_results (snd (wc_sig wc))\<rparr>"
  proof
    fix wc
    assume "wc \<in> set (snd (generateWSClient svc (extractServiceInfo svc)))"
    then obtain m where "emitWSClientMethodImpl m (extractMethodInfo m svc) = Some wc"
      by (auto simp: generateWSClient_def filtered_methods List.map_filter_def Let_def)
    with ws_impl[of m svc] show "ws_call_sig (wc_call wc) (wc_types wc)
        = Some \<lparr>fn_params = tl (fn_params (snd (wc_sig wc))), fn_results = fn_results (snd (wc_sig wc))\<rparr>" by auto
  qed
qed

text \<open>
  C15. A Connect client reaches its handler: a method of the generated client calls, with the call of its shape, a
  procedure that the generated server registers once, under the path prefix it returns, for the same method.
\<close>

theorem connect_client_reaches_handler:
  assumes "distinct (map md_GoName (sv_Methods svc))" and "distinct (map md_Name (sv_Methods svc))"
    and "\<forall>m \<in> set (sv_Methods svc). capital (md_GoName m)" and "m \<in> set (connect_methods svc)"
  shows "\<exists>r \<in> set (snd (generateConnect svc (extractServiceInfo svc))).
      connect_client_call (generateConnectClient svc (extractServiceInfo svc)) (md_GoName m) = Some (client_call_name m, rg_procedure r)
    \<and> rg_method r = md_GoName m
    \<and> (client_call_name m, rg_call r) \<in> {(''CallUnary'', ''NewUnaryHandler''), (''CallServerStream'', ''NewServerStreamHandler''),
         (''CallClientStream'', ''NewClientStreamHandler''), (''CallBidiStream'', ''NewBidiStreamHandler'')}
    \<and> has_prefix (rg_procedure r) (fst (generateConnect svc (extractServiceInfo svc)))
    \<and> distinct (map rg_procedure (snd (generateConnect svc (extractServiceInfo svc))))"
proof -
  let ?cc = "generateConnectClient svc (extractServiceInfo svc)" and ?ms = "connect_methods svc"
  have ms: "distinct (map md_GoName ?ms)" "distinct (map md_Name ?ms)" "\<forall>m \<in> set ?ms. capital (md_GoName m)"
    using assms(1-3) by (simp_all add: connect_methods_def distinct_map_filter)
  have "map_of (map (\<lambda>m. (md_GoName m, emitClientMethodImpl m (extractMethodInfo m svc))) ?ms) (md_GoName m)
      = Some (emitClientMethodImpl m (extractMethodInfo m svc))"
    by (rule map_of_is_SomeI) (use ms(1) assms(4) in \<open>auto simp: o_def\<close>)
  then have impl: "map_of (map (\<lambda>cm. (fst (cm_sig cm), cm)) (cc_methods ?cc)) (md_GoName m) = Some (emitClientMethodImpl m (extractMethodInfo m svc))"
    by (simp add: generateConnectClient_def filtered_methods client_impl o_def Let_def)
  have "inj_on unexport (set (map md_GoName ?ms))" using ms(3) unexport_inj by (intro inj_onI) auto
  with ms(1) have "distinct (map unexport (map md_GoName ?ms))" by (subst distinct_map) blast
  then have "distinct (map (\<lambda>m. unexport (md_GoName m)) ?ms)" by (simp add: o_def)
  then have "map_of (map (\<lambda>m. (unexport (md_GoName m), client_type m, procedure_name m svc)) ?ms) (unexport (md_GoName m))
      = Some (client_type m, procedure_name m svc)"
    by (intro map_of_is_SomeI) (use assms(4) in \<open>auto simp: o_def\<close>)
  then have "map_of (cc_inits ?cc) (unexport (md_GoName m)) = Some (client_type m, procedure_name m svc)"
    by (simp add: generateConnectClient_def filtered_methods o_def Let_def)
  with impl have call: "connect_client_call ?cc (md_GoName m) = Some (client_call_name m, procedure_name m svc)"
    by (simp add: connect_client_call_def client_impl)
  have "rg_procedure \<circ> connect_registration svc = (\<lambda>m. procedure_name m svc)"
    by (simp add: fun_eq_iff connect_registration_def emitConnectHandlerRegistration_def)
  then have "distinct (map rg_procedure (map (connect_registration svc) ?ms))"
    using ms(2) by (simp add: distinct_map inj_on_def procedure_inj)
  with call assms(4) show ?thesis
    unfolding connect_registrations using shapes[of m]
    by (intro bexI[of _ "connect_registration svc m"])
      (auto simp: connect_registration_def emitConnectHandlerRegistration_def client_call_name_def generateConnect_def
        procedure_name_def has_prefix_iff shape_defs)
qed


section \<open>Witnesses\<close>

definition net_method :: "string \<Rightarrow> bool \<Rightarrow> proto_method" where
  [go_eval]: "net_method name streams =
     \<lparr>md_GoName = name, md_Name = name, md_Input = \<lparr>pm_GoName = ''Req'', pm_Fields = []\<rparr>,
      md_Output = \<lparr>pm_GoName = ''Res'', pm_Fields = []\<rparr>, md_StreamingClient = streams, md_StreamingServer = streams,
      md_Options = Some \<lparr>proc_CliPath = None, proc_Cli = Some False, proc_Connect = Some True, proc_Ws = Some True,
        proc_Summary = None, proc_Hidden = None\<rparr>\<rparr>"

definition net_service :: proto_service where
  [go_eval]: "net_service = \<lparr>sv_GoName = ''Net'', sv_Name = ''Net'', sv_Package = ''p'', sv_Options = None,
     sv_Methods = [net_method ''Ping'' False, net_method ''Chat'' True]\<rparr>"

lemma net_facts:
  "distinct (map md_GoName (sv_Methods net_service))" "distinct (map md_Name (sv_Methods net_service))"
  "list_all (\<lambda>m. capital (md_GoName m)) (sv_Methods net_service)"
  "connect_methods net_service = sv_Methods net_service" "ws_methods net_service = sv_Methods net_service"
  "net_method ''Chat'' True \<in> set (sv_Methods net_service)"
  by (code_simp, code_simp, code_simp, code_simp, code_simp, simp add: net_service_def)

theorem generated_services_typed_witness:
  "map wc_sig (snd (generateWSClient net_service (extractServiceInfo net_service))) = fst (generateWSClient net_service (extractServiceInfo net_service))"
proof -
  have "ws_registration net_service (net_method ''Chat'' True) \<in> set (generateWS net_service (extractServiceInfo net_service))"
    using net_facts(5,6) by (simp add: ws_registrations)
  then show ?thesis using generated_services_typed[OF net_facts(1)] by blast
qed

theorem connect_client_reaches_handler_witness:
  "\<exists>r \<in> set (snd (generateConnect net_service (extractServiceInfo net_service))).
     connect_client_call (generateConnectClient net_service (extractServiceInfo net_service)) ''Chat'' = Some (''CallBidiStream'', rg_procedure r)
     \<and> rg_method r = ''Chat''"
  using connect_client_reaches_handler[OF net_facts(1,2), of "net_method ''Chat'' True"] net_facts(3,4,6)
  by (auto simp: list_all_iff client_call_name_def net_method_def methodShape_def shape_defs)

definition net_cfg :: server_cfg where
  [go_eval]: "net_cfg = \<lparr>cfg_handlers = run_registrations (generateWS net_service (extractServiceInfo net_service)) Map.empty,
     cfg_maxInflight = 1, cfg_errorMapper = None\<rparr>"


end
