(* ===== verification/CodegenLoader.thy ===== *)
theory CodegenLoader imports CodegenConfig ConfigLoad ConfigFile begin

text \<open>
  \<open>internal/codegen/config.go\<close>: the configuration loader the generator emits. The emitted functions are
  modelled by what they do: each definition below is the function the emitter of the same name prints,
  with the loop over the fields that the emitter runs while printing. A configuration message holds the values
  of its scalar fields under their Go names; the presence record is the set of the names marked.
\<close>

section \<open>Emitted field parsers\<close>

definition scalarConfigParserName :: "kind \<Rightarrow> string option" where
  "scalarConfigParserName k =
     (case k of
        StringKind \<Rightarrow> Some ''ParseString''
      | BytesKind \<Rightarrow> Some ''ParseBytes''
      | BoolKind \<Rightarrow> Some ''ParseBool''
      | Int32Kind \<Rightarrow> Some ''ParseInt32'' | Sint32Kind \<Rightarrow> Some ''ParseInt32'' | Sfixed32Kind \<Rightarrow> Some ''ParseInt32''
      | Int64Kind \<Rightarrow> Some ''ParseInt64'' | Sint64Kind \<Rightarrow> Some ''ParseInt64'' | Sfixed64Kind \<Rightarrow> Some ''ParseInt64''
      | Uint32Kind \<Rightarrow> Some ''ParseUint32'' | Fixed32Kind \<Rightarrow> Some ''ParseUint32''
      | Uint64Kind \<Rightarrow> Some ''ParseUint64'' | Fixed64Kind \<Rightarrow> Some ''ParseUint64''
      | FloatKind \<Rightarrow> Some ''ParseFloat32''
      | DoubleKind \<Rightarrow> Some ''ParseFloat64''
      | EnumKind \<Rightarrow> None | MessageKind \<Rightarrow> None | GroupKind \<Rightarrow> None)"

text \<open>A call of a function of package \<open>config\<close> by its name.\<close>

definition config_function :: "'f float_ops \<Rightarrow> string \<Rightarrow> string \<Rightarrow> goerr + 'f config_value" where
  "config_function pf name raw =
     (if name = ''ParseString'' then val_map VString (ParseString raw)
      else if name = ''ParseBytes'' then val_map VBytes (ParseBytes raw)
      else if name = ''ParseBool'' then val_map VBool (ParseBool raw)
      else if name = ''ParseInt32'' then val_map VInt32 (ParseInt32 raw)
      else if name = ''ParseInt64'' then val_map VInt64 (ParseInt64 raw)
      else if name = ''ParseUint32'' then val_map VUint32 (ParseUint32 raw)
      else if name = ''ParseUint64'' then val_map VUint64 (ParseUint64 raw)
      else if name = ''ParseFloat32'' then val_map VFloat32 (ParseFloat32 pf raw)
      else val_map VFloat64 (ParseFloat64 pf raw))"

text \<open>The body for an enum: a chain of comparisons, one for each value, printed in declaration order.\<close>

fun emitted_comparisons :: "enum_value_info list \<Rightarrow> string \<Rightarrow> int32 option" where
  "emitted_comparisons [] raw = None"
| "emitted_comparisons (v # vs) raw = (if raw = ev_ProtoName v then Some (ev_Number v) else emitted_comparisons vs raw)"

definition emitEnumFieldParserBody :: "config_field_info \<Rightarrow> goerr + (string \<Rightarrow> goerr + 'f config_value)" where
  "emitEnumFieldParserBody field =
     (case enumCLIValues (cf_EnumTypeName field) (cf_EnumValues field) of
        Inl err \<Rightarrow> Inl (wrapf (cf_ProtoName field @ '': '') err)
      | Inr mappings \<Rightarrow> Inr (\<lambda>raw.
          case ParseEnum raw (config_mappings mappings) (cf_EnumTypeName field) of
            Inr v \<Rightarrow> Inr (VEnum v)
          | Inl err \<Rightarrow>
              (case emitted_comparisons (cf_EnumValues field) raw of
                 Some n \<Rightarrow> Inr (VEnum n)
               | None \<Rightarrow>
                   (case ParseInt raw 32 of
                      Inr v \<Rightarrow> Inr (VEnum (word_of_int v))
                    | Inl _ \<Rightarrow> Inl err))))"

definition emitFieldParser :: "'f float_ops \<Rightarrow> config_field_info \<Rightarrow> goerr + (string \<Rightarrow> goerr + 'f config_value)" where
  "emitFieldParser pf field =
     (if cf_Kind field = EnumKind then emitEnumFieldParserBody field
      else case scalarConfigParserName (cf_Kind field) of
        None \<Rightarrow> Inl (unsupported_kind (cf_Kind field))
      | Some parserName \<Rightarrow> Inr (config_function pf parserName))"

text \<open>The error of a generation, which the emission of the field parsers alone can cause.\<close>

definition emitFieldParsers :: "'f float_ops \<Rightarrow> config_info \<Rightarrow> goerr option" where
  "emitFieldParsers pf cfg =
     first_err (\<lambda>field. if \<not> NeedsJSONFieldParser field \<and> \<not> NeedsStringParser field then None
                       else case emitFieldParser pf field of Inl e \<Rightarrow> Some e | Inr _ \<Rightarrow> None)
       (cm_Fields (ci_Message cfg))"

definition generateConfig :: "'f float_ops \<Rightarrow> config_info \<Rightarrow> goerr option" where
  "generateConfig pf cfg = emitFieldParsers pf cfg"

text \<open>The parser function emitted for a field; where its emission fails there is no code to run.\<close>

definition field_parser_fn :: "'f float_ops \<Rightarrow> config_field_info \<Rightarrow> string \<Rightarrow> goerr + 'f config_value" where
  "field_parser_fn pf field raw = (case emitFieldParser pf field of Inr parser \<Rightarrow> parser raw | Inl e \<Rightarrow> Inl e)"

section \<open>Emitted stages\<close>

record 'f runtime =
  rt_cfg :: "string \<rightharpoonup> 'f config_value"
  rt_presence :: "string set"

definition assign :: "config_field_info \<Rightarrow> 'f config_value \<Rightarrow> 'f runtime \<Rightarrow> 'f runtime" where
  "assign field v st =
     (let st1 = st\<lparr>rt_cfg := (rt_cfg st)(cf_GoName field \<mapsto> v)\<rparr> in
      if cf_Required field then st1\<lparr>rt_presence := insert (cf_GoName field) (rt_presence st1)\<rparr> else st1)"

definition emitApplyDefaults :: "'f float_ops \<Rightarrow> config_message_info \<Rightarrow> 'f runtime \<Rightarrow> goerr + 'f runtime" where
  "emitApplyDefaults pf msg =
     fold_res (\<lambda>field st.
       if \<not> cf_HasDefault field then Inr st
       else case field_parser_fn pf field (cf_Default field) of
         Inl err \<Rightarrow> Inl (wrapf (field_path msg field @ '': '') err)
       | Inr v \<Rightarrow> Inr (assign field v st)) (cm_Fields msg)"

definition env_setter :: "'f float_ops \<Rightarrow> config_field_info \<Rightarrow> string \<Rightarrow> 'f runtime \<Rightarrow> goerr + 'f runtime" where
  "env_setter pf field raw st =
     (case field_parser_fn pf field raw of
        Inl err \<Rightarrow> Inl (if cf_Secret field then Errorf_plain ''invalid secret value'' else err)
      | Inr v \<Rightarrow> Inr (assign field v st))"

definition emitApplyEnvWith ::
  "'f float_ops \<Rightarrow> config_message_info \<Rightarrow> env_lookup \<Rightarrow> 'f runtime \<Rightarrow> goerr + 'f runtime" where
  "emitApplyEnvWith pf msg lookup =
     fold_res (\<lambda>field st.
       if \<not> cf_HasEnv field then Inr st
       else map_err (wrapf (field_path msg field @ '' from env '' @ cf_Env field @ '': ''))
         (ApplyEnv (Some lookup) (cf_Env field) (Some (env_setter pf field)) st)) (cm_Fields msg)"

definition bootstrap_error :: "config_message_info \<Rightarrow> config_field_info \<Rightarrow> goerr \<Rightarrow> goerr" where
  "bootstrap_error msg field err =
     (if cf_Secret field
      then Errorf_plain (field_path msg field @ '' from --'' @ FlagName field @ '': invalid secret value'')
      else wrapf (field_path msg field @ '' from --'' @ FlagName field @ '': '') err)"

definition emitApplyBootstrap ::
  "'f float_ops \<Rightarrow> config_message_info \<Rightarrow> (string \<rightharpoonup> string) \<Rightarrow> 'f runtime \<Rightarrow> goerr + 'f runtime" where
  "emitApplyBootstrap pf msg vals =
     fold_res (\<lambda>field st.
       if \<not> cf_Bootstrap field then Inr st
       else case vals (FlagName field) of
         None \<Rightarrow> Inr st
       | Some raw \<Rightarrow>
           (case field_parser_fn pf field raw of
              Inl err \<Rightarrow> Inl (bootstrap_error msg field err)
            | Inr v \<Rightarrow> Inr (assign field v st))) (cm_Fields msg)"

definition emitValidateRequired :: "config_message_info \<Rightarrow> 'f runtime \<Rightarrow> goerr option" where
  "emitValidateRequired msg st =
     first_err (\<lambda>field. if \<not> cf_Required field then None
                       else ValidateRequired (field_path msg field) (cf_GoName field \<in> rt_presence st)) (cm_Fields msg)"

text \<open>
  The parsers of enum members of a file. \<open>json_num\<close> holds what they use of \<open>encoding/json\<close>: decoding a number
  of 32 bits, and the values nil and a number.
\<close>

record 'v json_num =
  DecodeInt32 :: "string \<Rightarrow> int32 option"
  num_value :: "int32 \<Rightarrow> 'v"
  nil_value :: 'v

definition enum_number :: "'f config_value \<Rightarrow> int32" where
  "enum_number v = (case v of VEnum n \<Rightarrow> n | _ \<Rightarrow> 0)"

definition emitConfigFileFieldParser ::
  "'f float_ops \<Rightarrow> ('v, 'm) json_env \<Rightarrow> 'v json_num \<Rightarrow> config_field_info \<Rightarrow> string \<Rightarrow> goerr + 'v" where
  "emitConfigFileFieldParser pf env jn field raw =
     (if raw = ''null'' then Inr (nil_value jn)
      else case DecodeString env raw of
        Some txt \<Rightarrow> val_map (\<lambda>v. num_value jn (enum_number v)) (field_parser_fn pf field txt)
      | None \<Rightarrow>
          (case DecodeInt32 jn raw of
             Some n \<Rightarrow> val_map (\<lambda>v. num_value jn (enum_number v)) (field_parser_fn pf field (FormatInt (sint n)))
           | None \<Rightarrow> Inl (Errorf_plain ''expected string or number JSON value'')))"

definition emitLoadConfigFile ::
  "'f float_ops \<Rightarrow> ('v, string \<rightharpoonup> 'f config_value) json_env \<Rightarrow> 'v json_num \<Rightarrow> config_message_info \<Rightarrow> string
     \<Rightarrow> 'f runtime \<Rightarrow> goerr + 'f runtime" where
  "emitLoadConfigFile pf env jn msg filePath st =
     (let secretFields = map cf_JSONName (filter cf_Secret (cm_Fields msg));
          requiredFields = filter cf_Required (cm_Fields msg);
          enumFields = filter NeedsJSONFieldParser (cm_Fields msg) in
      case MergeJSONFileWithParsers env filePath (Some (rt_cfg st))
             (map (\<lambda>field. (cf_JSONName field, Some (emitConfigFileFieldParser pf env jn field))) enumFields) secretFields of
        Inl err \<Rightarrow> Inl err
      | Inr (presentFields, cfg) \<Rightarrow>
          Inr \<lparr>rt_cfg = cfg,
            rt_presence = rt_presence st \<union> set (map cf_GoName (filter (\<lambda>field. cf_JSONName field \<in> presentFields) requiredFields))\<rparr>)"

definition emitConfigSpec ::
  "'f float_ops \<Rightarrow> ('v, string \<rightharpoonup> 'f config_value) json_env \<Rightarrow> 'v json_num \<Rightarrow> config_message_info \<Rightarrow> 'f runtime spec" where
  "emitConfigSpec pf env jn msg =
     \<lparr>EnvNames = map (\<lambda>field. (cf_Env field, field_path msg field)) (filter cf_HasEnv (cm_Fields msg)),
      BootstrapSpecs = map (\<lambda>field. Some (FlagName field)) (filter cf_Bootstrap (cm_Fields msg)),
      ApplyDefaults = emitApplyDefaults pf msg,
      ApplyConfigFile = emitLoadConfigFile pf env jn msg,
      ApplyEnv_spec = emitApplyEnvWith pf msg,
      ApplyBootstrap = emitApplyBootstrap pf msg,
      ValidateRequired_spec = emitValidateRequired msg\<rparr>"

text \<open>A new configuration message, with the presence record of its spec.\<close>

definition new_runtime :: "'f runtime" where
  "new_runtime = \<lparr>rt_cfg = Map.empty, rt_presence = {}\<rparr>"

section \<open>Stages that set fields\<close>

text \<open>A run over fields that assigns what \<open>src\<close> finds for each: nothing, an error or a value.\<close>

definition assign_all ::
  "(config_field_info \<Rightarrow> (goerr + 'f config_value) option) \<Rightarrow> config_field_info list \<Rightarrow> 'f runtime \<Rightarrow> goerr + 'f runtime" where
  "assign_all src = fold_res (\<lambda>field st.
     case src field of None \<Rightarrow> Inr st | Some (Inl e) \<Rightarrow> Inl e | Some (Inr v) \<Rightarrow> Inr (assign field v st))"

definition found_error :: "(goerr + 'a) option \<Rightarrow> goerr option" where
  "found_error r = (case r of Some (Inl e) \<Rightarrow> Some e | _ \<Rightarrow> None)"

definition found_value :: "(goerr + 'a) option \<Rightarrow> 'a option" where
  "found_value r = (case r of Some (Inr v) \<Rightarrow> Some v | _ \<Rightarrow> None)"

lemma found_simps [simp]:
  "found_error None = None" "found_error (Some (Inl e)) = Some e" "found_error (Some (Inr v)) = None"
  "found_value None = None" "found_value (Some (Inl e)) = None" "found_value (Some (Inr v)) = Some v"
  by (simp_all add: found_error_def found_value_def)

lemma assign_simps [simp]:
  "rt_cfg (assign f v st) = (rt_cfg st)(cf_GoName f \<mapsto> v)"
  "rt_presence (assign f v st) = (if cf_Required f then insert (cf_GoName f) (rt_presence st) else rt_presence st)"
  by (simp_all add: assign_def Let_def)

lemma assign_all_simps [simp]:
  "assign_all src [] st = Inr st"
  "assign_all src (f # fs) st =
     (case src f of None \<Rightarrow> assign_all src fs st | Some (Inl e) \<Rightarrow> Inl e | Some (Inr v) \<Rightarrow> assign_all src fs (assign f v st))"
  by (auto simp: assign_all_def split: option.splits sum.splits)

lemma assign_all_result:
  "map_sum id (\<lambda>_. ()) (assign_all src fs st) =
     (case first_err (\<lambda>f. found_error (src f)) fs of Some e \<Rightarrow> Inl e | None \<Rightarrow> Inr ())"
  by (induction fs arbitrary: st) (auto split: option.splits sum.splits)

lemma assign_all_other:
  "assign_all src fs st = Inr st' \<Longrightarrow> name \<notin> cf_GoName ` set fs \<Longrightarrow> rt_cfg st' name = rt_cfg st name"
  by (induction fs arbitrary: st) (fastforce split: option.splits sum.splits)+

lemma assign_all_value:
  "assign_all src fs st = Inr st' \<Longrightarrow> distinct (map cf_GoName fs) \<Longrightarrow> f \<in> set fs \<Longrightarrow>
     rt_cfg st' (cf_GoName f) = (case found_value (src f) of Some v \<Rightarrow> Some v | None \<Rightarrow> rt_cfg st (cf_GoName f))"
proof (induction fs arbitrary: st)
  case (Cons g fs)
  show ?case
  proof (cases "f = g")
    case True
    then have "cf_GoName f \<notin> cf_GoName ` set fs" using Cons.prems(2) by simp
    with True Cons.prems(1) show ?thesis
      by (auto dest: assign_all_other split: option.splits sum.splits)
  next
    case False
    then have f: "f \<in> set fs" "cf_GoName f \<noteq> cf_GoName g" using Cons.prems(2,3) by (auto simp: rev_image_eqI)
    have d: "distinct (map cf_GoName fs)" using Cons.prems(2) by simp
    show ?thesis using Cons.prems(1) Cons.IH[OF _ d f(1)] f(2)
      by (auto split: option.splits sum.splits)
  qed
qed simp

lemma assign_all_presence:
  "assign_all src fs st = Inr st' \<Longrightarrow>
     rt_presence st' = rt_presence st \<union> cf_GoName ` {f \<in> set fs. cf_Required f \<and> src f \<noteq> None}"
proof (induction fs arbitrary: st)
  case (Cons f fs)
  show ?case
  proof (cases "src f")
    case None
    then have "{g \<in> set (f # fs). cf_Required g \<and> src g \<noteq> None} = {g \<in> set fs. cf_Required g \<and> src g \<noteq> None}" by auto
    with Cons None show ?thesis by simp
  next
    case (Some r)
    then obtain v where v: "r = Inr v" using Cons.prems by (cases r) auto
    have "{g \<in> set (f # fs). cf_Required g \<and> src g \<noteq> None} =
        (if cf_Required f then {f} else {}) \<union> {g \<in> set fs. cf_Required g \<and> src g \<noteq> None}" using Some by auto
    with Cons.IH[of "assign f v st"] Cons.prems Some v show ?thesis by auto
  qed
qed simp

lemma first_err_cong: "(\<And>x. x \<in> set xs \<Longrightarrow> f x = g x) \<Longrightarrow> first_err f xs = first_err g xs"
  by (induction xs) (auto split: option.splits)

text \<open>
  The contract of an emitted stage: on the fields of the message it assigns what its source, given the stage's
  input, finds for each.
\<close>

locale field_stage =
  fixes stage :: "config_message_info \<Rightarrow> 'x \<Rightarrow> 'f runtime \<Rightarrow> goerr + 'f runtime"
    and origin :: "config_message_info \<Rightarrow> 'x \<Rightarrow> config_field_info \<Rightarrow> (goerr + 'f config_value) option"
  assumes stage_eq: "stage msg x st = assign_all (origin msg x) (cm_Fields msg) st"
begin

lemma stage_result:
  "map_sum id (\<lambda>_. ()) (stage msg x st) =
     (case first_err (\<lambda>f. found_error (origin msg x f)) (cm_Fields msg) of Some e \<Rightarrow> Inl e | None \<Rightarrow> Inr ())"
  by (simp add: stage_eq assign_all_result)

lemma stage_value:
  "stage msg x st = Inr st' \<Longrightarrow> distinct (map cf_GoName (cm_Fields msg)) \<Longrightarrow> f \<in> set (cm_Fields msg) \<Longrightarrow>
     rt_cfg st' (cf_GoName f) = (case found_value (origin msg x f) of Some v \<Rightarrow> Some v | None \<Rightarrow> rt_cfg st (cf_GoName f))"
  by (simp add: stage_eq assign_all_value)

lemma stage_presence:
  "stage msg x st = Inr st' \<Longrightarrow>
     rt_presence st' = rt_presence st \<union> cf_GoName ` {f \<in> set (cm_Fields msg). cf_Required f \<and> origin msg x f \<noteq> None}"
  by (simp add: stage_eq assign_all_presence)

lemma stage_errors_agree:
  assumes "\<And>f. f \<in> set (cm_Fields msg) \<Longrightarrow> found_error (origin msg x f) = found_error (origin msg y f)"
  shows "map_sum id (\<lambda>_. ()) (stage msg x st) = map_sum id (\<lambda>_. ()) (stage msg y st')"
proof -
  have "first_err (\<lambda>f. found_error (origin msg x f)) (cm_Fields msg) = first_err (\<lambda>f. found_error (origin msg y f)) (cm_Fields msg)"
    using assms by (rule first_err_cong)
  then show ?thesis by (simp add: stage_result)
qed

end

definition default_origin ::
  "'f float_ops \<Rightarrow> config_message_info \<Rightarrow> unit \<Rightarrow> config_field_info \<Rightarrow> (goerr + 'f config_value) option" where
  "default_origin pf msg u field =
     (if cf_HasDefault field
      then Some (map_err (wrapf (field_path msg field @ '': '')) (field_parser_fn pf field (cf_Default field))) else None)"

definition env_origin ::
  "'f float_ops \<Rightarrow> config_message_info \<Rightarrow> env_lookup \<Rightarrow> config_field_info \<Rightarrow> (goerr + 'f config_value) option" where
  "env_origin pf msg lookup field =
     (if cf_HasEnv field \<and> cf_Env field \<noteq> []
      then map_option (\<lambda>raw. map_err (\<lambda>err. wrapf (field_path msg field @ '' from env '' @ cf_Env field @ '': '')
             (wrapf (''apply env '' @ cf_Env field @ '': '')
               (if cf_Secret field then Errorf_plain ''invalid secret value'' else err))) (field_parser_fn pf field raw))
           (lookup (cf_Env field))
      else None)"

definition flag_origin ::
  "'f float_ops \<Rightarrow> config_message_info \<Rightarrow> (string \<rightharpoonup> string) \<Rightarrow> config_field_info \<Rightarrow> (goerr + 'f config_value) option" where
  "flag_origin pf msg vals field =
     (if cf_Bootstrap field
      then map_option (\<lambda>raw. map_err (bootstrap_error msg field) (field_parser_fn pf field raw)) (vals (FlagName field))
      else None)"

interpretation defaults: field_stage "\<lambda>msg (u :: unit). emitApplyDefaults pf msg" "default_origin pf" for pf
proof
  fix msg u st
  show "emitApplyDefaults pf msg st = assign_all (default_origin pf msg u) (cm_Fields msg) st"
    unfolding emitApplyDefaults_def assign_all_def
    by (intro fold_res_cong) (auto simp: default_origin_def split: sum.splits)
qed

interpretation envs: field_stage "emitApplyEnvWith pf" "env_origin pf" for pf
proof
  fix msg lookup st
  show "emitApplyEnvWith pf msg lookup st = assign_all (env_origin pf msg lookup) (cm_Fields msg) st"
    unfolding emitApplyEnvWith_def assign_all_def
    by (intro fold_res_cong) (auto simp: env_origin_def ApplyEnv_def env_setter_def split: sum.splits option.splits)
qed

interpretation flags: field_stage "emitApplyBootstrap pf" "flag_origin pf" for pf
proof
  fix msg vals st
  show "emitApplyBootstrap pf msg vals st = assign_all (flag_origin pf msg vals) (cm_Fields msg) st"
    unfolding emitApplyBootstrap_def assign_all_def
    by (intro fold_res_cong) (auto simp: flag_origin_def split: sum.splits option.splits)
qed

section \<open>Parsers\<close>

lemma comparisons_eq: "emitted_comparisons vs raw = number_of_name raw vs"
  by (induction vs) auto

lemma config_function_simps [simp]:
  "config_function pf ''ParseString'' raw = val_map VString (ParseString raw)"
  "config_function pf ''ParseBytes'' raw = val_map VBytes (ParseBytes raw)"
  "config_function pf ''ParseBool'' raw = val_map VBool (ParseBool raw)"
  "config_function pf ''ParseInt32'' raw = val_map VInt32 (ParseInt32 raw)"
  "config_function pf ''ParseInt64'' raw = val_map VInt64 (ParseInt64 raw)"
  "config_function pf ''ParseUint32'' raw = val_map VUint32 (ParseUint32 raw)"
  "config_function pf ''ParseUint64'' raw = val_map VUint64 (ParseUint64 raw)"
  "config_function pf ''ParseFloat32'' raw = val_map VFloat32 (ParseFloat32 pf raw)"
  "config_function pf ''ParseFloat64'' raw = val_map VFloat64 (ParseFloat64 pf raw)"
  by (simp_all add: config_function_def)

lemma emitted_parser_eq:
  "emitFieldParser pf field = Inr parser \<Longrightarrow> parser raw = parseConfigValueForValidation pf field raw"
  by (cases "cf_Kind field")
    (auto simp: emitFieldParser_def emitEnumFieldParserBody_def parseConfigValueForValidation_def scalarConfigParserName_def
      parse_enum_text_def comparisons_eq split: sum.splits option.splits)

lemma emit_fails_iff:
  "(\<exists>e. emitFieldParser pf field = Inl e) \<longleftrightarrow>
     cf_Kind field = MessageKind \<or> cf_Kind field = GroupKind
     \<or> cf_Kind field = EnumKind \<and> \<not> is_ok (enumCLIValues (cf_EnumTypeName field) (cf_EnumValues field))"
  by (cases "cf_Kind field")
    (auto simp: emitFieldParser_def emitEnumFieldParserBody_def scalarConfigParserName_def is_ok_iff split: sum.splits)

lemma parser_fn_ok:
  assumes "is_ok (parseConfigValueForValidation pf field raw)"
  shows "field_parser_fn pf field raw = parseConfigValueForValidation pf field raw"
proof (cases "emitFieldParser pf field")
  case (Inl e)
  then have "\<not> is_ok (parseConfigValueForValidation pf field raw)"
    using emit_fails_iff[of pf field] by (auto simp: parseConfigValueForValidation_def is_ok_iff split: sum.splits)
  with assms show ?thesis by simp
next
  case (Inr parser)
  then show ?thesis using emitted_parser_eq[OF Inr] by (simp add: field_parser_fn_def)
qed

section \<open>Properties\<close>

text \<open>
  The generated parser of a field is the one the generator validates defaults with, on every text and for
  every kind.
\<close>

theorem generated_parser_validated:
  assumes "emitFieldParser pf field = Inr parser"
  shows "parser raw = parseConfigValueForValidation pf field raw"
  using assms by (rule emitted_parser_eq)

text \<open>
  The defaults of a validated configuration always apply, and give every field with a default the value of
  its text, mark the required ones present and change nothing else.
\<close>

theorem validated_defaults_apply:
  assumes "shouldValidateConfig (Some c) p" and "validateConfigInfo pf (Some c) p = None"
    and "distinct (map cf_GoName (cm_Fields (ci_Message c)))"
  shows "\<exists>st'. emitApplyDefaults pf (ci_Message c) st = Inr st'
    \<and> (\<forall>f \<in> set (cm_Fields (ci_Message c)). rt_cfg st' (cf_GoName f) =
         (if cf_HasDefault f then found_value (Some (parseConfigValueForValidation pf f (cf_Default f))) else rt_cfg st (cf_GoName f)))
    \<and> rt_presence st' = rt_presence st \<union> cf_GoName ` {f \<in> set (cm_Fields (ci_Message c)). cf_Required f \<and> cf_HasDefault f}"
proof -
  let ?fs = "cm_Fields (ci_Message c)" and ?src = "default_origin pf (ci_Message c) ()"
  have ok: "field_ok pf f" if "f \<in> set ?fs" for f using assms(1,2) that by (simp add: validateConfigInfo_ok)
  have src: "?src f = (if cf_HasDefault f then Some (parseConfigValueForValidation pf f (cf_Default f)) else None)"
    and fine: "found_error (?src f) = None" if "f \<in> set ?fs" for f
    using ok[OF that] by (auto simp: default_origin_def field_ok_def parser_fn_ok is_ok_iff)
  have "first_err (\<lambda>f. found_error (?src f)) ?fs = None" using fine by (simp add: first_err_None)
  then have "map_sum id (\<lambda>_. ()) (emitApplyDefaults pf (ci_Message c) st) = Inr ()"
    by (simp add: defaults.stage_result[where x = "()"])
  then obtain st' where st': "emitApplyDefaults pf (ci_Message c) st = Inr st'"
    by (cases "emitApplyDefaults pf (ci_Message c) st") auto
  have "rt_cfg st' (cf_GoName f) =
      (if cf_HasDefault f then found_value (Some (parseConfigValueForValidation pf f (cf_Default f))) else rt_cfg st (cf_GoName f))"
    if "f \<in> set ?fs" for f
    using defaults.stage_value[OF st' assms(3) that] ok[OF that]
    by (auto simp: src[OF that] field_ok_def is_ok_iff)
  moreover have "{f \<in> set ?fs. cf_Required f \<and> ?src f \<noteq> None} = {f \<in> set ?fs. cf_Required f \<and> cf_HasDefault f}"
    by (auto simp: default_origin_def)
  ultimately show ?thesis using st' defaults.stage_presence[OF st', of "()"] by simp
qed

text \<open>What a successful load of a single generated configuration went through.\<close>

lemma load_generated:
  assumes "Load (ProviderType (emitConfigSpec pf env jn msg)) s0 os_env argv = Return (Inr (st, rest))"
  obtains boot st1 st2 st3 where
    "ParseBootstrapArgs argv (map Some (flag_list (cm_Fields msg))) = Inr boot"
    "emitApplyDefaults pf msg s0 = Inr st1"
    "if ConfigPath boot = [] then st2 = st1 else emitLoadConfigFile pf env jn msg (ConfigPath boot) st1 = Inr st2"
    "emitApplyEnvWith pf msg os_env st2 = Inr st3"
    "emitApplyBootstrap pf msg (Values boot) st3 = Inr st"
    "emitValidateRequired msg st = None"
proof -
  from assms obtain boot st1 st2 st3 where
    "applyAllDefaults [emitConfigSpec pf env jn msg] s0 = Inr st1"
    "parseUnifiedBootstrap argv [emitConfigSpec pf env jn msg] = Inr boot"
    "applyConfigFile [emitConfigSpec pf env jn msg] (ConfigPath boot) st1 = Return (Inr st2)"
    "applyAllEnv os_env [emitConfigSpec pf env jn msg] st2 = Inr st3"
    "applyAllBootstrap (Values boot) [emitConfigSpec pf env jn msg] st3 = Inr st"
    "validateAllRequired [emitConfigSpec pf env jn msg] st = None"
    by (auto simp: Load_stages)
  then show ?thesis
    by (intro that[of boot st1 st2 st3])
      (auto simp: applyAllDefaults_def parseUnifiedBootstrap_def applyConfigFile_def applyAllEnv_def applyAllBootstrap_def
        validateAllRequired_def emitConfigSpec_def flag_list_def o_def split: sum.splits option.splits if_splits)
qed

text \<open>The text a source has for a field, and its value.\<close>

definition flag_text :: "bootstrap_result \<Rightarrow> config_field_info \<Rightarrow> string option" where
  "flag_text boot f = (if cf_Bootstrap f then Values boot (FlagName f) else None)"

definition env_text :: "env_lookup \<Rightarrow> config_field_info \<Rightarrow> string option" where
  "env_text os_env f = (if cf_HasEnv f \<and> cf_Env f \<noteq> [] then os_env (cf_Env f) else None)"

definition text_value :: "'f float_ops \<Rightarrow> config_field_info \<Rightarrow> string \<Rightarrow> 'f config_value option" where
  "text_value pf f raw = found_value (Some (field_parser_fn pf f raw))"

lemma found_error_map: "found_error (Some (map_err g r)) = None \<longleftrightarrow> is_ok r"
  by (cases r) auto

lemma found_value_map [simp]: "found_value (Some (map_err g r)) = found_value (Some r)"
  by (cases r) auto

lemma found_value_ok: "is_ok r \<Longrightarrow> (case found_value (Some r) of Some v \<Rightarrow> Some v | None \<Rightarrow> d) = found_value (Some r)"
  by (cases r) auto

lemma stage_no_error:
  assumes "map_sum id (\<lambda>_. ()) (Inr st') = (case first_err (\<lambda>f. found_error (src f)) fs of Some e \<Rightarrow> Inl e | None \<Rightarrow> Inr ())"
    and "f \<in> set fs"
  shows "found_error (src f) = None"
proof -
  have "first_err (\<lambda>f. found_error (src f)) fs = None" using assms(1) by (cases "first_err (\<lambda>f. found_error (src f)) fs") auto
  with assms(2) show ?thesis by (simp add: first_err_None)
qed

lemma env_stage_value:
  assumes "emitApplyEnvWith pf msg os_env st = Inr st'" and "distinct (map cf_GoName (cm_Fields msg))" and "f \<in> set (cm_Fields msg)"
  shows "rt_cfg st' (cf_GoName f) = (case env_text os_env f of Some raw \<Rightarrow> text_value pf f raw | None \<Rightarrow> rt_cfg st (cf_GoName f))"
proof -
  have "found_error (env_origin pf msg os_env f) = None"
    using envs.stage_result[of pf msg os_env st, unfolded assms(1)] assms(3) by (rule stage_no_error)
  with envs.stage_value[OF assms] show ?thesis
    by (auto simp: env_origin_def env_text_def text_value_def found_error_map found_value_ok is_ok_iff split: option.splits)
qed

lemma flag_stage_value:
  assumes "emitApplyBootstrap pf msg (Values boot) st = Inr st'" and "distinct (map cf_GoName (cm_Fields msg))" and "f \<in> set (cm_Fields msg)"
  shows "rt_cfg st' (cf_GoName f) = (case flag_text boot f of Some raw \<Rightarrow> text_value pf f raw | None \<Rightarrow> rt_cfg st (cf_GoName f))"
proof -
  have "found_error (flag_origin pf msg (Values boot) f) = None"
    using flags.stage_result[of pf msg "Values boot" st, unfolded assms(1)] assms(3) by (rule stage_no_error)
  with flags.stage_value[OF assms] show ?thesis
    by (auto simp: flag_origin_def flag_text_def text_value_def found_error_map found_value_ok is_ok_iff split: option.splits)
qed

lemma default_stage_value:
  assumes "emitApplyDefaults pf msg st = Inr st'" and "distinct (map cf_GoName (cm_Fields msg))" and "f \<in> set (cm_Fields msg)"
  shows "rt_cfg st' (cf_GoName f) = (if cf_HasDefault f then text_value pf f (cf_Default f) else rt_cfg st (cf_GoName f))"
proof -
  have "found_error (default_origin pf msg () f) = None"
    using defaults.stage_result[of pf msg st "()", unfolded assms(1)] assms(3) by (rule stage_no_error)
  with defaults.stage_value[OF assms, of "()"] show ?thesis
    by (auto simp: default_origin_def text_value_def found_error_map found_value_ok is_ok_iff split: option.splits)
qed

text \<open>
  C13. Precedence in a generated configuration: after a load the value of each field is its bootstrap flag's, else
  its environment variable's, else what the configuration file left, and without a file its default's.
\<close>

theorem generated_config_precedence:
  assumes "Load (ProviderType (emitConfigSpec pf env jn msg)) new_runtime os_env argv = Return (Inr (st, rest))"
    and "distinct (map cf_GoName (cm_Fields msg))" and "f \<in> set (cm_Fields msg)"
  shows "\<exists>boot st1 st2. ParseBootstrapArgs argv (map Some (flag_list (cm_Fields msg))) = Inr boot
    \<and> (if ConfigPath boot = [] then st2 = st1 else emitLoadConfigFile pf env jn msg (ConfigPath boot) st1 = Inr st2)
    \<and> rt_cfg st1 (cf_GoName f) = (if cf_HasDefault f then text_value pf f (cf_Default f) else None)
    \<and> rt_cfg st (cf_GoName f) =
        (case flag_text boot f of
           Some raw \<Rightarrow> text_value pf f raw
         | None \<Rightarrow> (case env_text os_env f of Some raw \<Rightarrow> text_value pf f raw | None \<Rightarrow> rt_cfg st2 (cf_GoName f)))"
proof -
  obtain boot st1 st2 st3 where L: "ParseBootstrapArgs argv (map Some (flag_list (cm_Fields msg))) = Inr boot"
    "emitApplyDefaults pf msg new_runtime = Inr st1"
    "if ConfigPath boot = [] then st2 = st1 else emitLoadConfigFile pf env jn msg (ConfigPath boot) st1 = Inr st2"
    "emitApplyEnvWith pf msg os_env st2 = Inr st3" "emitApplyBootstrap pf msg (Values boot) st3 = Inr st"
    by (rule load_generated[OF assms(1)])
  show ?thesis
    using L(1,3) default_stage_value[OF L(2) assms(2,3)] env_stage_value[OF L(4) assms(2,3)] flag_stage_value[OF L(5) assms(2,3)]
    by (rule_tac exI[of _ boot], rule_tac exI[of _ st1], rule_tac exI[of _ st2]) (auto simp: new_runtime_def split: option.splits)
qed

text \<open>
  Required fields: after a successful load every required field has a default, an environment variable that
  is set or a bootstrap flag that was given, unless a configuration file was read.
\<close>

theorem generated_config_required:
  assumes "Load (ProviderType (emitConfigSpec pf env jn msg)) new_runtime os_env argv = Return (Inr (st, rest))"
    and "distinct (map cf_GoName (cm_Fields msg))" and "f \<in> set (cm_Fields msg)" and "cf_Required f"
  shows "\<exists>boot. ParseBootstrapArgs argv (map Some (flag_list (cm_Fields msg))) = Inr boot
    \<and> (ConfigPath boot \<noteq> [] \<or> cf_HasDefault f \<or> env_text os_env f \<noteq> None \<or> flag_text boot f \<noteq> None)"
proof -
  obtain boot st1 st2 st3 where L: "ParseBootstrapArgs argv (map Some (flag_list (cm_Fields msg))) = Inr boot"
    "emitApplyDefaults pf msg new_runtime = Inr st1"
    "if ConfigPath boot = [] then st2 = st1 else emitLoadConfigFile pf env jn msg (ConfigPath boot) st1 = Inr st2"
    "emitApplyEnvWith pf msg os_env st2 = Inr st3" "emitApplyBootstrap pf msg (Values boot) st3 = Inr st"
    "emitValidateRequired msg st = None"
    by (rule load_generated[OF assms(1)])
  have "cf_GoName f \<in> rt_presence st"
    using L(6) assms(3,4) by (auto simp: emitValidateRequired_def first_err_None ValidateRequired_def split: if_splits)
  moreover have "g = f" if "g \<in> set (cm_Fields msg)" "cf_GoName g = cf_GoName f" for g
    using assms(2,3) that by (auto simp: distinct_map inj_on_def)
  ultimately have "ConfigPath boot \<noteq> [] \<or> default_origin pf msg () f \<noteq> None \<or> env_origin pf msg os_env f \<noteq> None
      \<or> flag_origin pf msg (Values boot) f \<noteq> None"
    using L(3) flags.stage_presence[OF L(5)] envs.stage_presence[OF L(4)] defaults.stage_presence[OF L(2), of "()"]
    by (auto simp: new_runtime_def split: if_splits)
  then show ?thesis using L(1)
    by (intro exI[of _ boot]) (auto simp: default_origin_def env_origin_def env_text_def flag_origin_def flag_text_def split: if_splits)
qed

definition same_parse :: "'f float_ops \<Rightarrow> config_field_info \<Rightarrow> string option \<Rightarrow> string option \<Rightarrow> bool" where
  "same_parse pf f r r' \<longleftrightarrow>
     (if cf_Secret f
      then map_option (\<lambda>raw. is_ok (field_parser_fn pf f raw)) r = map_option (\<lambda>raw. is_ok (field_parser_fn pf f raw)) r'
      else r = r')"

lemma same_parse_error:
  assumes "same_parse pf f r r'" and "\<And>e e'. cf_Secret f \<Longrightarrow> h e = h e'"
  shows "found_error (map_option (\<lambda>raw. map_err h (field_parser_fn pf f raw)) r)
       = found_error (map_option (\<lambda>raw. map_err h (field_parser_fn pf f raw)) r')"
proof (cases "cf_Secret f")
  case True
  have E: "found_error (Some (map_err h x)) = (if is_ok x then None else Some (h EOF))" for x :: "goerr + 'z"
    using assms(2)[OF True, of _ EOF] by (cases x) auto
  from True assms(1) show ?thesis
    by (cases r; cases r') (auto simp: same_parse_def E)
qed (use assms(1) in \<open>simp add: same_parse_def\<close>)

text \<open>
  C36. Secrets do not leak through load errors: two environments that agree on the variables of all other fields
  and whose texts for the secret fields parse alike give the same error, and so do two sets of bootstrap flags.
\<close>

theorem secret_errors_uniform:
  assumes "\<forall>f \<in> set (cm_Fields msg). same_parse pf f (env_text env1 f) (env_text env2 f)"
    and "\<forall>f \<in> set (cm_Fields msg). same_parse pf f (flag_text boot1 f) (flag_text boot2 f)"
  shows "map_sum id (\<lambda>_. ()) (emitApplyEnvWith pf msg env1 st) = map_sum id (\<lambda>_. ()) (emitApplyEnvWith pf msg env2 st)
    \<and> map_sum id (\<lambda>_. ()) (emitApplyBootstrap pf msg (Values boot1) st') = map_sum id (\<lambda>_. ()) (emitApplyBootstrap pf msg (Values boot2) st')"
proof
  have E: "env_origin pf msg lookup f = map_option (\<lambda>raw. map_err (\<lambda>err. wrapf (field_path msg f @ '' from env '' @ cf_Env f @ '': '')
      (wrapf (''apply env '' @ cf_Env f @ '': '') (if cf_Secret f then Errorf_plain ''invalid secret value'' else err)))
      (field_parser_fn pf f raw)) (env_text lookup f)" for lookup f by (simp add: env_origin_def env_text_def)
  show "map_sum id (\<lambda>_. ()) (emitApplyEnvWith pf msg env1 st) = map_sum id (\<lambda>_. ()) (emitApplyEnvWith pf msg env2 st)"
    using assms(1) by (intro envs.stage_errors_agree) (auto simp only: E intro!: same_parse_error split: if_splits)
next
  have F: "flag_origin pf msg (Values boot) f =
      map_option (\<lambda>raw. map_err (bootstrap_error msg f) (field_parser_fn pf f raw)) (flag_text boot f)" for boot f
    by (simp add: flag_origin_def flag_text_def)
  show "map_sum id (\<lambda>_. ()) (emitApplyBootstrap pf msg (Values boot1) st') = map_sum id (\<lambda>_. ()) (emitApplyBootstrap pf msg (Values boot2) st')"
    using assms(2) by (intro flags.stage_errors_agree) (auto simp only: F bootstrap_error_def intro!: same_parse_error split: if_splits)
qed

text \<open>
  Configurations generated together load together: when the collision check of a request passes, any two or
  more of its configurations embedded in one pass the conflict check of a load.
\<close>

theorem generated_configs_compose:
  assumes "validateConfigCollisions files p = None"
  shows "detectConflicts (map (\<lambda>c. emitConfigSpec pf env jn (ci_Message c)) (request_configs files p)) = Return (Inr ())"
proof -
  let ?specs = "\<lambda>cs. map (\<lambda>c. emitConfigSpec pf env jn (ci_Message c)) cs"
  have "all_envs (?specs cs) = env_list (all_fields cs)" "all_flags (?specs cs) = map Some (flag_list (all_fields cs))" for cs
    by (induction cs) (simp_all add: all_fields_def emitConfigSpec_def env_list_def flag_list_def all_envs_def all_flags_def o_def)
  then show ?thesis
    using assms by (auto simp: detectConflicts_ok validateConfigCollisions_def collision_files_ok metadata_ok_def
        fresh_names_def distinct_map)
qed

text \<open>
  Generation does not fail after validation: when the request passes the enum check and a configuration of it
  the configuration check, and full names identify enums, the loader of the configuration is generated.
\<close>

lemma validated_config_generates:
  assumes "validateEnumCollisions files = None" and "inj_on en_FullName (request_enums files)"
    and "f \<in> set files" and "file_Generate f" and "extractConfigInfo f p = Inr (Some c)"
    and "shouldValidateConfig (Some c) p" and "validateConfigInfo pf (Some c) p = None"
    and "\<forall>m \<in> set (file_Messages f). \<forall>fld \<in> set (pm_Fields m). pf_Kind fld = EnumKind \<longrightarrow> pf_Enum fld \<noteq> None"
  shows "generateConfig pf c = None"
proof -
  have "\<not> (\<exists>e. emitFieldParser pf cf = Inl e)"
    if cf: "cf \<in> set (cm_Fields (ci_Message c))" and needs: "NeedsJSONFieldParser cf \<or> NeedsStringParser cf" for cf
  proof -
    have "field_ok pf cf" using assms(6,7) cf by (simp add: validateConfigInfo_ok)
    then have kind: "cf_Kind cf \<noteq> MessageKind" "cf_Kind cf \<noteq> GroupKind"
      using needs by (auto simp: field_ok_def isComplexConfigField_def NeedsJSONFieldParser_def)
    obtain m fld opt where fld: "m \<in> set (file_Messages f)" "fld \<in> set (pm_Fields m)" "cf = extractConfigFieldInfo fld opt"
        "\<And>en. pf_Enum fld = Some en \<Longrightarrow> en \<in> request_enums files"
      using extracted_enum[OF assms(3-5) cf] by blast
    have "is_ok (enumCLIValues (cf_EnumTypeName cf) (cf_EnumValues cf))" if "cf_Kind cf = EnumKind"
    proof -
      have "pf_Kind fld = EnumKind" using that fld(3) by (simp add: extractConfigFieldInfo_def)
      then obtain en where en: "pf_Enum fld = Some en" using assms(8) fld(1,2) by blast
      have "enum_ok en" using assms(1,2) fld(4)[OF en] by (rule validateEnumCollisions_ok)
      then show ?thesis by (simp add: fld(3) extractConfigFieldInfo_def en enum_ok_def)
    qed
    then show ?thesis using kind by (simp add: emit_fails_iff)
  qed
  then have "\<forall>cf \<in> set (cm_Fields (ci_Message c)). (if \<not> NeedsJSONFieldParser cf \<and> \<not> NeedsStringParser cf then None
      else case emitFieldParser pf cf of Inl e \<Rightarrow> Some e | Inr _ \<Rightarrow> None) = None"
    by (auto split: sum.splits)
  then show ?thesis by (simp add: generateConfig_def emitFieldParsers_def first_err_None)
qed

section \<open>Witnesses\<close>

definition host_info :: config_field_info where
  [go_eval]: "host_info = extractConfigFieldInfo host_field
     \<lparr>opt_Env = Some ''HOST'', opt_Default = Some ''localhost'', opt_Required = True, opt_Secret = False, opt_Bootstrap = True\<rparr>"

definition host_message :: config_message_info where
  [go_eval]: "host_message = \<lparr>cm_GoName = ''Cfg'', cm_Fields = [host_info]\<rparr>"

definition no_json_env :: "(unit, string \<rightharpoonup> unit config_value) json_env" where
  "no_json_env = \<lparr>ReadFile = (\<lambda>_. Inl EOF), DecodeObject = (\<lambda>_. Inl EOF), DecodeString = (\<lambda>_. None), DecodeAny = (\<lambda>_. Inl EOF),
     DecodeAnyObject = (\<lambda>_. Inl EOF), MarshalMembers = (\<lambda>_. None), MarshalObject = (\<lambda>_. Inl EOF),
     ProtoMarshal = (\<lambda>_. Inl EOF), ProtoUnmarshal = (\<lambda>_ _. Inl EOF), ProtoFields = (\<lambda>_. [])\<rparr>"

definition no_json_num :: "unit json_num" where
  "no_json_num = \<lparr>DecodeInt32 = (\<lambda>_. None), num_value = (\<lambda>_. ()), nil_value = ()\<rparr>"

lemma host_simps [simp]:
  "cf_ProtoName host_info = ''host''" "cf_GoName host_info = ''host''" "cf_Kind host_info = StringKind"
  "cf_Env host_info = ''HOST''" "cf_HasEnv host_info" "cf_Default host_info = ''localhost''" "cf_HasDefault host_info"
  "cf_Required host_info" "\<not> cf_Secret host_info" "cf_Bootstrap host_info" "FlagName host_info = ''host''"
  "cm_Fields host_message = [host_info]"
  by (simp_all add: host_info_def extractConfigFieldInfo_def host_field_def config_field_def FlagName_def
      fieldToFlagName_def replace_byte_def host_message_def)

lemma host_parser [simp]: "field_parser_fn pf host_info raw = Inr (VString raw)"
  by (simp add: field_parser_fn_def emitFieldParser_def scalarConfigParserName_def val_map_def ParseString_def)

lemma host_boot: "ParseBootstrapArgs [''--host=h''] [Some ''host''] = Inr \<lparr>ConfigPath = [], Values = [''host'' \<mapsto> ''h''], Rest = []\<rparr>"
  by (simp add: go_eval go_std Let_def)

definition loaded :: "unit runtime" where
  "loaded = assign host_info (VString ''h'') (assign host_info (VString ''localhost'') new_runtime)"

lemma host_load:
  "Load (ProviderType (emitConfigSpec no_floats no_json_env no_json_num host_message)) new_runtime (\<lambda>_. None) [''--host=h'']
     = Return (Inr (loaded, []))"
  unfolding Load_stages
  by (simp add: detectConflicts_def applyAllDefaults_def parseUnifiedBootstrap_def emitConfigSpec_def emitApplyDefaults_def
      host_boot applyConfigFile_def applyAllEnv_def emitApplyEnvWith_def ApplyEnv_def applyAllBootstrap_def emitApplyBootstrap_def
      validateAllRequired_def emitValidateRequired_def ValidateRequired_def loaded_def)

lemma emit_host: "emitFieldParser no_floats host_info = Inr (config_function no_floats ''ParseString'')"
  by (simp add: emitFieldParser_def scalarConfigParserName_def)

theorem generated_parser_validated_witness:
  "config_function no_floats ''ParseString'' ''x'' = parseConfigValueForValidation no_floats host_info ''x''"
  using emit_host by (rule generated_parser_validated)

lemma example_names: "map cf_GoName (cm_Fields (ci_Message example_config)) = [''host'', ''log_level'']"
  by code_simp

theorem validated_defaults_apply_witness:
  "\<exists>st'. emitApplyDefaults no_floats example_message new_runtime = Inr st' \<and> rt_cfg st' ''host'' = Some (VString ''localhost'')"
proof -
  have "host_info \<in> set (cm_Fields (ci_Message example_config))"
    by (simp add: example_config_def example_message_def host_info_def host_field_def)
  moreover have "parseConfigValueForValidation no_floats host_info ''localhost'' = Inr (VString ''localhost'')"
    by (simp add: parseConfigValueForValidation_def val_map_def ParseString_def)
  moreover have "ci_Message example_config = example_message" by (simp add: example_config_def)
  ultimately show ?thesis
    using validated_defaults_apply[OF example_should example_valid, of new_runtime] example_names by fastforce
qed

theorem generated_config_precedence_witness: "rt_cfg loaded ''host'' = Some (VString ''h'')"
proof -
  have "distinct (map cf_GoName (cm_Fields host_message))" "host_info \<in> set (cm_Fields host_message)" by simp_all
  from generated_config_precedence[OF host_load this] show ?thesis
    by (auto simp: flag_list_def host_boot flag_text_def text_value_def)
qed

theorem generated_config_required_witness:
  "\<exists>boot. ParseBootstrapArgs [''--host=h''] (map Some (flag_list (cm_Fields host_message))) = Inr boot
    \<and> (ConfigPath boot \<noteq> [] \<or> cf_HasDefault host_info \<or> env_text (\<lambda>_. None) host_info \<noteq> None \<or> flag_text boot host_info \<noteq> None)"
  by (rule generated_config_required[OF host_load]) simp_all

definition level_info :: config_field_info where
  [go_eval]: "level_info = extractConfigFieldInfo level_field
     \<lparr>opt_Env = Some ''LEVEL'', opt_Default = None, opt_Required = False, opt_Secret = True, opt_Bootstrap = False\<rparr>"

definition level_message :: config_message_info where
  [go_eval]: "level_message = \<lparr>cm_GoName = ''Cfg'', cm_Fields = [level_info]\<rparr>"

lemma level_parser:
  "field_parser_fn no_floats level_info raw =
     (case ParseEnum raw (config_mappings level_mappings) ''LogLevel'' of
        Inr v \<Rightarrow> Inr (VEnum v)
      | Inl err \<Rightarrow>
          (case emitted_comparisons level_values raw of
             Some n \<Rightarrow> Inr (VEnum n)
           | None \<Rightarrow> (case ParseInt raw 32 of Inr v \<Rightarrow> Inr (VEnum (word_of_int v)) | Inl _ \<Rightarrow> Inl err)))"
proof -
  have "cf_Kind level_info = EnumKind" "cf_EnumTypeName level_info = ''LogLevel''" "cf_EnumValues level_info = level_values"
    by (simp_all add: level_info_def level_field_def level_enum_def config_field_def extractConfigFieldInfo_def Let_def)
  then show ?thesis by (simp add: field_parser_fn_def emitFieldParser_def emitEnumFieldParserBody_def level_ok cong: sum.case_cong option.case_cong)
qed

lemma level_fails:
  "is_ok (field_parser_fn no_floats level_info ''hunter2'') = False"
  "is_ok (field_parser_fn no_floats level_info ''s3cret'') = False"
proof -
  have e: "is_ok (ParseEnum ''hunter2'' (config_mappings level_mappings) ''LogLevel'') = False"
    "is_ok (ParseEnum ''s3cret'' (config_mappings level_mappings) ''LogLevel'') = False" by code_simp+
  have i: "ParseInt ''hunter2'' 32 = Inl ErrSyntax" "ParseInt ''s3cret'' 32 = Inl ErrSyntax"
    by (simp_all add: go_std is_digit_def)
  show "is_ok (field_parser_fn no_floats level_info ''hunter2'') = False"
    "is_ok (field_parser_fn no_floats level_info ''s3cret'') = False"
    using e i by (auto simp: level_parser level_values_def is_ok_def split: sum.splits)
qed

theorem secret_errors_uniform_witness:
  "map_sum id (\<lambda>_. ()) (emitApplyEnvWith no_floats level_message [''LEVEL'' \<mapsto> ''hunter2''] new_runtime)
     = map_sum id (\<lambda>_. ()) (emitApplyEnvWith no_floats level_message [''LEVEL'' \<mapsto> ''s3cret''] new_runtime)"
proof -
  have l: "cm_Fields level_message = [level_info]" "cf_Secret level_info" "cf_HasEnv level_info" "cf_Env level_info = ''LEVEL''"
    "\<not> cf_Bootstrap level_info" by (simp_all add: level_message_def level_info_def extractConfigFieldInfo_def)
  show ?thesis
    using secret_errors_uniform[of level_message no_floats "[''LEVEL'' \<mapsto> ''hunter2'']" "[''LEVEL'' \<mapsto> ''s3cret'']"
        bootstrap_empty bootstrap_empty new_runtime new_runtime]
    by (simp add: l same_parse_def env_text_def flag_text_def level_fails)
qed

lemma example_no_collisions: "validateConfigCollisions [config_file] default_params = None"
  by code_simp

theorem generated_configs_compose_witness:
  "detectConflicts (map (\<lambda>c. emitConfigSpec no_floats no_json_env no_json_num (ci_Message c))
     (request_configs [config_file] default_params)) = Return (Inr ())"
  using example_no_collisions by (rule generated_configs_compose)

end
