(* ===== verification/CodegenGen.thy ===== *)
theory CodegenGen imports CodegenApp CodegenServe CodegenLoader begin

text \<open>
  \<open>internal/codegen/gen.go\<close> and the plugin's loop in \<open>cmd/protoc-gen-procframe-go/main.go\<close>: from a file of the
  request to the code generated for it. The code of a service is what the emitters of the other theories
  return; of its command line it is the tree the constructor is emitted for.
\<close>

section \<open>Inputs\<close>

record service_file = proto_file +
  file_Services :: "proto_service list"
  file_Prefix :: string

definition plain_files :: "service_file list \<Rightarrow> proto_file list" where
  [go_eval]: "plain_files files = map proto_file.truncate files"

definition extractGenerationInputs :: "service_file \<Rightarrow> params \<Rightarrow> goerr + service_info list \<times> config_info option" where
  [go_eval]: "extractGenerationInputs file p =
     (let services = map extractServiceInfo (file_Services file) in
      case extractConfigInfo (proto_file.truncate file) p of
        Inl err \<Rightarrow> Inl err
      | Inr cfgInfo \<Rightarrow> Inr (services, cfgInfo))"

definition validateGenerationInputs ::
  "'f float_ops \<Rightarrow> service_file list \<Rightarrow> service_info list \<Rightarrow> config_info option \<Rightarrow> params \<Rightarrow> goerr option" where
  [go_eval]: "validateGenerationInputs fl files services cfgInfo p =
     (case validateDuplicatePaths services of Some err \<Rightarrow> Some err
      | None \<Rightarrow> (case validateEnumCollisions (plain_files files) of Some err \<Rightarrow> Some err
      | None \<Rightarrow> (case validateBindInto services (plain_files files) of Some err \<Rightarrow> Some err
      | None \<Rightarrow> (case validateConfigInfo fl cfgInfo p of Some err \<Rightarrow> Some err
      | None \<Rightarrow> (case validateConfigCollisions (plain_files files) p of Some err \<Rightarrow> Some err
      | None \<Rightarrow> None)))))"

section \<open>Which parts a service gets\<close>

fun any_method :: "(method_info \<Rightarrow> bool) \<Rightarrow> method_info list \<Rightarrow> bool" where
  "any_method P [] = False"
| "any_method P (m # ms) = (if P m then True else any_method P ms)"

definition hasCliMethods :: "service_info \<Rightarrow> bool" where
  [go_eval]: "hasCliMethods svc = any_method m_CLI (svc_Methods svc)"

definition hasConnectMethods :: "service_info \<Rightarrow> bool" where
  [go_eval]: "hasConnectMethods svc = any_method m_Connect (svc_Methods svc)"

definition hasWsMethods :: "service_info \<Rightarrow> bool" where
  [go_eval]: "hasWsMethods svc = any_method m_Ws (svc_Methods svc)"

record service_code =
  sc_handler :: "(string \<times> go_func) list"
  sc_cli :: "tree_node option"
  sc_connect :: "(string \<times> registration list) option"
  sc_connect_client :: "connect_client option"
  sc_ws :: "registration list option"
  sc_ws_client :: "((string \<times> go_func) list \<times> ws_client_method list) option"

definition emit_if :: "bool \<Rightarrow> 'a \<Rightarrow> 'a option" where
  [go_eval]: "emit_if b x = (if b then Some x else None)"

text \<open>The loop body for a service; \<open>None\<close> is the panic of \<open>buildTree\<close>.\<close>

definition generate_service :: "proto_service \<Rightarrow> service_info \<Rightarrow> service_code option" where
  [go_eval]: "generate_service svc info =
     (case buildTree [info] of
        None \<Rightarrow> None
      | Some tree \<Rightarrow> Some
          \<lparr>sc_handler = generateHandler svc,
           sc_cli = emit_if (hasCliMethods info) tree,
           sc_connect = emit_if (hasConnectMethods info) (generateConnect svc info),
           sc_connect_client = emit_if (hasConnectMethods info) (generateConnectClient svc info),
           sc_ws = emit_if (hasWsMethods info) (generateWS svc info),
           sc_ws_client = emit_if (hasWsMethods info) (generateWSClient svc info)\<rparr>)"

fun generate_services :: "proto_service list \<Rightarrow> service_info list \<Rightarrow> service_code list option" where
  "generate_services (svc # svcs) (info # infos) =
     (case generate_service svc info of
        None \<Rightarrow> None
      | Some code \<Rightarrow> map_option (\<lambda>codes. code # codes) (generate_services svcs infos))"
| "generate_services _ _ = Some []"

section \<open>Files\<close>

record generated_file =
  gn_Filename :: string
  gn_Config :: "config_info option"
  gn_Services :: "service_code list"

datatype gen_outcome = GenPanic | GenError goerr | GenNothing | GenFile generated_file

definition Generate :: "'f float_ops \<Rightarrow> service_file list \<Rightarrow> service_file \<Rightarrow> params \<Rightarrow> gen_outcome" where
  [go_eval]: "Generate fl files file p =
     (case extractGenerationInputs file p of
        Inl err \<Rightarrow> GenError err
      | Inr (services, cfgInfo) \<Rightarrow>
          if length services = 0 \<and> cfgInfo = None then GenNothing
          else case validateGenerationInputs fl files services cfgInfo p of
            Some err \<Rightarrow> GenError err
          | None \<Rightarrow>
              (case (case cfgInfo of None \<Rightarrow> None | Some cfg \<Rightarrow> generateConfig fl cfg) of
                 Some err \<Rightarrow> GenError err
               | None \<Rightarrow>
                   (case generate_services (file_Services file) services of
                      None \<Rightarrow> GenPanic
                    | Some codes \<Rightarrow>
                        GenFile \<lparr>gn_Filename = file_Prefix file @ ''.proc.go'', gn_Config = cfgInfo, gn_Services = codes\<rparr>)))"

text \<open>The plugin's run over the files of the request: the files generated so far, and how it ended.\<close>

fun plugin_run :: "'f float_ops \<Rightarrow> service_file list \<Rightarrow> params \<Rightarrow> service_file list \<Rightarrow> generated_file list \<times> gen_outcome" where
  "plugin_run fl files p [] = ([], GenNothing)"
| "plugin_run fl files p (f # fs) =
     (if \<not> file_Generate f then plugin_run fl files p fs
      else case Generate fl files f p of
        GenFile g \<Rightarrow> (case plugin_run fl files p fs of (gs, e) \<Rightarrow> (g # gs, e))
      | GenNothing \<Rightarrow> plugin_run fl files p fs
      | failed \<Rightarrow> ([], failed))"

section \<open>Lemmas\<close>

lemma any_method_iff: "any_method P ms \<longleftrightarrow> (\<exists>m \<in> set ms. P m)"
  by (induction ms) auto

definition no_path_prefix :: "proto_service \<Rightarrow> bool" where
  [go_eval]: "no_path_prefix svc \<longleftrightarrow>
     list_all (\<lambda>p. list_all (\<lambda>q. \<not> strict_prefix p q) (cli_paths [extractServiceInfo svc])) (cli_paths [extractServiceInfo svc])"

lemma cli_paths_nil [simp]: "cli_paths [] = []"
  by (simp add: cli_paths_def cli_leaves_def)

lemma duplicate_check_each:
  assumes "validateDuplicatePaths svcs = None" and "svc \<in> set svcs"
  shows "validateDuplicatePaths [svc] = None"
proof -
  have "distinct (map (\<lambda>p. join p '' '') (cli_paths svcs)) \<Longrightarrow> svc \<in> set svcs \<Longrightarrow> distinct (map (\<lambda>p. join p '' '') (cli_paths [svc]))" for svcs
  proof (induction svcs)
    case (Cons a svcs)
    then show ?case by (auto simp: cli_paths_keys simp del: map_map)
  qed simp
  with assms show ?thesis by (simp only: validateDuplicatePaths_def dup_services_ok) simp
qed

text \<open>What a service's code must be: its parts, and the tree that holds exactly its commands.\<close>

definition code_of :: "proto_service \<Rightarrow> service_code \<Rightarrow> bool" where
  "code_of svc code \<longleftrightarrow>
     (let info = extractServiceInfo svc in
      sc_handler code = generateHandler svc
      \<and> (case sc_cli code of
           None \<Rightarrow> cli_paths [info] = []
         | Some tree \<Rightarrow> \<forall>path. leaf_at tree path = map_of (cli_leaves [info]) path)
      \<and> sc_connect code = emit_if (connect_methods svc \<noteq> []) (generateConnect svc info)
      \<and> sc_connect_client code = emit_if (connect_methods svc \<noteq> []) (generateConnectClient svc info)
      \<and> sc_ws code = emit_if (ws_methods svc \<noteq> []) (generateWS svc info)
      \<and> sc_ws_client code = emit_if (ws_methods svc \<noteq> []) (generateWSClient svc info))"

lemma generate_service_code:
  assumes "validateDuplicatePaths [extractServiceInfo svc] = None" and "no_path_prefix svc"
  shows "\<exists>code. generate_service svc (extractServiceInfo svc) = Some code \<and> code_of svc code"
proof -
  let ?info = "extractServiceInfo svc"
  have pre: "\<forall>p \<in> set (cli_paths [?info]). \<forall>q \<in> set (cli_paths [?info]). \<not> strict_prefix p q"
    using assms(2) by (simp add: no_path_prefix_def list_all_iff)
  obtain n where n: "insert_services [?info] (TreeNode [] [] False [] (Some []) None) = Some n" "holds_leaves n (cli_leaves [?info])"
    using buildTree_holds(1)[OF assms(1) pre] by blast
  then have t: "buildTree [?info] = Some (pruneDeadGroups n)" "\<forall>path. leaf_at (pruneDeadGroups n) path = map_of (cli_leaves [?info]) path"
    using pruned_ok[of n] by (simp_all add: buildTree_def holds_leaves_def pruned_ok_def)
  have parts: "hasCliMethods ?info \<longleftrightarrow> cli_paths [?info] \<noteq> []" "hasConnectMethods ?info \<longleftrightarrow> connect_methods svc \<noteq> []"
      "hasWsMethods ?info \<longleftrightarrow> ws_methods svc \<noteq> []"
    by (auto simp: hasCliMethods_def hasConnectMethods_def hasWsMethods_def any_method_iff cli_paths_def cli_leaves_def service_leaves_def
        cli_methods_def connect_methods_def ws_methods_def filter_empty_conv)
  show ?thesis using t by (auto simp: generate_service_def code_of_def Let_def parts emit_if_def)
qed

lemma generate_services_code:
  assumes "\<forall>svc \<in> set svcs. validateDuplicatePaths [extractServiceInfo svc] = None \<and> no_path_prefix svc"
  shows "\<exists>codes. generate_services svcs (map extractServiceInfo svcs) = Some codes \<and> list_all2 code_of svcs codes"
  using assms
proof (induction svcs)
  case (Cons svc svcs)
  with generate_service_code[of svc] show ?case by fastforce
qed simp

lemma candidates_have_fields: "m \<in> set (collectConfigCandidates ms) \<Longrightarrow> cm_Fields m \<noteq> []"
  by (induction ms) (auto simp: extractConfigMessageInfo_def Let_def split: option.splits if_splits)

lemma extracted_validates: "extractConfigInfo f p = Inr (Some c) \<Longrightarrow> shouldValidateConfig (Some c) p"
  using candidates_have_fields[of _ "file_Messages f"]
  by (auto simp: extractConfigInfo_def shouldValidateConfig_def split: if_splits list.splits)

text \<open>What a file contributes to a run, and the outcomes that end it.\<close>

definition generates :: "'f float_ops \<Rightarrow> service_file list \<Rightarrow> params \<Rightarrow> service_file \<Rightarrow> generated_file list" where
  [go_eval]: "generates fl files p f = (case Generate fl files f p of GenFile g \<Rightarrow> [g] | _ \<Rightarrow> [])"

definition failing :: "gen_outcome \<Rightarrow> bool" where
  [go_eval]: "failing r \<longleftrightarrow> (case r of GenPanic \<Rightarrow> True | GenError e \<Rightarrow> True | _ \<Rightarrow> False)"

section \<open>Properties\<close>


text \<open>
  A run of the plugin stops at the first failure: it generates, in order, the files of those to generate up to
  the first whose generation fails, and ends with that failure, or generates them all.
\<close>

theorem plugin_run_first_failure:
  "\<exists>done left. filter file_Generate fs = done @ left \<and> fst (plugin_run fl files p fs) = concat (map (generates fl files p) done)
     \<and> (\<forall>f \<in> set done. \<not> failing (Generate fl files f p))
     \<and> (case left of
          [] \<Rightarrow> snd (plugin_run fl files p fs) = GenNothing
        | f # _ \<Rightarrow> failing (Generate fl files f p) \<and> snd (plugin_run fl files p fs) = Generate fl files f p)"
proof (induction fs)
  case (Cons f fs)
  then obtain ok left where IH: "filter file_Generate fs = ok @ left"
    "fst (plugin_run fl files p fs) = concat (map (generates fl files p) ok)" "\<forall>f \<in> set ok. \<not> failing (Generate fl files f p)"
    "case left of [] \<Rightarrow> snd (plugin_run fl files p fs) = GenNothing
     | f # _ \<Rightarrow> failing (Generate fl files f p) \<and> snd (plugin_run fl files p fs) = Generate fl files f p" by blast
  show ?case
  proof (cases "file_Generate f \<and> failing (Generate fl files f p)")
    case True
    then have "plugin_run fl files p (f # fs) = ([], Generate fl files f p)"
      by (cases "Generate fl files f p") (simp_all add: failing_def)
    with True show ?thesis by - (rule exI[of _ "[]"], rule exI[of _ "f # filter file_Generate fs"], simp)
  next
    case False
    let ?new = "if file_Generate f then [f] else []"
    from False have "plugin_run fl files p (f # fs)
        = (concat (map (generates fl files p) ?new) @ fst (plugin_run fl files p fs), snd (plugin_run fl files p fs))"
      by (cases "Generate fl files f p") (simp_all add: failing_def generates_def case_prod_beta)
    with IH False show ?thesis 
      by - (rule exI[of _ "?new @ ok"], rule exI[of _ left], auto simp del: plugin_run.simps split: list.splits)
  qed
qed simp

section \<open>Witnesses\<close>

definition repo_file :: service_file where
  [go_eval]: "repo_file = \<lparr>file_Path = ''p/config.proto'', file_Generate = True,
     file_Messages = [\<lparr>pm_GoName = ''Cfg'', pm_Fields = [host_field]\<rparr>], file_Services = [repo_service, net_service],
     file_Prefix = ''p/config''\<rparr>"


end
