(* ===== verification/CodegenFormat.thy ===== *)
theory CodegenFormat imports CodegenLoader CodegenRun begin

text \<open>
  The formatter of a generated configuration, from \<open>internal/codegen/config.go\<close>, and the Go types of its fields. A
  configuration is a message: its fields by Go name, those never set absent. The emitted masking is data, the
  expression assigned to each secret field; the emitted \<open>Format\<close> is what it hands to \<open>fmt.Fprintf\<close>. Field types
  are those of fields without presence, as elsewhere in the development.
\<close>

section \<open>Types and literals\<close>

definition configFieldGoType :: "config_field_info \<Rightarrow> string" where
  [go_eval]: "configFieldGoType field =
     (case cf_Kind field of
        BoolKind \<Rightarrow> ''bool''
      | Int32Kind \<Rightarrow> ''int32'' | Sint32Kind \<Rightarrow> ''int32'' | Sfixed32Kind \<Rightarrow> ''int32''
      | Int64Kind \<Rightarrow> ''int64'' | Sint64Kind \<Rightarrow> ''int64'' | Sfixed64Kind \<Rightarrow> ''int64''
      | Uint32Kind \<Rightarrow> ''uint32'' | Fixed32Kind \<Rightarrow> ''uint32''
      | Uint64Kind \<Rightarrow> ''uint64'' | Fixed64Kind \<Rightarrow> ''uint64''
      | FloatKind \<Rightarrow> ''float32'' | DoubleKind \<Rightarrow> ''float64''
      | StringKind \<Rightarrow> ''string'' | BytesKind \<Rightarrow> ''[]byte''
      | EnumKind \<Rightarrow> cf_EnumGoIdent field
      | MessageKind \<Rightarrow> ''any'' | GroupKind \<Rightarrow> ''any'')"

definition zeroLiteralForKind :: "config_field_info \<Rightarrow> string" where
  [go_eval]: "zeroLiteralForKind field =
     (case cf_Kind field of
        BoolKind \<Rightarrow> ''false''
      | Int32Kind \<Rightarrow> ''int32(0)'' | Sint32Kind \<Rightarrow> ''int32(0)'' | Sfixed32Kind \<Rightarrow> ''int32(0)''
      | Int64Kind \<Rightarrow> ''int64(0)'' | Sint64Kind \<Rightarrow> ''int64(0)'' | Sfixed64Kind \<Rightarrow> ''int64(0)''
      | Uint32Kind \<Rightarrow> ''uint32(0)'' | Fixed32Kind \<Rightarrow> ''uint32(0)''
      | Uint64Kind \<Rightarrow> ''uint64(0)'' | Fixed64Kind \<Rightarrow> ''uint64(0)''
      | FloatKind \<Rightarrow> ''float32(0)'' | DoubleKind \<Rightarrow> ''float64(0)''
      | StringKind \<Rightarrow> empty_literal | BytesKind \<Rightarrow> ''nil''
      | EnumKind \<Rightarrow> ''0''
      | MessageKind \<Rightarrow> ''nil'' | GroupKind \<Rightarrow> ''nil'')"

text \<open>The replacement given to \<open>RedactIfSet\<close>: the placeholder, a literal, or the zero of an enum type.\<close>

datatype replacement = Placeholder | Literal string | EnumZero string

datatype redact_expr = CallRedactIfSet replacement | CallRedactBytes | NilExpr

definition redactedValueExpr :: "config_field_info \<Rightarrow> redact_expr" where
  [go_eval]: "redactedValueExpr field =
     (case cf_Kind field of
        StringKind \<Rightarrow> CallRedactIfSet Placeholder
      | BytesKind \<Rightarrow> CallRedactBytes
      | BoolKind \<Rightarrow> CallRedactIfSet (Literal ''false'')
      | EnumKind \<Rightarrow> CallRedactIfSet (EnumZero (cf_EnumGoIdent field))
      | MessageKind \<Rightarrow> NilExpr | GroupKind \<Rightarrow> NilExpr
      | _ \<Rightarrow> CallRedactIfSet (Literal (zeroLiteralForKind field)))"

definition emitFormatterMasking :: "config_message_info \<Rightarrow> (string \<times> redact_expr) list" where
  [go_eval]: "emitFormatterMasking msg = map (\<lambda>field. (cf_GoName field, redactedValueExpr field)) (filter cf_Secret (cm_Fields msg))"

definition unexportedTypeName :: "string \<Rightarrow> string" where
  [go_eval]: "unexportedTypeName name =
     (case name of
        [] \<Rightarrow> ''formatView''
      | c # cs \<Rightarrow> (if CHR ''A'' \<le> c \<and> c \<le> CHR ''Z'' then char_of (of_char c + 32 :: nat) else c) # cs)"

section \<open>What the masking does\<close>

text \<open>
  Literals by their text. \<open>feq\<close> is Go's comparison of floats, which is not equality of the values; the other
  types compare by their values.
\<close>

definition literal_value :: "'f float_ops \<Rightarrow> string \<Rightarrow> 'f flag_val option" where
  [go_eval]: "literal_value fl lit = map_of
     [(''false'', FBool False), (''int32(0)'', FInt32 0), (''int64(0)'', FInt64 0), (''uint32(0)'', FUint32 0),
      (''uint64(0)'', FUint64 0), (''float32(0)'', FFloat32 (fl_zero fl)), (''float64(0)'', FFloat64 (fl_zero fl))] lit"

fun replacement_value :: "'f float_ops \<Rightarrow> replacement \<Rightarrow> 'f go_value option" where
  "replacement_value fl Placeholder = Some (GVar (FString RedactedPlaceholder))"
| "replacement_value fl (Literal lit) = map_option GVar (literal_value fl lit)"
| "replacement_value fl (EnumZero ty) = Some (GEnum ty 0)"

fun go_same :: "('f \<Rightarrow> 'f \<Rightarrow> bool) \<Rightarrow> 'f go_value \<Rightarrow> 'f go_value \<Rightarrow> bool" where
  "go_same feq (GVar (FFloat32 a)) (GVar (FFloat32 b)) = feq a b"
| "go_same feq (GVar (FFloat64 a)) (GVar (FFloat64 b)) = feq a b"
| "go_same feq v w = (v = w)"

text \<open>The zero value of the type of a replacement.\<close>

fun zero_like :: "'f float_ops \<Rightarrow> 'f go_value \<Rightarrow> 'f go_value" where
  "zero_like fl (GVar v) = (case zero_of fl (type_of v) of Some z \<Rightarrow> GVar z | None \<Rightarrow> GVar v)"
| "zero_like fl (GEnum ty n) = GEnum ty 0"
| "zero_like fl v = v"

text \<open>An assignment of an expression to the field it is about; a field that was never set holds its zero value.\<close>

fun masked_value :: "'f float_ops \<Rightarrow> ('f \<Rightarrow> 'f \<Rightarrow> bool) \<Rightarrow> redact_expr \<Rightarrow> 'f go_value option \<Rightarrow> 'f go_value option" where
  "masked_value fl feq (CallRedactIfSet r) v =
     (case (v, replacement_value fl r) of
        (Some x, Some repl) \<Rightarrow> Some (RedactIfSet (go_same feq) (zero_like fl repl) x repl)
      | _ \<Rightarrow> None)"
| "masked_value fl feq CallRedactBytes v = (case v of Some (GBytes b) \<Rightarrow> Some (GBytes (RedactBytes b)) | _ \<Rightarrow> None)"
| "masked_value fl feq NilExpr v = None"

definition mask_secrets :: "'f float_ops \<Rightarrow> ('f \<Rightarrow> 'f \<Rightarrow> bool) \<Rightarrow> config_message_info \<Rightarrow> 'f message \<Rightarrow> 'f message" where
  [go_eval]: "mask_secrets fl feq msg x = fold (\<lambda>(name, e) m. m(name := masked_value fl feq e (m name))) (emitFormatterMasking msg) x"

section \<open>Formatting\<close>

definition emitResolveMaskedFormatVerb :: "nat \<Rightarrow> nat" where
  [go_eval]: "emitResolveMaskedFormatVerb verb =
     (if verb \<in> {of_char CHR ''q'', of_char CHR ''x'', of_char CHR ''X'', of_char CHR ''s''} then verb else of_char CHR ''s'')"

text \<open>\<open>plusFlag\<close> is the state's plus flag; \<open>sprint\<close> prints the fields of a message under a type without methods.\<close>

definition emitFormatMaskedHelper :: "'f proto_ops \<Rightarrow> (string \<Rightarrow> 'f message \<Rightarrow> string) \<Rightarrow> string \<Rightarrow> 'f message \<Rightarrow> bool \<Rightarrow> string" where
  [go_eval]: "emitFormatMaskedHelper ops sprint formatViewType masked plusFlag =
     (let compact = (case po_Marshal ops False masked of Inr b \<Rightarrow> b | Inl _ \<Rightarrow> sprint formatViewType masked) in
      if plusFlag then (case po_Marshal ops True masked of Inr b \<Rightarrow> b | Inl _ \<Rightarrow> compact) else compact)"

datatype formatted = Plain string | WithVerb nat string

definition emitFormatter ::
  "'f float_ops \<Rightarrow> ('f \<Rightarrow> 'f \<Rightarrow> bool) \<Rightarrow> 'f proto_ops \<Rightarrow> (string \<Rightarrow> 'f message \<Rightarrow> string) \<Rightarrow> config_message_info
   \<Rightarrow> 'f message option \<Rightarrow> bool \<Rightarrow> nat \<Rightarrow> formatted" where
  [go_eval]: "emitFormatter fl feq ops sprint msg x plusFlag verb =
     (case x of
        None \<Rightarrow> Plain ''<nil>''
      | Some cfg \<Rightarrow>
          WithVerb (emitResolveMaskedFormatVerb verb)
            (emitFormatMaskedHelper ops sprint (unexportedTypeName (cm_GoName msg @ ''FormatView'')) (mask_secrets fl feq msg cfg) plusFlag))"

section \<open>Types of what is emitted\<close>

fun value_type :: "config_field_info \<Rightarrow> 'f config_value \<Rightarrow> string" where
  "value_type field (VBool _) = ''bool''" | "value_type field (VInt32 _) = ''int32''" | "value_type field (VInt64 _) = ''int64''"
| "value_type field (VUint32 _) = ''uint32''" | "value_type field (VUint64 _) = ''uint64''"
| "value_type field (VFloat32 _) = ''float32''" | "value_type field (VFloat64 _) = ''float64''"
| "value_type field (VString _) = ''string''" | "value_type field (VBytes _) = ''[]byte''"
| "value_type field (VEnum _) = cf_EnumGoIdent field"

fun go_value_type :: "'f go_value \<Rightarrow> string" where
  "go_value_type (GVar v) = type_of v" | "go_value_type (GEnum ty n) = ty" | "go_value_type (GEnums ty ns) = ''[]'' @ ty"
| "go_value_type (GBytes b) = ''[]byte''" | "go_value_type (GMsg ty m) = ''*'' @ ty"

fun redact_type :: "redact_expr \<Rightarrow> string option" where
  "redact_type (CallRedactIfSet r) = map_option go_value_type (replacement_value no_floats r)"
| "redact_type CallRedactBytes = Some ''[]byte''"
| "redact_type NilExpr = None"

text \<open>Kinds of values the generated functions parse and redact.\<close>

definition scalar_kind :: "kind \<Rightarrow> bool" where
  [go_eval]: "scalar_kind k \<longleftrightarrow> k \<noteq> MessageKind \<and> k \<noteq> GroupKind"

lemmas literal_defs = literal_value_def zero_of_def zero_values_def configFieldGoType_def redactedValueExpr_def zeroLiteralForKind_def

lemma parser_type: "field_parser_fn pf field raw = Inr v \<Longrightarrow> value_type field v = configFieldGoType field"
  by (auto simp: field_parser_fn_def emitFieldParser_def emitEnumFieldParserBody_def scalarConfigParserName_def config_function_def
      configFieldGoType_def val_map_def split: kind.splits sum.splits option.splits if_splits)

lemma redacted_type: "scalar_kind (cf_Kind field) \<Longrightarrow> redact_type (redactedValueExpr field) = Some (configFieldGoType field)"
  by (cases "cf_Kind field") (simp_all add: scalar_kind_def literal_defs)

section \<open>What formatting shows\<close>

text \<open>
  A secret field is set when its value is not the zero value of its type; a message field says nothing at all.
\<close>

definition secret_set :: "'f float_ops \<Rightarrow> ('f \<Rightarrow> 'f \<Rightarrow> bool) \<Rightarrow> config_field_info \<Rightarrow> 'f go_value option \<Rightarrow> bool" where
  "secret_set fl feq field v =
     (case v of
        None \<Rightarrow> False
      | Some x \<Rightarrow>
          if cf_Kind field = BytesKind then \<exists>b. x = GBytes b \<and> b \<noteq> []
          else if cf_Kind field = EnumKind then x \<noteq> GEnum (configFieldGoType field) 0
          else case zero_of fl (configFieldGoType field) of Some z \<Rightarrow> \<not> go_same feq x (GVar z) | None \<Rightarrow> False)"

definition secret_alike ::
  "'f float_ops \<Rightarrow> ('f \<Rightarrow> 'f \<Rightarrow> bool) \<Rightarrow> config_field_info \<Rightarrow> 'f go_value option \<Rightarrow> 'f go_value option \<Rightarrow> bool" where
  "secret_alike fl feq field v w \<longleftrightarrow>
     \<not> scalar_kind (cf_Kind field) \<or> v = w \<or> secret_set fl feq field v \<and> secret_set fl feq field w"

lemma go_same_enum [simp]: "go_same feq x (GEnum ty n) \<longleftrightarrow> x = GEnum ty n"
  by (cases x) auto

lemma masked_alike:
  assumes "secret_alike fl feq field v w"
  shows "masked_value fl feq (redactedValueExpr field) v = masked_value fl feq (redactedValueExpr field) w"
proof (cases "v = w")
  case False
  with assms consider "\<not> scalar_kind (cf_Kind field)" | "secret_set fl feq field v" "secret_set fl feq field w"
    by (auto simp: secret_alike_def)
  then show ?thesis
  proof cases
    case 1
    then show ?thesis by (auto simp: scalar_kind_def redactedValueExpr_def)
  next
    case 2
    then show ?thesis
      by (cases "cf_Kind field"; cases v; cases w)
        (auto simp: secret_set_def literal_defs RedactIfSet_def RedactBytes_def)
  qed
qed simp

lemma masked_others:
  "name \<notin> fst ` set es \<Longrightarrow> fold (\<lambda>(name, e) m. m(name := masked_value fl feq e (m name))) es x name = x name"
  by (induction es arbitrary: x) (auto simp: split_beta)

lemma mask_secrets_others:
  assumes "\<forall>f \<in> set (cm_Fields msg). cf_Secret f \<longrightarrow> cf_GoName f \<noteq> name"
  shows "mask_secrets fl feq msg x name = x name"
  unfolding mask_secrets_def by (rule masked_others) (use assms in \<open>auto simp: emitFormatterMasking_def\<close>)

lemma masked_same:
  assumes "\<forall>f \<in> set fs. secret_alike fl feq f (x (cf_GoName f)) (y (cf_GoName f))"
    and "\<forall>name. name \<notin> cf_GoName ` set fs \<longrightarrow> x name = y name"
  shows "fold (\<lambda>(name, e) m. m(name := masked_value fl feq e (m name))) (map (\<lambda>f. (cf_GoName f, redactedValueExpr f)) fs) x
    = fold (\<lambda>(name, e) m. m(name := masked_value fl feq e (m name))) (map (\<lambda>f. (cf_GoName f, redactedValueExpr f)) fs) y"
  using assms
proof (induction fs arbitrary: x y)
  case (Cons f fs)
  let ?step = "\<lambda>m. m(cf_GoName f := masked_value fl feq (redactedValueExpr f) (m (cf_GoName f)))"
  have eq: "?step x (cf_GoName f) = ?step y (cf_GoName f)" using Cons.prems(1) masked_alike by fastforce
  have "\<forall>g \<in> set fs. secret_alike fl feq g (?step x (cf_GoName g)) (?step y (cf_GoName g))"
    using Cons.prems(1) eq by (auto simp: secret_alike_def)
  moreover have "\<forall>name. name \<notin> cf_GoName ` set fs \<longrightarrow> ?step x name = ?step y name"
    using Cons.prems(2) eq by auto
  ultimately have "fold (\<lambda>(name, e) m. m(name := masked_value fl feq e (m name))) (map (\<lambda>f. (cf_GoName f, redactedValueExpr f)) fs) (?step x)
      = fold (\<lambda>(name, e) m. m(name := masked_value fl feq e (m name))) (map (\<lambda>f. (cf_GoName f, redactedValueExpr f)) fs) (?step y)"
    by (rule Cons.IH)
  then show ?case by (simp only: list.map fold_Cons o_apply prod.case)
qed (simp add: fun_eq_iff)

section \<open>Properties\<close>

text \<open>
  C20. Formatting hides secrets: two configurations that differ only in secret fields, each set in both, are formatted
  alike under every flag and verb, whether the encoder succeeds or not; the other fields are shown as they are.
\<close>

theorem config_format_hides_secrets:
  assumes "\<forall>f \<in> set (cm_Fields msg). cf_Secret f \<longrightarrow> secret_alike fl feq f (x (cf_GoName f)) (y (cf_GoName f))"
    and "\<forall>name. (\<forall>f \<in> set (cm_Fields msg). cf_Secret f \<longrightarrow> cf_GoName f \<noteq> name) \<longrightarrow> x name = y name"
  shows "emitFormatter fl feq ops sprint msg (Some x) plusFlag verb = emitFormatter fl feq ops sprint msg (Some y) plusFlag verb
    \<and> (\<forall>name. (\<forall>f \<in> set (cm_Fields msg). cf_Secret f \<longrightarrow> cf_GoName f \<noteq> name) \<longrightarrow> mask_secrets fl feq msg x name = x name)"
proof -
  have "mask_secrets fl feq msg x = mask_secrets fl feq msg y"
    unfolding mask_secrets_def emitFormatterMasking_def
  proof (rule masked_same)
    show "\<forall>name. name \<notin> cf_GoName ` set (filter cf_Secret (cm_Fields msg)) \<longrightarrow> x name = y name"
      by (intro allI impI, rule assms(2)[rule_format]) auto
  qed (use assms(1) in auto)
  then show ?thesis using mask_secrets_others[of msg _ fl feq x] by (simp add: emitFormatter_def)
qed

text \<open>
  The code emitted for a scalar field is well typed: what its parser returns and what redacts it have the Go type
  of the field.
\<close>

theorem emitted_config_typed:
  assumes "scalar_kind (cf_Kind field)"
  shows "redact_type (redactedValueExpr field) = Some (configFieldGoType field)
    \<and> (case field_parser_fn pf field raw of Inl _ \<Rightarrow> True | Inr v \<Rightarrow> value_type field v = configFieldGoType field)"
  using redacted_type[OF assms] parser_type[of pf field raw] by (auto split: sum.splits)

section \<open>Witnesses\<close>

definition token_info :: config_field_info where
  [go_eval]: "token_info = extractConfigFieldInfo ((config_field ''token'' StringKind)\<lparr>pf_GoName := ''Token''\<rparr>)
     \<lparr>opt_Env = Some ''TOKEN'', opt_Default = None, opt_Required = False, opt_Secret = True, opt_Bootstrap = False\<rparr>"

definition token_message :: config_message_info where
  [go_eval]: "token_message = \<lparr>cm_GoName = ''Cfg'', cm_Fields = [host_info, token_info]\<rparr>"

definition with_token :: "string \<Rightarrow> unit message" where
  [go_eval]: "with_token t = [''host'' \<mapsto> GVar (FString ''h''), ''Token'' \<mapsto> GVar (FString t)]"

lemma token_simps [simp]:
  "cf_Secret token_info" "cf_GoName token_info = ''Token''" "cf_Kind token_info = StringKind" "\<not> cf_Secret host_info"
  by (simp_all add: token_info_def extractConfigFieldInfo_def config_field_def host_info_def)

text \<open>An encoder that shows the token.\<close>

definition token_ops :: "unit proto_ops" where
  [go_eval]: "token_ops = text_ops\<lparr>po_Marshal := (\<lambda>multiline m. Inr (case m ''Token'' of Some (GVar (FString s)) \<Rightarrow> s | _ \<Rightarrow> []))\<rparr>"

theorem config_format_hides_secrets_witness:
  "emitFormatter no_floats (=) token_ops (\<lambda>ty m. []) token_message (Some (with_token ''s3cret'')) True 118
     = emitFormatter no_floats (=) token_ops (\<lambda>ty m. []) token_message (Some (with_token ''other'')) True 118
   \<and> emitFormatter no_floats (=) token_ops (\<lambda>ty m. []) token_message (Some (with_token ''other'')) True 118
     = WithVerb 115 ''[REDACTED]''"
proof
  have "secret_alike no_floats (=) token_info (with_token ''s3cret'' ''Token'') (with_token ''other'' ''Token'')"
    by (simp add: secret_alike_def secret_set_def with_token_def literal_defs)
  then show "emitFormatter no_floats (=) token_ops (\<lambda>ty m. []) token_message (Some (with_token ''s3cret'')) True 118
     = emitFormatter no_floats (=) token_ops (\<lambda>ty m. []) token_message (Some (with_token ''other'')) True 118"
    by (intro config_format_hides_secrets[THEN conjunct1]) (auto simp: token_message_def with_token_def)
  show "emitFormatter no_floats (=) token_ops (\<lambda>ty m. []) token_message (Some (with_token ''other'')) True 118
     = WithVerb 115 ''[REDACTED]''"
    by (simp add: emitFormatter_def emitFormatMaskedHelper_def emitResolveMaskedFormatVerb_def mask_secrets_def emitFormatterMasking_def
        token_message_def token_ops_def with_token_def redactedValueExpr_def RedactIfSet_def RedactedPlaceholder_def zero_of_def
        zero_values_def Let_def)
qed

theorem emitted_config_typed_witness: "redact_type (redactedValueExpr token_info) = Some (configFieldGoType token_info)"
  by (rule emitted_config_typed[THEN conjunct1]) (simp add: scalar_kind_def)

end
