(* ===== verification/KvExample.thy ===== *)
theory KvExample imports CodegenApp CodegenServe begin

text \<open>
  The example program: \<open>examples/kv/main.go\<close> and the generated code it runs on, \<open>examples/gen/kv/v1/kv.proc.go\<close>. The
  generated file is translated by hand, with the variable of a flag as the state its flag set parses into, and
  compared with what the generator of this repository emits for the service of \<open>examples/proto/kv/v1/kv.proto\<close>,
  whose descriptor is written down below. A Go map of children or commands is an association list in which
  order has no meaning.
\<close>

section \<open>The handler interface\<close>

definition KVServiceHandler :: "(string \<times> go_func) list" where
  [go_eval]: "KVServiceHandler =
     [(''Get'', \<lparr>fn_params = [context_type, Pointer (Instance ''procframe.Request'' [Named ''GetRequest''])],
        fn_results = [Pointer (Instance ''procframe.Response'' [Named ''GetResponse'']), error_type]\<rparr>),
      (''List'', \<lparr>fn_params = [context_type, Pointer (Instance ''procframe.Request'' [Named ''ListRequest'']),
          Instance ''procframe.ServerStream'' [Named ''Entry'']],
        fn_results = [error_type]\<rparr>)]"

section \<open>The schema tables\<close>

definition string_field :: "string \<Rightarrow> schema_field" where
  [go_eval]: "string_field name =
     \<lparr>sf_Name = name, sf_Type = ''string'', sf_Description = [], sf_Repeated = False, sf_Map = False, sf_EnumValues = []\<rparr>"

definition get_info :: command_info where
  [go_eval]: "get_info =
     \<lparr>cmd_Command = ''kv get'', cmd_Summary = ''Get a value by key'', cmd_Procedure = ''/kv.v1.KVService/Get'',
      cmd_Flags = [string_field ''key''], cmd_Output = [string_field ''key'', string_field ''value''], cmd_Streaming = False\<rparr>"

definition list_info :: command_info where
  [go_eval]: "list_info =
     \<lparr>cmd_Command = ''kv list'', cmd_Summary = ''List entries by prefix'', cmd_Procedure = ''/kv.v1.KVService/List'',
      cmd_Flags = [string_field ''prefix''], cmd_Output = [string_field ''key'', string_field ''value''], cmd_Streaming = True\<rparr>"

definition schemaDataKVServiceByCommand :: "string \<rightharpoonup> command_info" where
  "schemaDataKVServiceByCommand = map_of [(''kv get'', get_info), (''kv list'', list_info)]"

definition schemaDataKVServiceByProcedure :: "string \<rightharpoonup> command_info" where
  "schemaDataKVServiceByProcedure = map_of [(''/kv.v1.KVService/Get'', get_info), (''/kv.v1.KVService/List'', list_info)]"

definition schemaDataKVServiceAll :: "command_info list" where
  "schemaDataKVServiceAll = [get_info, list_info]"

section \<open>The commands\<close>

text \<open>\<open>fs.StringVar(&x, name, "", "")\<close>, the state being \<open>x\<close>.\<close>

definition string_var :: "string \<Rightarrow> string flag_def" where
  [go_eval]: "string_var name = \<lparr>fName = name, fUsage = [], fDefValue = [], fIsBool = False, fSet = (\<lambda>s x. (None, s))\<rparr>"

definition get_request :: "'f proto_ops \<Rightarrow> 'i run_context \<Rightarrow> string list \<Rightarrow> goerr + 'f message" where
  [go_eval]: "get_request ops ctx args =
     (case JSONPayloadFromContext ctx of
        Some payload \<Rightarrow>
          if length args > 0 then Inl (NewError CodeInvalidArgument ''--json cannot be combined with flags'')
          else po_Unmarshal ops False ''GetRequest'' payload
      | None \<Rightarrow>
          (case FlagSet_Parse [string_var ''key''] args [] of
             (Inl err, flag_key) \<Rightarrow> Inl err
           | (Inr rest, flag_key) \<Rightarrow> Inr [''Key'' \<mapsto> GVar (FString flag_key)]))"

text \<open>Encoding and printing a message, on one line for JSON output.\<close>

definition print_message :: "'f proto_ops \<Rightarrow> 'i run_context \<Rightarrow> 'f message \<Rightarrow> ('f, 'u) cli_world \<Rightarrow> goerr option \<times> ('f, 'u) cli_world" where
  [go_eval]: "print_message ops ctx m w =
     (case (if OutputFormatFromContext ctx = OutputJSON then po_Marshal ops False m else po_Marshal ops True m) of
        Inl err \<Rightarrow> (Some err, w)
      | Inr out \<Rightarrow> (None, w\<lparr>cw_stdout := cw_stdout w @ out @ newline\<rparr>))"

definition get_run :: "('i, 'f, 'u) gen_env \<Rightarrow> 'i run_context \<Rightarrow> string list \<Rightarrow> ('f, 'u) cli_world \<Rightarrow> goerr option \<times> ('f, 'u) cli_world" where
  [go_eval]: "get_run E ctx args w =
     (case get_request (ge_proto E) ctx args of
        Inl err \<Rightarrow> (Some err, w)
      | Inr req \<Rightarrow>
          (case InvokeUnary ''GetRequest'' ''GetResponse'' ctx
                  \<lparr>cs_Procedure = ''/kv.v1.KVService/Get'', cs_Transport = TransportCLI, cs_Shape = CallShapeUnary\<rparr>
                  (Some \<lparr>req_Msg = Some req, req_Meta = meta_zero\<lparr>meta_Procedure := ''/kv.v1.KVService/Get''\<rparr>\<rparr>)
                  (h_Unary (ge_handler E) ''Get'') (map (ge_deref E) (InterceptorsFromContext ctx)) w of
             (Inl err, w') \<Rightarrow> (Some err, w')
           | (Inr resp, w') \<Rightarrow>
               (case Option.bind resp resp_Msg of
                  None \<Rightarrow> (Some (NewError CodeInternal ''handler returned nil response''), w')
                | Some m \<Rightarrow> print_message (ge_proto E) ctx m w')))"

definition list_request_of :: "'f proto_ops \<Rightarrow> 'i run_context \<Rightarrow> string list \<Rightarrow> goerr + 'f message" where
  [go_eval]: "list_request_of ops ctx args =
     (case JSONPayloadFromContext ctx of
        Some payload \<Rightarrow>
          if length args > 0 then Inl (NewError CodeInvalidArgument ''--json cannot be combined with flags'')
          else po_Unmarshal ops False ''ListRequest'' payload
      | None \<Rightarrow>
          (case FlagSet_Parse [string_var ''prefix''] args [] of
             (Inl err, flag_prefix) \<Rightarrow> Inl err
           | (Inr rest, flag_prefix) \<Rightarrow> Inr [''Prefix'' \<mapsto> GVar (FString flag_prefix)]))"

definition list_send :: "'f proto_ops \<Rightarrow> 'i run_context \<Rightarrow> 'f message response option \<Rightarrow> ('f, 'u) cli_world \<Rightarrow> goerr option \<times> ('f, 'u) cli_world" where
  [go_eval]: "list_send ops ctx resp w =
     (case Option.bind resp resp_Msg of
        None \<Rightarrow> (Some (NewError CodeInternal ''handler sent nil response''), w)
      | Some m \<Rightarrow> print_message ops ctx m w)"

definition list_run :: "('i, 'f, 'u) gen_env \<Rightarrow> 'i run_context \<Rightarrow> string list \<Rightarrow> ('f, 'u) cli_world \<Rightarrow> goerr option \<times> ('f, 'u) cli_world" where
  [go_eval]: "list_run E ctx args w =
     (case list_request_of (ge_proto E) ctx args of
        Inl err \<Rightarrow> (Some err, w)
      | Inr req \<Rightarrow>
          InvokeServerStream ''ListRequest'' ''Entry'' ctx
            \<lparr>cs_Procedure = ''/kv.v1.KVService/List'', cs_Transport = TransportCLI, cs_Shape = CallShapeServerStream\<rparr>
            (Some \<lparr>req_Msg = Some req, req_Meta = meta_zero\<lparr>meta_Procedure := ''/kv.v1.KVService/List''\<rparr>\<rparr>)
            (NewStreamWriter ctx (list_send (ge_proto E) ctx)) (h_ServerStream (ge_handler E) ''List'')
            (map (ge_deref E) (InterceptorsFromContext ctx)) w)"

text \<open>\<open>fs.String(name, "", "")\<close> of a flag set for help, which allocates a variable of its own.\<close>

definition help_string :: "'f float_ops \<Rightarrow> string \<Rightarrow> ('f, 'u) cli_world flagset" where
  [go_eval]: "help_string fl name = [lift_flag (reg_flag fl (StdFlag ''String'' None name empty_literal []))]"

definition node_kv_get :: "('i, 'f, 'u) gen_env \<Rightarrow> ('i run_context, ('f, 'u) cli_world) node" where
  [go_eval]: "node_kv_get E = Node ''get'' ''Get a value by key'' False None (Some (help_string (ge_floats E) ''key'')) None (Some (get_run E))"

definition node_kv_list :: "('i, 'f, 'u) gen_env \<Rightarrow> ('i run_context, ('f, 'u) cli_world) node" where
  [go_eval]: "node_kv_list E = Node ''list'' ''List entries by prefix'' False None (Some (help_string (ge_floats E) ''prefix'')) None (Some (list_run E))"

definition node_kv :: "('i, 'f, 'u) gen_env \<Rightarrow> ('i run_context, ('f, 'u) cli_world) node" where
  [go_eval]: "node_kv E = Node ''kv'' ''Key-value store operations'' False None None
     (Some [(''get'', node_kv_get E), (''list'', node_kv_list E)]) None"

definition schema_run :: "string list \<Rightarrow> ('f, 'u) cli_world \<Rightarrow> goerr option \<times> ('f, 'u) cli_world" where
  [go_eval]: "schema_run args w =
     (if length args > 0 then
        (let key = join args '' '' in
         case (case schemaDataKVServiceByCommand key of Some info \<Rightarrow> Some info | None \<Rightarrow> schemaDataKVServiceByProcedure key) of
           None \<Rightarrow> (Some (Errorf_plain (''unknown command '' @ go_quote key)), w)
         | Some info \<Rightarrow> print_json (command_json info) w)
      else print_json (JArray (map command_json schemaDataKVServiceAll)) w)"

text \<open>The root node given to \<open>cli.NewRunner\<close>.\<close>

definition NewKVServiceCLIRunner :: "('i, 'f, 'u) gen_env \<Rightarrow> ('i run_context, ('f, 'u) cli_world) node" where
  [go_eval]: "NewKVServiceCLIRunner E = Node [] [] False None None
     (Some [(''schema'', Node ''schema'' ''Show procedure schemas'' False None None None (Some (\<lambda>ctx. schema_run))),
            (''kv'', node_kv E)]) None"

section \<open>The service's descriptor\<close>

definition kv_field :: "string \<Rightarrow> string \<Rightarrow> proto_field" where
  [go_eval]: "kv_field name goName = (config_field name StringKind)\<lparr>pf_GoName := goName\<rparr>"

definition kv_get :: proto_method where
  [go_eval]: "kv_get = \<lparr>md_GoName = ''Get'', md_Name = ''Get'',
     md_Input = \<lparr>pm_GoName = ''GetRequest'', pm_Fields = [kv_field ''key'' ''Key'']\<rparr>,
     md_Output = \<lparr>pm_GoName = ''GetResponse'', pm_Fields = [kv_field ''key'' ''Key'', kv_field ''value'' ''Value'']\<rparr>,
     md_StreamingClient = False, md_StreamingServer = False,
     md_Options = Some \<lparr>proc_CliPath = Some [''get''], proc_Cli = None, proc_Connect = None, proc_Ws = None,
       proc_Summary = Some ''Get a value by key'', proc_Hidden = None\<rparr>\<rparr>"

definition kv_list :: proto_method where
  [go_eval]: "kv_list = \<lparr>md_GoName = ''List'', md_Name = ''List'',
     md_Input = \<lparr>pm_GoName = ''ListRequest'', pm_Fields = [kv_field ''prefix'' ''Prefix'']\<rparr>,
     md_Output = \<lparr>pm_GoName = ''Entry'', pm_Fields = [kv_field ''key'' ''Key'', kv_field ''value'' ''Value'']\<rparr>,
     md_StreamingClient = False, md_StreamingServer = True,
     md_Options = Some \<lparr>proc_CliPath = Some [''list''], proc_Cli = None, proc_Connect = None, proc_Ws = None,
       proc_Summary = Some ''List entries by prefix'', proc_Hidden = None\<rparr>\<rparr>"

definition kv_service :: proto_service where
  [go_eval]: "kv_service = \<lparr>sv_GoName = ''KVService'', sv_Name = ''KVService'', sv_Package = ''kv.v1'',
     sv_Options = Some \<lparr>grp_Path = Some [''kv''], grp_BindInto = None, grp_Summary = Some ''Key-value store operations'', grp_Hidden = None\<rparr>,
     sv_Methods = [kv_get, kv_list]\<rparr>"

definition kv_tree :: tree_node where
  [go_eval]: "kv_tree = (case buildTree [extractServiceInfo kv_service] of Some t \<Rightarrow> t | None \<Rightarrow> new_group [])"

section \<open>The generated code is the generator's\<close>

text \<open>Two flag sets that set related states alike parse alike.\<close>

definition flags_alike :: "('v \<Rightarrow> 'w \<Rightarrow> bool) \<Rightarrow> 'v flag_def \<Rightarrow> 'w flag_def \<Rightarrow> bool" where
  "flags_alike R f g \<longleftrightarrow> fName f = fName g \<and> fIsBool f = fIsBool g
     \<and> (\<forall>s v w. R v w \<longrightarrow> fst (fSet f s v) = fst (fSet g s w) \<and> R (snd (fSet f s v)) (snd (fSet g s w)))"

fun one_alike :: "('v \<Rightarrow> 'w \<Rightarrow> bool) \<Rightarrow> 'v one_flag \<Rightarrow> 'w one_flag \<Rightarrow> bool" where
  "one_alike R (Seen rest v) (Seen rest' w) \<longleftrightarrow> rest = rest' \<and> R v w"
| "one_alike R (Stop rest) (Stop rest') \<longleftrightarrow> rest = rest'"
| "one_alike R (Fail e v) (Fail e' w) \<longleftrightarrow> e = e' \<and> R v w"
| "one_alike R _ _ \<longleftrightarrow> False"

lemma after_set_alike:
  assumes "flags_alike R f g" and "R v w"
  shows "one_alike R (after_set args (set_flag f val pre v)) (after_set args (set_flag g val pre w))"
proof -
  have "fst (fSet f val v) = fst (fSet g val w)" "R (snd (fSet f val v)) (snd (fSet g val w))"
    using assms by (simp_all add: flags_alike_def)
  then show ?thesis
    by (cases "fSet f val v"; cases "fSet g val w") (auto simp: after_set_def set_flag_def split: option.splits)
qed

lemma lookup_alike:
  "list_all2 (flags_alike R) fs gs \<Longrightarrow> rel_option (flags_alike R) (lookup_flag name fs) (lookup_flag name gs)"
  by (induction rule: list_all2_induct) (auto simp: flags_alike_def)

lemma parse_known_alike:
  assumes "flags_alike R f g" and "R v w"
  shows "one_alike R (parse_known f name inline args v) (parse_known g name inline args w)"
proof -
  have "fIsBool f = fIsBool g" using assms(1) by (simp add: flags_alike_def)
  then show ?thesis
    using assms by (cases inline; cases args) (auto simp: parse_known_def intro: after_set_alike)
qed

lemma parseOne_alike:
  assumes "list_all2 (flags_alike R) fs gs" and "R v w"
  shows "one_alike R (parseOne fs args v) (parseOne gs args w)"
proof (cases args)
  case (Cons s rest)
  show ?thesis
  proof (cases "classify_token s")
    case (FlagToken name inline)
    from lookup_alike[OF assms(1), of name] show ?thesis
      by (cases rule: option.rel_cases) (auto simp: Cons FlagToken assms(2) intro: parse_known_alike)
  qed (simp_all add: Cons assms(2))
qed simp

lemma FlagSet_Parse_alike:
  assumes "list_all2 (flags_alike R) fs gs" and "R v w"
  shows "fst (FlagSet_Parse fs args v) = fst (FlagSet_Parse gs args w) \<and> R (snd (FlagSet_Parse fs args v)) (snd (FlagSet_Parse gs args w))"
  using assms
proof (induction fs args v arbitrary: w rule: FlagSet_Parse.induct)
  case (1 fs args v)
  from parseOne_alike[OF 1(2,3), of args] 1 show ?case
    by (cases "parseOne fs args v"; cases "parseOne gs args w")
      (auto simp: FlagSet_Parse.simps[of fs args] FlagSet_Parse.simps[of gs args])
qed


text \<open>A request with one string field, from its flag.\<close>

lemma string_request:
  "request_from_flags fl ops \<lparr>pm_GoName = ty, pm_Fields = [kv_field name goName]\<rparr> [] args outer
   = (case FlagSet_Parse [string_var (fieldToFlagName name)] args [] of
        (Inl err, x) \<Rightarrow> Inl err
      | (Inr rest, x) \<Rightarrow> Inr [goName \<mapsto> GVar (FString x)])"
proof -
  let ?msg = "\<lparr>pm_GoName = ty, pm_Fields = [kv_field name goName]\<rparr>" and ?x = "''flag_'' @ name"
  let ?r = "StdFlag ''StringVar'' (Some ?x) (fieldToFlagName name) empty_literal []"
  let ?R = "\<lambda>vars :: 'a flag_vars. \<lambda>s. vars ?x = Some (FString s)"
  have code: "emitFlagVars ?msg [] = [((?x, ''string''), ?r)]"
    by (simp add: emitFlagVars_def own_fields_def kv_field_def config_field_def map_filter_simps emitFlagVar_def isJSONStringFlag_def
        resolveFieldType_def std_type_def emitFlagReg_def fieldUsage_def getFieldDescription_def Let_def)
  have fs: "list_all2 (flags_alike ?R) [reg_flag fl ?r] [string_var (fieldToFlagName name)]"
    by (simp add: flags_alike_def reg_flag_def string_var_def is_bool_call_def set_variable_def)
  have v: "?R (outer ++ declare_vars fl [(?x, ''string'')]) []"
    by (simp add: map_add_def declare_vars_def zero_of_def zero_values_def)
  note FlagSet_Parse_alike[where R = ?R and fs = "[reg_flag fl ?r]" and gs = "[string_var (fieldToFlagName name)]"
      and v = "outer ++ declare_vars fl [(?x, ''string'')]" and w = "[]" and args = args, OF fs v]
  moreover have "emitRequestFields ?msg [] = [FieldItem (goName, UseVar ?x)]" "emitRequestPostAssign ?msg [] = []"
    by (simp_all add: emitRequestFields_def emitRequestPostAssign_def map_filter_simps emitFieldAssignment_def kv_field_def
        config_field_def isPostAssignField_def isJSONStringFlag_def)
  ultimately show ?thesis
    by (auto simp: request_from_flags_def code new_flagset_def split: prod.splits sum.splits)
qed

lemma kv_flag_names: "fieldToFlagName ''key'' = ''key''" "fieldToFlagName ''prefix'' = ''prefix''"
  by code_simp+

lemma get_request_emitted: "emitRequestParsing fl ops (md_Input kv_get) [] ctx args outer = get_request ops ctx args"
  by (simp add: emitRequestParsing_def get_request_def kv_get_def string_request kv_flag_names split: option.splits)

lemma list_request_emitted: "emitRequestParsing fl ops (md_Input kv_list) [] ctx args outer = list_request_of ops ctx args"
  by (simp add: emitRequestParsing_def list_request_of_def kv_list_def string_request kv_flag_names split: option.splits)

lemma print_message_emitted: "write_response ops ctx missing resp w =
    (case Option.bind resp resp_Msg of None \<Rightarrow> (Some (NewError CodeInternal missing), w) | Some m \<Rightarrow> print_message ops ctx m w)"
  by (simp add: write_response_def print_message_def split: option.splits)

lemma get_emitted: "leaf_run E [] (command_leaf kv_service kv_get) kv_get = get_run E"
proof -
  have "lf_Shape (command_leaf kv_service kv_get) = shapeUnary" "lf_FullName (command_leaf kv_service kv_get) = ''/kv.v1.KVService/Get''"
    "md_GoName kv_get = ''Get''" "pm_GoName (md_Input kv_get) = ''GetRequest''" "pm_GoName (md_Output kv_get) = ''GetResponse''"
    by code_simp+
  then show ?thesis
    by (simp add: fun_eq_iff leaf_run_def get_run_def get_request_emitted emitHandlerCall_def finish_call_def print_message_emitted
        cli_spec_def cli_request_def chain_of_ctx_def shapeUnary_def shapeClientStream_def shapeServerStream_def shapeBidi_def Let_def
        split: sum.splits prod.splits option.splits)
qed

lemma list_sends: "write_response ops ctx ''handler sent nil response'' = list_send ops ctx"
  by (simp add: fun_eq_iff print_message_emitted list_send_def)

lemma list_emitted: "leaf_run E [] (command_leaf kv_service kv_list) kv_list = list_run E"
proof -
  have "lf_Shape (command_leaf kv_service kv_list) = shapeServerStream" "lf_FullName (command_leaf kv_service kv_list) = ''/kv.v1.KVService/List''"
    "md_GoName kv_list = ''List''" "pm_GoName (md_Input kv_list) = ''ListRequest''" "pm_GoName (md_Output kv_list) = ''Entry''"
    by code_simp+
  then show ?thesis
    by (intro ext) (simp add: leaf_run_def list_run_def list_request_emitted emitStreamingHandlerCall_def list_sends
        cli_spec_def cli_request_def chain_of_ctx_def shapeUnary_def shapeClientStream_def shapeServerStream_def shapeBidi_def Let_def
        split: sum.splits prod.splits option.splits)
qed

lemma kv_schema:
  "schema_of kv_service (extractServiceInfo kv_service)
   = \<lparr>byCommand = schemaDataKVServiceByCommand, byProcedure = schemaDataKVServiceByProcedure, all_commands = schemaDataKVServiceAll\<rparr>"
proof -
  have "map (\<lambda>e. (se_commandPath e, emitSchemaInfoLiteral e)) (collectSchemaEntries kv_service (extractServiceInfo kv_service))
      = [(''kv get'', get_info), (''kv list'', list_info)]"
    "map (\<lambda>e. (se_procedure e, emitSchemaInfoLiteral e)) (collectSchemaEntries kv_service (extractServiceInfo kv_service))
      = [(''/kv.v1.KVService/Get'', get_info), (''/kv.v1.KVService/List'', list_info)]"
    "map emitSchemaInfoLiteral (collectSchemaEntries kv_service (extractServiceInfo kv_service)) = [get_info, list_info]"
    by code_simp+
  then show ?thesis
    by (simp add: schema_of_def emitSchemaDataDecls_def schemaDataKVServiceByCommand_def schemaDataKVServiceByProcedure_def
        schemaDataKVServiceAll_def)
qed

text \<open>The tree of the service, and the nodes its parts become.\<close>

lemma kv_tree:
  "kv_tree = TreeNode [] [] False [] (Some [(''kv'',
     TreeNode ''kv'' ''Key-value store operations'' False [] (Some
       [(''get'', TreeNode ''get'' ''Get a value by key'' False [] None (Some (command_leaf kv_service kv_get))),
        (''list'', TreeNode ''list'' ''List entries by prefix'' False [] None (Some (command_leaf kv_service kv_list)))]) None)]) None"
  by code_simp

lemma kv_servable: "servable (\<lambda>_. None) kv_service kv_tree" "resolveBindIntoCtxs pool kv_tree kv_service = []"
  by code_simp+

lemma kv_help:
  "leaf_help E [] (command_leaf kv_service kv_get) kv_get = Some (help_string (ge_floats E) ''key'')"
  "leaf_help E [] (command_leaf kv_service kv_list) kv_list = Some (help_string (ge_floats E) ''prefix'')"
proof -
  have "emitHelpFlags (md_Input kv_get) [] = [StdFlag ''String'' None ''key'' empty_literal []]"
    "emitHelpFlags (md_Input kv_list) [] = [StdFlag ''String'' None ''prefix'' empty_literal []]"
    "lf_Shape (command_leaf kv_service kv_get) = shapeUnary" "lf_Shape (command_leaf kv_service kv_list) = shapeServerStream"
    by code_simp+
  then show "leaf_help E [] (command_leaf kv_service kv_get) kv_get = Some (help_string (ge_floats E) ''key'')"
    "leaf_help E [] (command_leaf kv_service kv_list) kv_list = Some (help_string (ge_floats E) ''prefix'')"
    by (simp_all add: leaf_help_def new_flagset_def help_string_def shapeUnary_def shapeClientStream_def shapeServerStream_def
        shapeBidi_def)
qed

lemma kv_leaves:
  "emitLeafDecl E kv_service [] (TreeNode ''get'' ''Get a value by key'' False [] None l) (command_leaf kv_service kv_get) = node_kv_get E"
  "emitLeafDecl E kv_service [] (TreeNode ''list'' ''List entries by prefix'' False [] None l) (command_leaf kv_service kv_list) = node_kv_list E"
proof -
  have "findMethod kv_service (lf_MethodGoName (command_leaf kv_service kv_get)) = Some kv_get"
    "findMethod kv_service (lf_MethodGoName (command_leaf kv_service kv_list)) = Some kv_list"
    by code_simp+
  then show
    "emitLeafDecl E kv_service [] (TreeNode ''get'' ''Get a value by key'' False [] None l) (command_leaf kv_service kv_get) = node_kv_get E"
    "emitLeafDecl E kv_service [] (TreeNode ''list'' ''List entries by prefix'' False [] None l) (command_leaf kv_service kv_list) = node_kv_list E"
    by (simp_all add: emitLeafDecl_def kv_help get_emitted list_emitted node_kv_get_def node_kv_list_def)
qed

lemma kv_node: "node_of E kv_service [] kv_tree = Node [] [] False None None (Some [(''kv'', node_kv E)]) None"
  unfolding kv_tree by (simp add: node_of.simps group_flags_def sortedKeys_def kv_leaves node_kv_def)

lemma kv_schema_run:
  "emitSchemaLookup (schema_of kv_service (extractServiceInfo kv_service)) = schema_run"
  unfolding kv_schema by (intro ext) (auto simp: emitSchemaLookup_def schema_run_def Let_def split: option.splits)

text \<open>
  C3. The checked-in generated file is what the generator emits: for the descriptor of the service the emitted
  handler interface, schema tables and runner constructor, run, are the ones of the file, in the same environment.
\<close>

theorem kv_checked_in:
  "generateHandler kv_service = KVServiceHandler \<and>
   schema_of kv_service (extractServiceInfo kv_service)
     = \<lparr>byCommand = schemaDataKVServiceByCommand, byProcedure = schemaDataKVServiceByProcedure, all_commands = schemaDataKVServiceAll\<rparr> \<and>
   generateCLI E pool kv_service (extractServiceInfo kv_service) kv_tree = Some (NewKVServiceCLIRunner E)"
proof (intro conjI)
  show "generateHandler kv_service = KVServiceHandler" by code_simp
  have "wf_tree kv_tree" "distinct (map d_varName (collectDecls kv_tree []))"
    using kv_servable(1) buildTree_wf by (auto simp: servable_def)
  then have "generateCLI E pool kv_service (extractServiceInfo kv_service) kv_tree
      = emitSchemaNode (schema_of kv_service (extractServiceInfo kv_service)) (node_of E kv_service [] kv_tree)"
    by (subst generateCLI_root) (simp_all add: kv_servable(2) bindable_def)
  also have "\<dots> = Some (NewKVServiceCLIRunner E)"
    by (simp add: kv_node emitSchemaNode_def kv_schema_run NewKVServiceCLIRunner_def Let_def)
  finally show "generateCLI E pool kv_service (extractServiceInfo kv_service) kv_tree = Some (NewKVServiceCLIRunner E)" .
qed (rule kv_schema)

end
