(* ===== verification/KvMain.thy ===== *)
theory KvMain imports KvExample begin

text \<open>
  The example program \<open>examples/kv/main.go\<close>: its handler on an in-memory store, its \<open>main\<close> with the exit codes, and what
  it prints for its command lines, through the generated runner, the global flags, the command tree, the flags and
  the handler. A Go map is an association list; the marshalling of messages is the library's.
\<close>

section \<open>The handler\<close>

type_synonym kv_data = "(string \<times> string) list"

text \<open>A string field of a message; a field never set is empty.\<close>

definition string_of :: "'f message \<Rightarrow> string \<Rightarrow> string" where
  [go_eval]: "string_of m name = (case m name of Some (GVar (FString s)) \<Rightarrow> s | _ \<Rightarrow> [])"

text \<open>\<open>GetResponse\<close> and \<open>Entry\<close> have the same fields.\<close>

definition entry :: "string \<Rightarrow> string \<Rightarrow> 'f message" where
  [go_eval]: "entry k v = [''Key'' \<mapsto> GVar (FString k), ''Value'' \<mapsto> GVar (FString v)]"

definition handler_Get :: "kv_data \<Rightarrow> 'f message \<Rightarrow> goerr + 'f message response option" where
  [go_eval]: "handler_Get store req =
     (case map_of store (string_of req ''Key'') of
        None \<Rightarrow> Inl (NewError CodeNotFound (''key '' @ go_quote (string_of req ''Key'') @ '' not found''))
      | Some v \<Rightarrow> Inr (Some \<lparr>resp_Msg = Some (entry (string_of req ''Key'') v), resp_Meta = meta_zero\<rparr>))"

fun list_loop :: "kv_data \<Rightarrow> string \<Rightarrow> string list \<Rightarrow> ('f message, goerr option) prog" where
  "list_loop store pre [] = Return None"
| "list_loop store pre (k # ks) =
     (if \<not> has_prefix k pre then list_loop store pre ks
      else Send (Some \<lparr>resp_Msg = Some (entry k (case map_of store k of Some v \<Rightarrow> v | None \<Rightarrow> [])), resp_Meta = meta_zero\<rparr>)
             (\<lambda>err. case err of Some e \<Rightarrow> Return (Some e) | None \<Rightarrow> list_loop store pre ks))"

definition handler_List :: "kv_data \<Rightarrow> 'f message \<Rightarrow> ('f message, goerr option) prog" where
  [go_eval]: "handler_List store req = list_loop store (string_of req ''Prefix'') (sort (remdups (map fst store)))"

text \<open>
  The message of a request. A nil request or message would be a nil dereference in the handler; the runner passes
  neither.
\<close>

definition request_msg :: "'f message request option \<Rightarrow> 'f message" where
  [go_eval]: "request_msg req = (case Option.bind req req_Msg of Some m \<Rightarrow> m | None \<Rightarrow> Map.empty)"

text \<open>The service has one unary and one server-streaming method, and no method of another shape.\<close>

definition kv_handler :: "kv_data \<Rightarrow> ('i, 'f, 'u) svc_handler" where
  "kv_handler store =
     \<lparr>h_Unary = (\<lambda>name ctx req w. (handler_Get store (request_msg req), w)),
      h_ServerStream = (\<lambda>name ctx req st. run_prog (\<lambda>s. (Inl EOF, s)) (ss_Send st) (handler_List store (request_msg req))),
      h_ClientStream = (\<lambda>name ctx st s. (Inr None, s)),
      h_Bidi = (\<lambda>name ctx st s. (None, s))\<rparr>"

section \<open>The program\<close>

definition kv_store :: kv_data where
  [go_eval]: "kv_store =
     [(''greeting'', ''hello world''),
      (''greeting:ja'', [CHR 0xE3, CHR 0x81, CHR 0x93, CHR 0xE3, CHR 0x82, CHR 0x93, CHR 0xE3, CHR 0x81, CHR 0xAB, CHR 0xE3, CHR 0x81,
         CHR 0xA1, CHR 0xE3, CHR 0x81, CHR 0xAF, CHR 0xE4, CHR 0xB8, CHR 0x96, CHR 0xE7, CHR 0x95, CHR 0x8C]),
      (''version'', ''1.0.0'')]"

definition kv_env :: "'f float_ops \<Rightarrow> 'f proto_ops \<Rightarrow> reader \<Rightarrow> kv_data \<Rightarrow> (unit, 'f, unit) gen_env" where
  "kv_env fl ops stdin store =
     \<lparr>ge_floats = fl, ge_proto = ops, ge_stdin = stdin, ge_deref = (\<lambda>i. None), ge_handler = kv_handler store\<rparr>"

lemma kv_env_simps [simp]:
  "ge_proto (kv_env fl ops stdin store) = ops" "ge_handler (kv_env fl ops stdin store) = kv_handler store"
  "ge_deref (kv_env fl ops stdin store) i = None"
  by (simp_all add: kv_env_def)

text \<open>The end of \<open>main\<close>: the exit code, and what was written to standard error and output.\<close>

definition exit_main :: "goerr option \<times> string \<times> ('f, 'u) cli_world \<Rightarrow> int \<times> string \<times> string" where
  [go_eval]: "exit_main r =
     (case r of
        (None, err, w) \<Rightarrow> (0, err, cw_stdout w)
      | (Some e, err, w) \<Rightarrow>
          (case StatusOf e of
             Some st \<Rightarrow> (ExitCode (Code st), err, cw_stdout w)
           | None \<Rightarrow> (1, err @ error_text e @ newline, cw_stdout w)))"

definition main_with ::
  "'f float_ops \<Rightarrow> 'f proto_ops \<Rightarrow> string \<Rightarrow> reader \<Rightarrow> kv_data \<Rightarrow> string list \<Rightarrow> int \<times> string \<times> string" where
  [go_eval]: "main_with fl ops arg0 stdin store args =
     exit_main (Runner_Run (NewRunner arg0 stdin (NewKVServiceCLIRunner (kv_env fl ops stdin store)) []) empty_ctx args
       ([], \<lparr>cw_vars = Map.empty, cw_stdout = [], cw_scan = NewScanner stdin, cw_user = ()\<rparr>))"

definition kv_main :: "'f float_ops \<Rightarrow> 'f proto_ops \<Rightarrow> string \<Rightarrow> reader \<Rightarrow> string list \<Rightarrow> int \<times> string \<times> string" where
  [go_eval]: "kv_main fl ops arg0 stdin args = main_with fl ops arg0 stdin kv_store args"

section \<open>Command lines\<close>

definition output_flag :: "bool \<Rightarrow> string list" where
  [go_eval]: "output_flag json = (if json then [''--output=json''] else [])"

text \<open>The end of a run with an error: the status on standard error for JSON output, other errors as text.\<close>

definition failed :: "bool \<Rightarrow> goerr \<Rightarrow> string \<Rightarrow> int \<times> string \<times> string" where
  [go_eval]: "failed json e out =
     (case StatusOf e of
        Some st \<Rightarrow> (ExitCode (Code st), if json then formatErrorJSON st else [], out)
      | None \<Rightarrow> (1, error_text e @ newline, out))"

lemma one_string_flag:
  assumes "usable_name n"
  shows "FlagSet_Parse [string_var n] [flag_use n v] [] = (Inr [], v)"
  using assms by (simp add: FlagSet_Parse.simps classify_use parse_known_def after_set_def set_flag_def string_var_def)

lemma pre_parse_output:
  assumes "\<forall>a \<in> set args. \<not> is_global a"
  shows "preParseGlobalFlags (output_flag json @ args) = Inr (args, no_globals\<lparr>outputFmt := if json then ''json'' else []\<rparr>)"
proof -
  let ?ps = "(if json then [Global ''--output'' True ''json''] else []) @ map Plain args"
  have "concat (map render_piece ?ps) = output_flag json @ args" using plain_args_map(3)[of args] by (simp add: output_flag_def)
  moreover have "list_all wf_piece ?ps" using assms by (auto simp: list_all_iff)
  ultimately show ?thesis
    using pre_parse_pieces[of ?ps "[]" no_globals False False args "no_globals\<lparr>outputFmt := if json then ''json'' else []\<rparr>"]
    by (simp add: preParseGlobalFlags_def once_def value_or_def no_globals_def del: pre_parse_loop.simps)
qed

lemma kv_runs:
  fixes E :: "('i, 'f, 'u) gen_env"
  assumes "(name, run) = (''get'', get_run E) \<or> (name, run) = (''list'', list_run E)" and "usable_name n" and "n \<noteq> ''json''" and "n \<noteq> ''output''"
  shows "\<exists>ctx. JSONPayloadFromContext ctx = None \<and> (OutputFormatFromContext ctx = OutputJSON \<longleftrightarrow> json) \<and> InterceptorsFromContext ctx = [] \<and>
    exit_main (Runner_Run (NewRunner arg0 stdin (NewKVServiceCLIRunner E) []) empty_ctx (output_flag json @ [''kv'', name, flag_use n v]) ([], w))
    = (case run ctx [flag_use n v] w of (None, w') \<Rightarrow> (0, [], cw_stdout w') | (Some e, w') \<Rightarrow> failed json e (cw_stdout w'))"
proof -
  let ?r = "NewRunner arg0 stdin (NewKVServiceCLIRunner E) []"
  obtain gf where gf: "gf = no_globals\<lparr>outputFmt := if json then ''json'' else []\<rparr>" by simp
  obtain ctx where run_ctx: "run_ctx ?r gf empty_ctx = ctx" by simp
  have name: "name = ''get'' \<or> name = ''list''" using assms(1) by auto
  then have words: "\<forall>s \<in> set [''kv'', name]. classify_token s = ArgToken" by (auto simp: classify_token_def)
  have "\<forall>a \<in> set [''kv'', name, flag_use n v]. \<not> is_global a"
    using words plain_segment plain_use(1)[OF assms(2-4)] by auto
  note pre = pre_parse_output[OF this, of json, folded gf]
  obtain leaf where leaf: "node_at (NewKVServiceCLIRunner E) ([''kv''] @ [name]) = Some leaf" "\<not> isGroup leaf" "Run leaf = Some run"
    using assms(1) by (auto simp: NewKVServiceCLIRunner_def node_kv_def node_kv_get_def node_kv_list_def child_list_def isGroup_def)
  have "plain_path (NewKVServiceCLIRunner E) ([''kv''] @ [name])" using words by (intro plain_words) simp
  from run_leaf[OF leaf(1) this leaf(2,3), of "[flag_use n v]"] plain_use(2)[OF assms(2-4)]
  have "traverse ctx (NewKVServiceCLIRunner E) [''kv'', name, flag_use n v] path ([], w) = on_program [] (run ctx [flag_use n v] w)" for ctx path
    by simp
  moreover have "mapError None e = (StatusOf e, e)" for e by (simp add: mapError_def split: option.splits)
  moreover have r: "runner_root ?r = NewKVServiceCLIRunner E" "runner_errorMapper ?r = None" by (simp_all add: NewRunner_def)
  moreover have ctx: "JSONPayloadFromContext ctx = None" "OutputFormatFromContext ctx = OutputJSON \<longleftrightarrow> json" "InterceptorsFromContext ctx = []"
    unfolding run_ctx[symmetric] gf
    by (simp_all add: run_ctx_def NewRunner_def no_globals_def Let_def JSONPayloadFromContext_def OutputFormatFromContext_def
        InterceptorsFromContext_def withStdin_def withInterceptors_def WithOutputFormat_def empty_ctx_def OutputJSON_def outputText_def)
  ultimately have "exit_main (Runner_Run ?r empty_ctx (output_flag json @ [''kv'', name, flag_use n v]) ([], w))
    = (case run ctx [flag_use n v] w of (None, w') \<Rightarrow> (0, [], cw_stdout w') | (Some e, w') \<Rightarrow> failed json e (cw_stdout w'))"
    by (cases "run ctx [flag_use n v] w")
      (simp add: Runner_Run_def pre run_ctx Let_def on_program_def exit_main_def failed_def split: option.splits)
  with ctx show ?thesis by blast
qed

text \<open>What a listing prints: the encoded entries line by line, up to the first that cannot be encoded.\<close>

fun printed_lines :: "('k \<Rightarrow> goerr + string) \<Rightarrow> 'k list \<Rightarrow> goerr option \<times> string" where
  "printed_lines enc [] = (None, [])"
| "printed_lines enc (k # ks) =
     (case enc k of
        Inl e \<Rightarrow> (Some e, [])
      | Inr out \<Rightarrow> (case printed_lines enc ks of (err, rest) \<Rightarrow> (err, out @ newline @ rest)))"

definition entry_line :: "'f proto_ops \<Rightarrow> bool \<Rightarrow> kv_data \<Rightarrow> string \<Rightarrow> goerr + string" where
  [go_eval]: "entry_line ops json store k = po_Marshal ops (\<not> json) (entry k (case map_of store k of Some v \<Rightarrow> v | None \<Rightarrow> []))"

lemma list_loop_prints:
  assumes "OutputFormatFromContext ctx = OutputJSON \<longleftrightarrow> json"
  shows "run_prog recv (guarded_send (list_send ops ctx)) (list_loop store pre ks) w
    = (case printed_lines (entry_line ops json store) (filter (\<lambda>k. has_prefix k pre) ks) of
         (err, out) \<Rightarrow> (err, w\<lparr>cw_stdout := cw_stdout w @ out\<rparr>))"
proof (induction ks arbitrary: w)
  case (Cons k ks)
  then show ?case
    using assms by (cases json)
      (auto simp: guarded_send_def list_send_def print_message_def entry_line_def split: sum.splits prod.splits)
qed simp

section \<open>Properties\<close>

text \<open>
  C19. Getting a key, for every key and store: the entry is printed, on one line for JSON output, and the program
  exits with 0; a key that is not there exits with the code of a missing resource and prints nothing on standard
  output, and on standard error only for JSON output the status; an entry that cannot be encoded is an error.
\<close>

theorem kv_get_answers:
  "main_with fl ops arg0 stdin store (output_flag json @ [''kv'', ''get'', ''--key='' @ k]) =
     (case map_of store k of
        None \<Rightarrow> (3, if json then formatErrorJSON \<lparr>Code = CodeNotFound, Message = ''key '' @ go_quote k @ '' not found'', Retryable = False\<rparr> else [], [])
      | Some v \<Rightarrow> (case po_Marshal ops (\<not> json) (entry k v) of
            Inr out \<Rightarrow> (0, [], out @ newline)
          | Inl e \<Rightarrow> failed json e []))"
proof -
  let ?w = "\<lparr>cw_vars = Map.empty, cw_stdout = [], cw_scan = NewScanner stdin, cw_user = ()\<rparr>"
  let ?E = "kv_env fl ops stdin store"
  have n: "usable_name ''key''" by (simp add: usable_name_def)
  obtain ctx where ctx: "JSONPayloadFromContext ctx = None" "OutputFormatFromContext ctx = OutputJSON \<longleftrightarrow> json" "InterceptorsFromContext ctx = []"
    "main_with fl ops arg0 stdin store (output_flag json @ [''kv'', ''get'', flag_use ''key'' k])
     = (case get_run ?E ctx [flag_use ''key'' k] ?w of
          (None, w') \<Rightarrow> (0, [], cw_stdout w') | (Some e, w') \<Rightarrow> failed json e (cw_stdout w'))"
    using kv_runs[of "''get''" "get_run ?E" ?E "''key''" json arg0 stdin k ?w] n by (auto simp: main_with_def)
  have "get_run ?E ctx [flag_use ''key'' k] ?w = (case handler_Get store [''Key'' \<mapsto> GVar (FString k)] of
      Inl err \<Rightarrow> (Some err, ?w)
    | Inr resp \<Rightarrow> (case Option.bind resp resp_Msg of
         None \<Rightarrow> (Some (NewError CodeInternal ''handler returned nil response''), ?w)
       | Some m \<Rightarrow> print_message ops ctx m ?w))"
    using ctx(1,3) n by (simp add: get_run_def get_request_def one_string_flag kv_handler_def InvokeUnary_identity
        request_msg_def split: sum.splits option.splits)
  then show ?thesis
    using ctx(2,4) by (cases json) (auto simp: flag_use_def handler_Get_def string_of_def print_message_def failed_def ExitCode_def
        CodeInternal_def CodeInvalidArgument_def CodeNotFound_def split: option.splits sum.splits)
qed

text \<open>
  C5. Listing, for every prefix and store: the entries whose keys have the prefix are printed one a line in the
  order of their keys, each key once, and the program exits with 0; at the first entry that cannot be encoded it
  stops with that error, the entries before it printed.
\<close>

theorem kv_list_prints:
  "main_with fl ops arg0 stdin store (output_flag json @ [''kv'', ''list'', ''--prefix='' @ pre]) =
     (case printed_lines (entry_line ops json store) (filter (\<lambda>k. has_prefix k pre) (sort (remdups (map fst store)))) of
        (None, out) \<Rightarrow> (0, [], out)
      | (Some e, out) \<Rightarrow> failed json e out)"
proof -
  let ?w = "\<lparr>cw_vars = Map.empty, cw_stdout = [], cw_scan = NewScanner stdin, cw_user = ()\<rparr>"
  let ?E = "kv_env fl ops stdin store"
  have n: "usable_name ''prefix''" by (simp add: usable_name_def)
  obtain ctx where ctx: "JSONPayloadFromContext ctx = None" "OutputFormatFromContext ctx = OutputJSON \<longleftrightarrow> json" "InterceptorsFromContext ctx = []"
    "main_with fl ops arg0 stdin store (output_flag json @ [''kv'', ''list'', flag_use ''prefix'' pre])
     = (case list_run ?E ctx [flag_use ''prefix'' pre] ?w of
          (None, w') \<Rightarrow> (0, [], cw_stdout w') | (Some e, w') \<Rightarrow> failed json e (cw_stdout w'))"
    using kv_runs[of "''list''" "list_run ?E" ?E "''prefix''" json arg0 stdin pre ?w] n by (auto simp: main_with_def)
  have "list_run ?E ctx [flag_use ''prefix'' pre] ?w
    = run_prog (\<lambda>w. (Inl EOF, w)) (guarded_send (list_send ops ctx)) (handler_List store [''Prefix'' \<mapsto> GVar (FString pre)]) ?w"
    using ctx(1,3) n by (simp add: list_run_def list_request_of_def one_string_flag kv_handler_def NewStreamWriter_def
        InvokeServerStream_prog request_msg_def)
  also have "\<dots> = (case printed_lines (entry_line ops json store) (filter (\<lambda>k. has_prefix k pre) (sort (remdups (map fst store)))) of
      (err, out) \<Rightarrow> (err, ?w\<lparr>cw_stdout := out\<rparr>))"
    by (simp add: handler_List_def string_of_def list_loop_prints[OF ctx(2)] split: prod.splits)
  finally show ?thesis using ctx(4) by (simp add: flag_use_def split: prod.splits option.splits)
qed

section \<open>Witnesses\<close>

text \<open>Messages printed by their key.\<close>

definition key_ops :: "unit proto_ops" where
  [go_eval]: "key_ops = text_ops\<lparr>po_Marshal := (\<lambda>multiline m. Inr (string_of m ''Key''))\<rparr>"

theorem kv_get_answers_witness:
  "kv_main no_floats key_ops ''kv'' ([], EOF) [''kv'', ''get'', ''--key=version''] = (0, [], ''version'' @ newline)
   \<and> kv_main no_floats key_ops ''kv'' ([], EOF) [''kv'', ''get'', ''--key=none''] = (3, [], [])"
  using kv_get_answers[of no_floats key_ops "''kv''" "([], EOF)" kv_store False "''version''"]
    kv_get_answers[of no_floats key_ops "''kv''" "([], EOF)" kv_store False "''none''"]
  by (simp add: kv_main_def output_flag_def kv_store_def key_ops_def entry_def string_of_def)

theorem kv_list_prints_witness:
  "kv_main no_floats key_ops ''kv'' ([], EOF) [''--output=json'', ''kv'', ''list'', ''--prefix=greeting'']
   = (0, [], ''greeting'' @ newline @ ''greeting:ja'' @ newline)"
proof -
  have "filter (\<lambda>k. has_prefix k ''greeting'') (sort (remdups (map fst kv_store))) = [''greeting'', ''greeting:ja'']" by code_simp
  with kv_list_prints[of no_floats key_ops "''kv''" "([], EOF)" kv_store True "''greeting''"] show ?thesis
    by (simp add: kv_main_def output_flag_def entry_line_def key_ops_def entry_def string_of_def)
qed

end
