(* ===== verification/WsServe.thy ===== *)
theory WsServe imports WsServer begin

text \<open>
  One connection of \<open>transport/ws/server.go\<close> from \<open>ServeHTTP\<close> to the end: the read loop and the session handlers of
  \<open>WsServer\<close>, the channel of encoded frames they write to, the goroutine that takes frames off it and writes them
  to the peer, and the shutdown in its order. A connection is interleaved steps on one state. The encoding of a
  frame is a parameter (\<open>json.Marshal\<close>); the peer is what was written to it, and a write to it succeeds or fails.
\<close>

section \<open>State\<close>

definition writeBufSize :: nat where [go_eval]: "writeBufSize = 64"

text \<open>
  Where \<open>serve\<close> is: in its read loop, past it with the sessions cancelled and closed, or with the write channel
  closed; and what the writer does: write, discard after a failed write, or nothing any more.
\<close>

datatype serve_phase = Reading | Draining | ChannelClosed

datatype writer_phase = Writing | Discarding | WriterDone

record serve_state =
  sv_srv :: server
  sv_phase :: serve_phase
  sv_cancelled :: bool
  sv_queue :: "string list"
  sv_writer :: writer_phase
  sv_wire :: "string list"

definition serve_init :: "server \<Rightarrow> serve_state" where
  [go_eval]: "serve_init srv =
     \<lparr>sv_srv = srv, sv_phase = Reading, sv_cancelled = False, sv_queue = [], sv_writer = Writing, sv_wire = []\<rparr>"

text \<open>An upgrade that fails ends the request; \<open>None\<close> inside is the panic of making the semaphore.\<close>

definition ServeHTTP ::
  "(string \<rightharpoonup> string) \<Rightarrow> ('c, 'v, 's) ws_options \<Rightarrow> goerr option \<Rightarrow> (server_cfg \<times> serve_state) option option" where
  [go_eval]: "ServeHTTP handlers wo accept_err =
     (case accept_err of
        Some err \<Rightarrow> None
      | None \<Rightarrow> Some (map_option (\<lambda>(cfg, srv). (cfg, serve_init srv)) (serve_start handlers wo)))"

section \<open>Writing a frame\<close>

text \<open>
  \<open>writeFn\<close>: a frame that cannot be encoded is skipped; otherwise it is queued where there is room, and it is
  given up once the context is done. Both may be possible; if neither is, the writer of the frame waits.
\<close>

inductive serve_writeFn :: "(outbound_frame \<Rightarrow> string option) \<Rightarrow> outbound_frame \<Rightarrow> serve_state \<Rightarrow> serve_state \<Rightarrow> bool" for enc where
  unencodable: "enc f = None \<Longrightarrow> serve_writeFn enc f s s"
| queued: "enc f = Some d \<Longrightarrow> length (sv_queue s) < writeBufSize \<Longrightarrow> serve_writeFn enc f s (s\<lparr>sv_queue := sv_queue s @ [d]\<rparr>)"
| given_up: "enc f = Some d \<Longrightarrow> sv_cancelled s \<Longrightarrow> serve_writeFn enc f s s"

section \<open>The writer\<close>

text \<open>One round of \<open>runWriter\<close>, on a frame or, in \<open>writer_end\<close>, on the closed and empty channel.\<close>

inductive runWriter :: "serve_state \<Rightarrow> serve_state \<Rightarrow> bool" where
  written: "sv_writer s = Writing \<Longrightarrow> sv_queue s = d # ds \<Longrightarrow> runWriter s (s\<lparr>sv_queue := ds, sv_wire := sv_wire s @ [d]\<rparr>)"
| failed: "sv_writer s = Writing \<Longrightarrow> sv_queue s = d # ds \<Longrightarrow> runWriter s (s\<lparr>sv_queue := ds, sv_writer := Discarding\<rparr>)"
| discarded: "sv_writer s = Discarding \<Longrightarrow> sv_queue s = d # ds \<Longrightarrow> runWriter s (s\<lparr>sv_queue := ds\<rparr>)"
| writer_end: "sv_writer s \<noteq> WriterDone \<Longrightarrow> sv_phase s = ChannelClosed \<Longrightarrow> sv_queue s = [] \<Longrightarrow> runWriter s (s\<lparr>sv_writer := WriterDone\<rparr>)"

section \<open>Steps of a connection\<close>

text \<open>
  \<open>Act\<close> is an event of the session machine. A frame is read only in the read loop. An event that writes happens when
  its write does: until then the goroutine waits in \<open>writeFn\<close>. \<open>BaseDone\<close> is the end of the request's context,
  \<open>ReadEnd\<close> the return of the read loop with the cancellation and closing of sessions that follow, \<open>CloseCh\<close> the
  close of the write channel once all handlers are gone.
\<close>

datatype serve_event = Act event | BaseDone | ReadEnd | CloseCh | WriterStep

inductive serve_step ::
  "server_cfg \<Rightarrow> (outbound_frame \<Rightarrow> string option) \<Rightarrow> serve_state \<Rightarrow> serve_event \<Rightarrow> serve_state \<Rightarrow> bool" for cfg enc where
  quiet: "server_step cfg (sv_srv s) ev srv \<Longrightarrow> (\<forall>f. ev = In f \<longrightarrow> sv_phase s = Reading) \<Longrightarrow> sent srv = sent (sv_srv s) \<Longrightarrow>
    serve_step cfg enc s (Act ev) (s\<lparr>sv_srv := srv\<rparr>)"
| writes: "server_step cfg (sv_srv s) ev srv \<Longrightarrow> (\<forall>f. ev = In f \<longrightarrow> sv_phase s = Reading) \<Longrightarrow> sent srv = sent (sv_srv s) @ [f] \<Longrightarrow>
    serve_writeFn enc f s s' \<Longrightarrow> serve_step cfg enc s (Act ev) (s'\<lparr>sv_srv := srv\<rparr>)"
| base_done: "\<not> sv_cancelled s \<Longrightarrow> serve_step cfg enc s BaseDone (s\<lparr>sv_cancelled := True\<rparr>)"
| read_end: "sv_phase s = Reading \<Longrightarrow>
    serve_step cfg enc s ReadEnd (s\<lparr>sv_phase := Draining, sv_cancelled := True, sv_srv := closeAllSessions (sv_srv s)\<rparr>)"
| close_ch: "sv_phase s = Draining \<Longrightarrow> sessions (sv_srv s) = Map.empty \<Longrightarrow> leaving (sv_srv s) = 0 \<Longrightarrow>
    serve_step cfg enc s CloseCh (s\<lparr>sv_phase := ChannelClosed\<rparr>)"
| writer: "runWriter s s' \<Longrightarrow> serve_step cfg enc s WriterStep s'"

inductive serve_run ::
  "server_cfg \<Rightarrow> (outbound_frame \<Rightarrow> string option) \<Rightarrow> serve_state \<Rightarrow> serve_event list \<Rightarrow> serve_state \<Rightarrow> bool" for cfg enc where
  start: "serve_run cfg enc s [] s"
| more: "serve_run cfg enc s tr t \<Longrightarrow> serve_step cfg enc t ev u \<Longrightarrow> serve_run cfg enc s (tr @ [ev]) u"

inductive_cases serve_step_ActE: "serve_step cfg enc s (Act ev) s'"
inductive_cases runWriterE: "runWriter s s'"

text \<open>An event of the session machine writes at most one frame.\<close>

lemma readFrame_sent: "readFrame cfg f s = Some s' \<Longrightarrow> sent s' = sent s \<or> (\<exists>g. sent s' = sent s @ [g])"
  by (auto simp: readFrame_def handleOpen_def startSession_def handleMessage_def handleClose_def handleCancel_def Let_def
      split: if_splits option.splits)

lemma server_step_sent: "server_step cfg s ev s' \<Longrightarrow> sent s' = sent s \<or> (\<exists>g. sent s' = sent s @ [g])"
  by (erule server_step.cases) (use readFrame_sent in auto)

section \<open>Invariants\<close>

text \<open>What is left of the invariant of the session machine once its sessions have been closed by the shutdown.\<close>

definition tokens_ok :: "server_cfg \<Rightarrow> server \<Rightarrow> bool" where
  "tokens_ok cfg s \<longleftrightarrow> finite (dom (sessions s)) \<and> card (dom (sessions s)) + leaving s = sem s \<and> sem s \<le> cfg_maxInflight cfg \<and>
     (\<forall>sess \<in> ran (sessions s). length (si_recvCh sess) \<le> recvChBufSize)"

lemma server_ok_tokens: "server_ok cfg s \<Longrightarrow> tokens_ok cfg s"
  by (auto simp: server_ok_def tokens_ok_def session_ok_def)

lemma closeAllSessions_tokens: "tokens_ok cfg s \<Longrightarrow> tokens_ok cfg (closeAllSessions s)"
proof -
  assume ok: "tokens_ok cfg s"
  have "dom (sessions (closeAllSessions s)) = dom (sessions s)" by (auto simp: closeAllSessions_def)
  moreover have "length (si_recvCh sess) \<le> recvChBufSize" if "sess \<in> ran (sessions (closeAllSessions s))" for sess
    using that ok by (auto simp: closeAllSessions_def ran_def tokens_ok_def safeCloseRecvCh_def)
  ultimately show ?thesis using ok by (simp add: tokens_ok_def closeAllSessions_def)
qed

lemma tokens_step:
  assumes "tokens_ok cfg s" and "server_step cfg s ev s'" and "\<And>f. ev \<noteq> In f"
  shows "tokens_ok cfg s'"
  using assms(2)
proof cases
  case (recv sid sess p ps)
  then have "insert sid (dom (sessions s)) = dom (sessions s)" by auto
  moreover have "length (si_recvCh x) \<le> recvChBufSize" if "x \<in> ran ((sessions s)(sid \<mapsto> sess\<lparr>si_recvCh := ps\<rparr>))" for x
  proof -
    have "length (si_recvCh y) \<le> recvChBufSize" if "y \<in> ran (sessions s)" for y using that assms(1) by (simp add: tokens_ok_def)
    moreover have "sess \<in> ran (sessions s)" using recv(3) by (rule ranI)
    ultimately show ?thesis using that recv(4) by (fastforce simp: ran_def split: if_splits)
  qed
  ultimately show ?thesis using recv(2) assms(1) by (simp add: tokens_ok_def)
next
  case (handler_return sid)
  then have "sid \<in> dom (sessions s)" by auto
  moreover have "\<forall>sess\<in>ran ((sessions s)(sid := None)). length (si_recvCh sess) \<le> recvChBufSize"
    using assms(1) by (auto simp: tokens_ok_def ran_def)
  ultimately show ?thesis using assms(1) handler_return card_gt_0_iff[of "dom (sessions s)"]
    by (auto simp: tokens_ok_def card_Diff_singleton)
qed (use assms(1,3) in \<open>auto simp: tokens_ok_def\<close>)

text \<open>
  The session machine stays within its bounds, the queue within its buffer, and the channel is closed only
  when no handler is left.
\<close>

definition serve_ok :: "server_cfg \<Rightarrow> serve_state \<Rightarrow> bool" where
  "serve_ok cfg s \<longleftrightarrow> tokens_ok cfg (sv_srv s) \<and> (sv_phase s = Reading \<longrightarrow> server_ok cfg (sv_srv s))
     \<and> length (sv_queue s) \<le> writeBufSize \<and> (sv_phase s \<noteq> Reading \<longrightarrow> sv_cancelled s)
     \<and> (sv_phase s = ChannelClosed \<longrightarrow> sessions (sv_srv s) = Map.empty \<and> leaving (sv_srv s) = 0)
     \<and> (sv_writer s = WriterDone \<longrightarrow> sv_phase s = ChannelClosed \<and> sv_queue s = [])"

text \<open>What the peer has been sent and what is queued for it, against what was handed to \<open>writeFn\<close>.\<close>

definition encoded :: "(outbound_frame \<Rightarrow> string option) \<Rightarrow> serve_state \<Rightarrow> string list" where
  "encoded enc s = List.map_filter enc (sent (sv_srv s))"

definition wire_ok :: "(outbound_frame \<Rightarrow> string option) \<Rightarrow> serve_state \<Rightarrow> bool" where
  "wire_ok enc s \<longleftrightarrow> subseq (sv_wire s @ sv_queue s) (encoded enc s)
     \<and> (\<not> sv_cancelled s \<and> sv_writer s = Writing \<longrightarrow> sv_wire s @ sv_queue s = encoded enc s)"

lemma no_handler_left:
  assumes "server_step cfg s ev s'" and "sessions s = Map.empty" and "leaving s = 0"
  shows "\<exists>f. ev = In f"
  using assms by (auto elim: server_step.cases)

lemma serve_writeFn_state: "serve_writeFn enc f s s' \<Longrightarrow> sv_srv s' = sv_srv s \<and> sv_phase s' = sv_phase s \<and> sv_cancelled s' = sv_cancelled s
    \<and> sv_writer s' = sv_writer s \<and> sv_wire s' = sv_wire s \<and> length (sv_queue s') \<le> max (length (sv_queue s)) writeBufSize
    \<and> (sv_queue s' = sv_queue s \<or> (\<exists>d. enc f = Some d \<and> sv_queue s' = sv_queue s @ [d]))
    \<and> (\<not> sv_cancelled s \<longrightarrow> sv_queue s' = sv_queue s @ (case enc f of None \<Rightarrow> [] | Some d \<Rightarrow> [d]))"
  by (erule serve_writeFn.cases) auto

lemma subseq_drop_one: "subseq (xs @ d # ys) zs \<Longrightarrow> subseq (xs @ ys) zs"
proof -
  have drop: "subseq (xs @ ys) (xs @ d # ys)" by (rule list_emb_append_mono) auto
  assume "subseq (xs @ d # ys) zs"
  with drop show ?thesis by (rule subseq_order.trans)
qed

lemma serve_ok_act:
  assumes "serve_ok cfg s" and "server_step cfg (sv_srv s) ev srv" and "\<forall>f. ev = In f \<longrightarrow> sv_phase s = Reading"
  shows "tokens_ok cfg srv \<and> (sv_phase s = Reading \<longrightarrow> server_ok cfg srv) \<and> sv_phase s \<noteq> ChannelClosed"
proof -
  have "server_ok cfg srv" if "sv_phase s = Reading"
    using that assms(1,2) server_step_ok by (auto simp: serve_ok_def)
  moreover have "tokens_ok cfg srv" if "sv_phase s \<noteq> Reading"
    using that assms tokens_step by (auto simp: serve_ok_def)
  moreover have "sv_phase s \<noteq> ChannelClosed"
    using no_handler_left[OF assms(2)] assms(1,3) by (auto simp: serve_ok_def)
  ultimately show ?thesis using server_ok_tokens by blast
qed

lemma serve_ok_step [inv_intros]:
  assumes "serve_ok cfg s" and "serve_step cfg enc s ev s'"
  shows "serve_ok cfg s'"
  using assms(2)
proof cases
  case (quiet e srv)
  with serve_ok_act[OF assms(1) quiet(3,4)] assms(1) show ?thesis by (auto simp: serve_ok_def)
next
  case (writes e srv f t)
  with serve_ok_act[OF assms(1) writes(3,4)] assms(1) serve_writeFn_state[OF writes(6)] show ?thesis by (auto simp: serve_ok_def)
next
  case read_end
  with assms(1) closeAllSessions_tokens show ?thesis by (auto simp: serve_ok_def)
next
  case writer
  with assms(1) show ?thesis by (auto simp: serve_ok_def elim: runWriterE)
qed (use assms(1) in \<open>auto simp: serve_ok_def\<close>)

lemma serve_ok_init: "serve_ok cfg (serve_init init_server)"
  using server_ok_init server_ok_tokens by (auto simp: serve_ok_def serve_init_def)

lemma serve_run_ok: "serve_run cfg enc s tr t \<Longrightarrow> serve_ok cfg s \<Longrightarrow> serve_ok cfg t"
  by (induction rule: serve_run.induct) (auto intro: serve_ok_step)

lemma wire_ok_step [inv_intros]:
  assumes "wire_ok enc s" and "serve_step cfg enc s ev s'"
  shows "wire_ok enc s'"
  using assms(2)
proof cases
  case (writes e srv f t)
  have enc: "encoded enc (t\<lparr>sv_srv := srv\<rparr>) = encoded enc s @ (case enc f of None \<Rightarrow> [] | Some d \<Rightarrow> [d])"
    using writes(5) by (simp add: encoded_def map_filter_def split: option.splits)
  show ?thesis
    using assms(1) writes(2) enc serve_writeFn_state[OF writes(6)] subseq_snoc[of "sv_wire s" "sv_queue s"]
    by (auto simp: wire_ok_def intro: list_emb_append2)
next
  case writer
  from writer(2) show ?thesis
  proof cases
    case (failed d ds)
    with assms(1) subseq_drop_one[of "sv_wire s" d ds] show ?thesis by (simp add: wire_ok_def encoded_def)
  next
    case (discarded d ds)
    with assms(1) subseq_drop_one[of "sv_wire s" d ds] show ?thesis by (simp add: wire_ok_def encoded_def)
  qed (use assms(1) in \<open>simp_all add: wire_ok_def encoded_def\<close>)
qed (use assms(1) in \<open>auto simp: wire_ok_def encoded_def closeAllSessions_def\<close>)

lemma serve_run_wire: "serve_run cfg enc s tr t \<Longrightarrow> wire_ok enc s \<Longrightarrow> wire_ok enc t"
  by (induction rule: serve_run.induct) (auto intro: wire_ok_step)

section \<open>Properties\<close>

text \<open>
  C37. What the peer gets is what was written, in order: at every moment of a connection the frames on the wire
  and the frames queued are a subsequence of the encoded frames that the read loop and the handlers
  wrote, and as long as the connection is up and no write to the peer failed they are all of them; no more than
  64 are queued.
\<close>

theorem ws_wire_in_order:
  assumes "serve_run cfg enc (serve_init init_server) tr s"
  shows "subseq (sv_wire s @ sv_queue s) (List.map_filter enc (sent (sv_srv s)))
    \<and> (sv_cancelled s \<or> sv_writer s \<noteq> Writing \<or> sv_wire s @ sv_queue s = List.map_filter enc (sent (sv_srv s)))
    \<and> length (sv_queue s) \<le> 64"
proof -
  have "wire_ok enc (serve_init init_server)"
    by (simp add: wire_ok_def encoded_def serve_init_def init_server_def map_filter_simps)
  from serve_run_wire[OF assms this] serve_run_ok[OF assms serve_ok_init] show ?thesis
    by (auto simp: wire_ok_def encoded_def serve_ok_def writeBufSize_def)
qed

lemma act_with_room:
  assumes "server_step cfg (sv_srv s) ev srv" and "\<forall>f. ev = In f \<longrightarrow> sv_phase s = Reading" and "length (sv_queue s) < writeBufSize"
  shows "\<exists>t. serve_step cfg enc s (Act ev) t \<and> sv_srv t = srv"
proof (cases "sent srv = sent (sv_srv s)")
  case True
  with serve_step.quiet[OF assms(1,2)] show ?thesis by (intro exI[of _ "s\<lparr>sv_srv := srv\<rparr>"]) simp
next
  case False
  then obtain f where f: "sent srv = sent (sv_srv s) @ [f]" using server_step_sent[OF assms(1)] by auto
  have "\<exists>t. serve_writeFn enc f s t" using assms(3) by (cases "enc f") (auto intro: serve_writeFn.intros)
  then obtain t where "serve_writeFn enc f s t" by blast
  from serve_step.writes[OF assms(1,2) f this] show ?thesis by (intro exI[of _ "t\<lparr>sv_srv := srv\<rparr>"]) simp
qed

lemma writer_makes_room:
  assumes "serve_ok cfg s" and "\<not> length (sv_queue s) < writeBufSize"
  shows "\<exists>t. runWriter s t \<and> sv_srv t = sv_srv s \<and> sv_phase t = sv_phase s \<and> length (sv_queue t) < writeBufSize"
proof -
  obtain d ds where q: "sv_queue s = d # ds" using assms(2) by (cases "sv_queue s") (simp_all add: writeBufSize_def)
  have room: "length ds < writeBufSize" using assms(1) q by (simp add: serve_ok_def)
  have "sv_writer s \<noteq> WriterDone" using assms(1) q by (auto simp: serve_ok_def)
  then consider "sv_writer s = Writing" | "sv_writer s = Discarding" by (cases "sv_writer s") auto
  then show ?thesis
  proof cases
    case 1
    from runWriter.written[OF this q] room show ?thesis by (intro exI[of _ "s\<lparr>sv_queue := ds, sv_wire := sv_wire s @ [d]\<rparr>"]) simp
  next
    case 2
    from runWriter.discarded[OF this q] room show ?thesis by (intro exI[of _ "s\<lparr>sv_queue := ds\<rparr>"]) simp
  qed
qed

text \<open>
  No handler waits for ever to write, and no read loop: whenever an event of the session machine would write a
  frame, it can do so at once or as soon as the writer has taken one frame off the queue.
\<close>

theorem ws_write_never_stuck:
  assumes "serve_run cfg enc (serve_init init_server) tr s" and "server_step cfg (sv_srv s) ev srv"
    and "\<forall>f. ev = In f \<longrightarrow> sv_phase s = Reading"
  shows "(\<exists>t. serve_step cfg enc s (Act ev) t \<and> sv_srv t = srv)
    \<or> (\<exists>t u. serve_step cfg enc s WriterStep t \<and> serve_step cfg enc t (Act ev) u \<and> sv_srv u = srv)"
proof (cases "length (sv_queue s) < writeBufSize")
  case True
  with act_with_room[OF assms(2,3)] show ?thesis by blast
next
  case False
  then obtain t where t: "runWriter s t" "sv_srv t = sv_srv s" "sv_phase t = sv_phase s" "length (sv_queue t) < writeBufSize"
    using writer_makes_room[OF serve_run_ok[OF assms(1) serve_ok_init]] by blast
  with act_with_room[of cfg t ev srv enc] assms(2,3) have "\<exists>u. serve_step cfg enc t (Act ev) u \<and> sv_srv u = srv" by simp
  with serve_step.writer[OF t(1)] show ?thesis by blast
qed

definition writer_left :: "serve_state \<Rightarrow> nat" where
  [go_eval]: "writer_left s = (if sv_writer s = WriterDone then 0 else length (sv_queue s) + 1)"

lemma shutdown_step:
  assumes "serve_ok cfg s" and "sv_phase s = ChannelClosed"
  shows "serve_step cfg enc s ev t \<Longrightarrow> ev = WriterStep \<and> sv_phase t = ChannelClosed \<and> Suc (writer_left t) = writer_left s"
    and "(\<exists>ev t. serve_step cfg enc s ev t) \<longleftrightarrow> sv_writer s \<noteq> WriterDone"
proof -
  show only: "ev = WriterStep \<and> sv_phase t = ChannelClosed \<and> Suc (writer_left t) = writer_left s" if "serve_step cfg enc s ev t" for ev t
    using that
  proof cases
    case (quiet e srv)
    with serve_ok_act[OF assms(1) quiet(3,4)] assms(2) show ?thesis by simp
  next
    case (writes e srv f u)
    with serve_ok_act[OF assms(1) writes(3,4)] assms(2) show ?thesis by simp
  next
    case writer
    with assms(2) show ?thesis by (auto simp: writer_left_def elim!: runWriterE)
  qed (use assms in \<open>auto simp: serve_ok_def\<close>)
  show "(\<exists>ev t. serve_step cfg enc s ev t) \<longleftrightarrow> sv_writer s \<noteq> WriterDone"
  proof
    assume "\<exists>ev t. serve_step cfg enc s ev t"
    with only show "sv_writer s \<noteq> WriterDone" by (fastforce simp: writer_left_def)
  next
    assume "sv_writer s \<noteq> WriterDone"
    then have "\<exists>t. runWriter s t" using assms(2) runWriter.writer_end[of s]
      by (cases "sv_writer s"; cases "sv_queue s") (auto dest: runWriter.written runWriter.discarded)
    then show "\<exists>ev t. serve_step cfg enc s ev t" by (blast intro: serve_step.writer)
  qed
qed

text \<open>
  C7. The shutdown ends: once the write channel is closed nothing is sent on it any more, only the writer has steps
  left, one for each queued frame and one to end, and no more step is possible exactly when the writer has ended.
\<close>

theorem ws_shutdown_ends:
  assumes "serve_run cfg enc (serve_init init_server) tr s" and "sv_phase s = ChannelClosed" and "serve_run cfg enc s tr' t"
  shows "set tr' \<subseteq> {WriterStep} \<and> length tr' + writer_left t = writer_left s
    \<and> ((\<nexists>ev u. serve_step cfg enc t ev u) \<longleftrightarrow> sv_writer t = WriterDone)"
proof -
  have "serve_ok cfg t \<and> sv_phase t = ChannelClosed \<and> set tr' \<subseteq> {WriterStep} \<and> length tr' + writer_left t = writer_left s"
    using assms(3,2) serve_run_ok[OF assms(1) serve_ok_init]
  proof (induction rule: serve_run.induct)
    case (more s tr t ev u)
    then have "serve_ok cfg t" "sv_phase t = ChannelClosed" by auto
    with more shutdown_step(1)[OF this more.hyps(2)] serve_ok_step show ?case by auto
  qed auto
  with shutdown_step(2)[of cfg t enc] show ?thesis by auto
qed

section \<open>Witnesses\<close>

definition type_only :: "outbound_frame \<Rightarrow> string option" where
  [go_eval]: "type_only f = Some (out_Type f)"

definition serving :: serve_state where
  [go_eval]: "serving = (serve_init init_server)\<lparr>sv_srv := opened\<rparr>"

definition answering :: serve_state where
  [go_eval]: "answering = serving\<lparr>sv_queue := [''close''], sv_srv := opened\<lparr>sent := [close_frame ''1'']\<rparr>\<rparr>"

definition answer_step :: "serve_event" where
  [go_eval]: "answer_step = Act (HandlerWrite (close_frame ''1''))"

lemma opened_answer: "server_step example_cfg opened (HandlerWrite (close_frame ''1'')) (opened\<lparr>sent := [close_frame ''1'']\<rparr>)"
  by (simp add: exec_event_step[symmetric] opened_def close_frame_def srv_write_def)

lemma run_serving: "serve_run example_cfg type_only (serve_init init_server) [Act (In (open_frame ''1''))] serving"
proof -
  have "server_step example_cfg init_server (In (open_frame ''1'')) opened"
    by (simp add: exec_event_step[symmetric] go_eval frameTypeOpen_def)
  then have "serve_step example_cfg type_only (serve_init init_server) (Act (In (open_frame ''1''))) serving"
    using serve_step.quiet[of example_cfg "serve_init init_server" "In (open_frame ''1'')" opened type_only]
    by (simp add: serve_init_def serving_def opened_def init_server_def)
  from serve_run.more[OF serve_run.start this] show ?thesis by simp
qed

lemma run_answering: "serve_run example_cfg type_only (serve_init init_server) [Act (In (open_frame ''1'')), answer_step] answering"
proof -
  have "serve_writeFn type_only (close_frame ''1'') serving (serving\<lparr>sv_queue := [''close'']\<rparr>)"
    using serve_writeFn.queued[of type_only "close_frame ''1''" "''close''" serving]
    by (simp add: go_eval)
  then have "serve_step example_cfg type_only serving answer_step answering"
    using serve_step.writes[of example_cfg serving "HandlerWrite (close_frame ''1'')" "opened\<lparr>sent := [close_frame ''1'']\<rparr>"
        "close_frame ''1''" type_only "serving\<lparr>sv_queue := [''close'']\<rparr>"] opened_answer
    by (simp add: answering_def answer_step_def serving_def serve_init_def opened_def)
  from serve_run.more[OF run_serving this] show ?thesis by simp
qed

lemma run_closed: "serve_run example_cfg type_only (serve_init init_server) [ReadEnd, CloseCh]
    ((serve_init init_server)\<lparr>sv_phase := ChannelClosed, sv_cancelled := True\<rparr>)"
proof -
  let ?s = "(serve_init init_server)\<lparr>sv_phase := Draining, sv_cancelled := True\<rparr>"
  have "serve_step example_cfg type_only (serve_init init_server) ReadEnd ?s"
    using serve_step.read_end[of "serve_init init_server" example_cfg type_only]
    by (simp add: serve_init_def closeAllSessions_def init_server_def)
  moreover have "serve_step example_cfg type_only ?s CloseCh ((serve_init init_server)\<lparr>sv_phase := ChannelClosed, sv_cancelled := True\<rparr>)"
    using serve_step.close_ch[of ?s example_cfg type_only] by (simp add: serve_init_def init_server_def)
  ultimately show ?thesis
    using serve_run.more[OF serve_run.more[OF serve_run.start]] by fastforce
qed

theorem ws_wire_in_order_witness:
  "subseq (sv_wire answering @ sv_queue answering) (List.map_filter type_only (sent (sv_srv answering))) \<and> sv_queue answering = [''close'']"
  using ws_wire_in_order[OF run_answering] by (simp add: answering_def)

theorem ws_write_never_stuck_witness:
  "(\<exists>t. serve_step example_cfg type_only serving answer_step t \<and> sv_srv t = opened\<lparr>sent := [close_frame ''1'']\<rparr>)
    \<or> (\<exists>t u. serve_step example_cfg type_only serving WriterStep t \<and> serve_step example_cfg type_only t answer_step u
        \<and> sv_srv u = opened\<lparr>sent := [close_frame ''1'']\<rparr>)"
  unfolding answer_step_def
proof (rule ws_write_never_stuck[OF run_serving])
  show "server_step example_cfg (sv_srv serving) (HandlerWrite (close_frame ''1'')) (opened\<lparr>sent := [close_frame ''1'']\<rparr>)"
    using opened_answer by (simp add: serving_def serve_init_def)
qed simp

theorem ws_shutdown_ends_witness:
  "\<exists>s t. serve_run example_cfg type_only s [WriterStep] t \<and> writer_left s = 1 \<and> (\<nexists>ev u. serve_step example_cfg type_only t ev u)"
proof -
  let ?s = "(serve_init init_server)\<lparr>sv_phase := ChannelClosed, sv_cancelled := True\<rparr>"
  have "runWriter ?s (?s\<lparr>sv_writer := WriterDone\<rparr>)" by (rule runWriter.writer_end) (simp_all add: serve_init_def)
  from serve_run.more[OF serve_run.start serve_step.writer[OF this]]
  have run: "serve_run example_cfg type_only ?s [WriterStep] (?s\<lparr>sv_writer := WriterDone\<rparr>)" by simp
  from ws_shutdown_ends[OF run_closed _ this] run show ?thesis
    by (intro exI[of _ ?s] exI[of _ "?s\<lparr>sv_writer := WriterDone\<rparr>"]) (simp add: writer_left_def serve_init_def)
qed

end
