(* ===== verification/WsConn.thy ===== *)
theory WsConn imports WsClient begin

text \<open>
  The goroutines of a client connection, from \<open>transport/ws/client.go\<close>: the read loop and the write loop of \<open>NewConn\<close>,
  the bounded channel of encoded frames between senders and the write loop, and the goroutine that waits for
  both and tears down. The callers' operations are those of \<open>WsClient\<close>; all of them are interleaved steps on one
  state. The encoding of a frame is a parameter.
\<close>

section \<open>State\<close>

text \<open>
  \<open>cn_ctx_done\<close> says that the internal context has ended; the flags say which loops have ended; \<open>cn_out\<close> is what
  was written to the server.
\<close>

record conn_run =
  cn_client :: client
  cn_ctx_done :: bool
  cn_queue :: "string list"
  cn_out :: "string list"
  cn_read_ended :: bool
  cn_write_ended :: bool

definition start_conn :: conn_run where
  [go_eval]: "start_conn =
     \<lparr>cn_client = NewConn, cn_ctx_done = False, cn_queue = [], cn_out = [], cn_read_ended = False, cn_write_ended = False\<rparr>"

definition clientWriteBuf :: nat where [go_eval]: "clientWriteBuf = 64"

section \<open>Sending\<close>

text \<open>
  \<open>send\<close>: a frame that cannot be encoded is an error; otherwise it is queued where there is room, or refused
  once the connection is done. Both may be possible; if neither is, the sender waits.
\<close>

inductive Conn_send :: "(inbound_frame \<Rightarrow> goerr + string) \<Rightarrow> inbound_frame \<Rightarrow> conn_run \<Rightarrow> goerr option \<Rightarrow> conn_run \<Rightarrow> bool" for enc where
  send_unencodable: "enc f = Inl e \<Longrightarrow> Conn_send enc f s (Some e) s"
| send_queued: "enc f = Inr d \<Longrightarrow> length (cn_queue s) < clientWriteBuf \<Longrightarrow>
    Conn_send enc f s None (s\<lparr>cn_queue := cn_queue s @ [d], cn_client := snd (client_send True f (cn_client s))\<rparr>)"
| send_done: "enc f = Inr d \<Longrightarrow> c_done (cn_client s) \<Longrightarrow> Conn_send enc f s (Some (closeErr (cn_client s))) s"

section \<open>The loops\<close>

text \<open>
  The read loop: it takes a frame and routes it, and waits while the channel of its session is full. A failed read
  ends it, and cancels the context; once the context is done it may also give up on the frame it has to deliver.
\<close>

inductive readLoop :: "conn_run \<Rightarrow> conn_run \<Rightarrow> bool" where
  read_frame: "\<not> cn_read_ended s \<Longrightarrow> c_blocked (cn_client s) = None \<Longrightarrow> readLoop s (s\<lparr>cn_client := client_read f (cn_client s)\<rparr>)"
| read_goes_on: "\<not> cn_read_ended s \<Longrightarrow> c_blocked (cn_client s) = Some (ch, f) \<Longrightarrow>
    length (ch_frames (c_chans (cn_client s) ! ch)) < recvBuf \<Longrightarrow> readLoop s (s\<lparr>cn_client := client_unblock (cn_client s)\<rparr>)"
| read_fails: "\<not> cn_read_ended s \<Longrightarrow> c_blocked (cn_client s) = None \<Longrightarrow>
    readLoop s (s\<lparr>cn_client := record_err e (cn_client s), cn_read_ended := True, cn_ctx_done := True\<rparr>)"
| read_stops: "\<not> cn_read_ended s \<Longrightarrow> cn_ctx_done s \<Longrightarrow>
    readLoop s (s\<lparr>cn_client := (cn_client s)\<lparr>c_blocked := None\<rparr>, cn_read_ended := True\<rparr>)"

inductive writeLoop :: "conn_run \<Rightarrow> conn_run \<Rightarrow> bool" where
  write_ok: "\<not> cn_write_ended s \<Longrightarrow> cn_queue s = d # ds \<Longrightarrow> writeLoop s (s\<lparr>cn_queue := ds, cn_out := cn_out s @ [d]\<rparr>)"
| write_fails: "\<not> cn_write_ended s \<Longrightarrow> cn_queue s = d # ds \<Longrightarrow>
    writeLoop s (s\<lparr>cn_queue := ds, cn_client := record_err e (cn_client s), cn_write_ended := True\<rparr>)"
| write_stops: "\<not> cn_write_ended s \<Longrightarrow> cn_ctx_done s \<Longrightarrow> writeLoop s (s\<lparr>cn_write_ended := True\<rparr>)"

section \<open>Steps of a connection\<close>

text \<open>
  Callers allocate and remove sessions, receive from a channel they hold and send frames; the loops run; the
  context given by the user ends; and when both loops have ended the connection is torn down.
\<close>

datatype conn_event =
    NewSession | RemoveSession string | ReceiveFrom nat | SendFrame "goerr option" | ReadStep | WriteStep | CtxDone | Teardown

inductive conn_step ::
  "(inbound_frame \<Rightarrow> goerr + string) \<Rightarrow> 'v proto \<Rightarrow> conn_run \<Rightarrow> conn_event \<Rightarrow> conn_run \<Rightarrow> bool" for enc and pr :: "'v proto" where
  new_session: "conn_step enc pr s NewSession (s\<lparr>cn_client := snd (newSession (cn_client s))\<rparr>)"
| remove_session: "conn_step enc pr s (RemoveSession sid) (s\<lparr>cn_client := removeSession sid (cn_client s)\<rparr>)"
| receive: "ch < length (c_chans (cn_client s)) \<Longrightarrow> chan_receive pr ts ctx ch (cn_client s) = Some (r, c) \<Longrightarrow>
    conn_step enc pr s (ReceiveFrom ch) (s\<lparr>cn_client := c\<rparr>)"
| send: "Conn_send enc f s res s' \<Longrightarrow> conn_step enc pr s (SendFrame res) s'"
| reads: "readLoop s s' \<Longrightarrow> conn_step enc pr s ReadStep s'"
| writes: "writeLoop s s' \<Longrightarrow> conn_step enc pr s WriteStep s'"
| ctx_done: "\<not> cn_ctx_done s \<Longrightarrow> conn_step enc pr s CtxDone (s\<lparr>cn_ctx_done := True\<rparr>)"
| tear_down: "cn_read_ended s \<Longrightarrow> cn_write_ended s \<Longrightarrow> \<not> c_done (cn_client s) \<Longrightarrow>
    conn_step enc pr s Teardown (s\<lparr>cn_client := teardown (cn_client s)\<rparr>)"

inductive conn_exec ::
  "(inbound_frame \<Rightarrow> goerr + string) \<Rightarrow> 'v proto \<Rightarrow> conn_run \<Rightarrow> conn_event list \<Rightarrow> conn_run \<Rightarrow> bool" for enc and pr :: "'v proto" where
  exec_start: "conn_exec enc pr s [] s"
| exec_more: "conn_exec enc pr s tr t \<Longrightarrow> conn_step enc pr t ev u \<Longrightarrow> conn_exec enc pr s (tr @ [ev]) u"

section \<open>Bidirectional streams\<close>

text \<open>\<open>Send\<close> and \<open>Receive\<close> of \<open>clientBidiStream\<close>; they are those of the one-way streams.\<close>

definition bidi_Send ::
  "bool \<Rightarrow> 'q proto \<Rightarrow> string \<Rightarrow> stream \<Rightarrow> 'q option \<Rightarrow> client \<Rightarrow> goerr option \<times> client" where
  [go_eval]: "bidi_Send pick pr tq st msg c =
     (case marshalProto pr tq msg of
        Inl err \<Rightarrow> (Some err, c)
      | Inr data \<Rightarrow> sendMessage pick (st_sessID st) data c)"

definition bidi_Receive ::
  "'v proto \<Rightarrow> string \<Rightarrow> (goerr \<times> nat) option \<Rightarrow> stream \<Rightarrow> client \<Rightarrow> ((goerr + 'v) \<times> stream \<times> client) option" where
  [go_eval]: "bidi_Receive pr ts ctx st c =
     (case st_termErr st of
        Some err \<Rightarrow> Some (Inl err, st, c)
      | None \<Rightarrow>
          (case chan_receive pr ts ctx (st_recvCh st) c of
             None \<Rightarrow> None
           | Some (Inr res, c1) \<Rightarrow> Some (Inr res, st, c1)
           | Some (Inl err, c1) \<Rightarrow> Some (Inl err, st\<lparr>st_termErr := Some err\<rparr>, removeSession (st_sessID st) c1)))"

lemma bidi_as_one_way: "bidi_Send = stream_Send" "bidi_Receive = stream_receive"
  by (simp_all add: fun_eq_iff bidi_Send_def stream_Send_def bidi_Receive_def stream_receive_def split: option.splits sum.splits)

section \<open>Client operations\<close>

text \<open>What an operation may change, seen from the connection: never the history of sends, never a closed channel opened.\<close>

lemma newSession_state:
  "c_wire (snd (newSession c)) = c_wire c" "c_done (snd (newSession c)) = c_done c" "c_blocked (snd (newSession c)) = c_blocked c"
  "c_chans (snd (newSession c)) = c_chans c @ [\<lparr>ch_frames = [], ch_closed = False\<rparr>]"
  "c_sessions (snd (newSession c)) = map_option (\<lambda>m. m(session_id (c_nextID c + 1) \<mapsto> length (c_chans c))) (c_sessions c)"
  by (simp_all add: newSession_def Let_def)

lemma removeSession_state:
  "c_wire (removeSession sid c) = c_wire c" "c_done (removeSession sid c) = c_done c" "c_blocked (removeSession sid c) = c_blocked c"
  "c_sessions (removeSession sid c) = map_option (\<lambda>m. m(sid := None)) (c_sessions c)"
  by (simp_all add: removeSession_def)

lemma chan_receive_state:
  "chan_receive pr ts ctx ch c = Some (r, c') \<Longrightarrow> \<exists>fs. c' = c\<lparr>c_chans := (c_chans c)[ch := (c_chans c ! ch)\<lparr>ch_frames := fs\<rparr>]\<rparr>"
  by (auto simp: chan_receive_def split: option.splits)

lemma deliver_state:
  "c_wire (deliver ch f c) = c_wire c" "c_done (deliver ch f c) = c_done c" "c_sessions (deliver ch f c) = c_sessions c"
  "length (c_chans (deliver ch f c)) = length (c_chans c)"
  by (simp_all add: deliver_def)

lemma closed_flags:
  "map ch_closed (xs[i := (xs ! i)\<lparr>ch_frames := fs\<rparr>]) = map ch_closed xs"
proof (cases "i < length xs")
  case True
  then have "(map ch_closed xs)[i := ch_closed (xs ! i)] = map ch_closed xs" by (metis list_update_id nth_map)
  then show ?thesis by (simp add: map_update)
qed (simp add: list_update_beyond)

lemma deliver_closed: "map ch_closed (c_chans (deliver ch f c)) = map ch_closed (c_chans c)"
  by (simp add: deliver_def closed_flags)

lemma record_err_state [simp]:
  "c_wire (record_err e c) = c_wire c" "c_done (record_err e c) = c_done c" "c_blocked (record_err e c) = c_blocked c"
  "c_sessions (record_err e c) = c_sessions c" "c_chans (record_err e c) = c_chans c"
  by (simp_all add: record_err_def)

lemma teardown_state [simp]:
  "c_wire (teardown c) = c_wire c" "c_done (teardown c)" "c_blocked (teardown c) = c_blocked c" "c_sessions (teardown c) = None"
  "length (c_chans (teardown c)) = length (c_chans c)"
  by (simp_all add: teardown_def Let_def)

section \<open>The invariant\<close>

definition chans_open :: "client \<Rightarrow> bool" where
  "chans_open c \<longleftrightarrow> True \<notin> set (map ch_closed (c_chans c))"

text \<open>
  A connection is done when it has no sessions any more, and then both loops have ended; until then no channel is
  closed; every session has a channel of its own; a blocked read loop waits on a channel that exists.
\<close>

definition routes_ok :: "client \<Rightarrow> bool" where
  "routes_ok c \<longleftrightarrow> (\<forall>m. c_sessions c = Some m \<longrightarrow> (\<forall>ch \<in> ran m. ch < length (c_chans c)) \<and> inj_on m (dom m))
     \<and> (\<forall>ch f. c_blocked c = Some (ch, f) \<longrightarrow> ch < length (c_chans c))"

definition conn_ok :: "conn_run \<Rightarrow> bool" where
  "conn_ok s \<longleftrightarrow> (c_done (cn_client s) \<longleftrightarrow> c_sessions (cn_client s) = None)
     \<and> (c_done (cn_client s) \<longrightarrow> cn_read_ended s \<and> cn_write_ended s)
     \<and> (c_done (cn_client s) \<or> chans_open (cn_client s)) \<and> routes_ok (cn_client s)
     \<and> (cn_read_ended s \<longrightarrow> cn_ctx_done s \<and> c_blocked (cn_client s) = None) \<and> length (cn_queue s) \<le> clientWriteBuf"

lemma routes_newSession: "routes_ok c \<Longrightarrow> routes_ok (snd (newSession c))"
proof -
  assume ok: "routes_ok c"
  have "inj_on (m(k \<mapsto> length (c_chans c))) (insert k (dom m))" if "c_sessions c = Some m" for m k
  proof -
    have "m x \<noteq> Some (length (c_chans c))" for x using ok that by (auto simp: routes_ok_def ran_def)
    then show ?thesis using ok that by (auto simp: routes_ok_def inj_on_def)
  qed
  moreover have "ran (m(k \<mapsto> v)) \<subseteq> insert v (ran m)" for m :: "string \<rightharpoonup> nat" and k v by (auto simp: ran_def)
  ultimately show ?thesis
    using ok by (fastforce simp: routes_ok_def newSession_state less_Suc_eq)
qed

lemma routes_removeSession: "routes_ok c \<Longrightarrow> routes_ok (removeSession sid c)"
proof -
  assume ok: "routes_ok c"
  have "ran (m(sid := None)) \<subseteq> ran m" for m :: "string \<rightharpoonup> nat" by (auto simp: ran_def)
  moreover have "inj_on (m(sid := None)) (dom m - {sid})" if "c_sessions c = Some m" for m
    using ok that by (auto simp: routes_ok_def inj_on_def)
  ultimately show ?thesis using ok by (fastforce simp: routes_ok_def removeSession_state)
qed

lemma routes_deliver:
  assumes "routes_ok c" and "ch < length (c_chans c)"
  shows "routes_ok (deliver ch f c)"
  using assms by (auto simp: routes_ok_def deliver_def)

lemma client_read_cases:
  assumes "routes_ok c"
  shows "client_read f c = c \<or> (\<exists>ch. ch < length (c_chans c) \<and> client_read f c = deliver ch f c)"
proof (cases "Option.bind (c_sessions c) (\<lambda>m. m (out_ID f))")
  case None
  then show ?thesis by (auto simp: client_read_def split: option.splits)
next
  case (Some ch)
  then obtain m where m: "c_sessions c = Some m" "m (out_ID f) = Some ch" by (auto simp: bind_eq_Some_conv)
  then have "ch \<in> ran m" by (intro ranI)
  with m assms show ?thesis by (auto simp: client_read_def routes_ok_def)
qed

lemma conn_ok_deliver:
  assumes "conn_ok s" and "\<not> cn_read_ended s" and "ch < length (c_chans (cn_client s))"
  shows "conn_ok (s\<lparr>cn_client := deliver ch f (cn_client s)\<rparr>)"
  using assms routes_deliver[of "cn_client s" ch f]
  by (auto simp: conn_ok_def deliver_state chans_open_def deliver_closed simp del: set_map)

lemma conn_ok_step [inv_intros]:
  assumes "conn_ok s" and "conn_step enc pr s ev s'"
  shows "conn_ok s'"
  using assms(2)
proof cases
  case new_session
  with assms(1) routes_newSession[of "cn_client s"] show ?thesis
    by (auto simp: conn_ok_def newSession_state chans_open_def)
next
  case (remove_session sid)
  with assms(1) routes_removeSession[of "cn_client s"] show ?thesis
    by (auto simp: conn_ok_def removeSession_state chans_open_def)
next
  case (receive ch ts ctx r c)
  from chan_receive_state[OF receive(4)] obtain fs where
    "c = cn_client s\<lparr>c_chans := (c_chans (cn_client s))[ch := (c_chans (cn_client s) ! ch)\<lparr>ch_frames := fs\<rparr>]\<rparr>" by blast
  with receive(2) assms(1) show ?thesis
    by (auto simp: conn_ok_def chans_open_def closed_flags routes_ok_def simp del: set_map)
next
  case (send f res)
  from send(2) assms(1) show ?thesis
    by cases (auto simp: conn_ok_def client_send_def chans_open_def routes_ok_def)
next
  case reads
  from reads(2) show ?thesis
  proof cases
    case (read_frame f)
    have "routes_ok (cn_client s)" using assms(1) by (simp add: conn_ok_def)
    from client_read_cases[OF this, of f] show ?thesis
    proof
      assume "client_read f (cn_client s) = cn_client s"
      with read_frame assms(1) show ?thesis by simp
    next
      assume "\<exists>ch. ch < length (c_chans (cn_client s)) \<and> client_read f (cn_client s) = deliver ch f (cn_client s)"
      with read_frame conn_ok_deliver[OF assms(1), of _ f] show ?thesis by auto
    qed
  next
    case (read_goes_on ch f)
    then have "ch < length (c_chans (cn_client s))" using assms(1) by (auto simp: conn_ok_def routes_ok_def)
    with conn_ok_deliver[OF assms(1), of ch f] read_goes_on show ?thesis by (simp add: client_unblock_def)
  qed (use assms(1) in \<open>auto simp: conn_ok_def chans_open_def routes_ok_def\<close>)
next
  case writes
  from writes(2) assms(1) show ?thesis by cases (auto simp: conn_ok_def chans_open_def routes_ok_def)
qed (use assms(1) in \<open>auto simp: conn_ok_def routes_ok_def\<close>)

lemma conn_ok_start: "conn_ok start_conn"
  by (simp add: conn_ok_def start_conn_def NewConn_def chans_open_def routes_ok_def)

lemma conn_exec_ok: "conn_exec enc pr s tr t \<Longrightarrow> conn_ok s \<Longrightarrow> conn_ok t"
  by (induction rule: conn_exec.induct) (auto intro: conn_ok_step)

section \<open>Frames on the wire\<close>

definition accepted :: "(inbound_frame \<Rightarrow> goerr + string) \<Rightarrow> conn_run \<Rightarrow> string list" where
  "accepted enc s = List.map_filter (\<lambda>f. case enc f of Inr d \<Rightarrow> Some d | Inl e \<Rightarrow> None) (c_wire (cn_client s))"

definition out_ok :: "(inbound_frame \<Rightarrow> goerr + string) \<Rightarrow> conn_run \<Rightarrow> bool" where
  "out_ok enc s \<longleftrightarrow> cn_out s @ cn_queue s = accepted enc s
     \<or> (cn_write_ended s \<and> (\<exists>d. cn_out s @ d # cn_queue s = accepted enc s))"

lemma read_keeps_wire: "readLoop s s' \<Longrightarrow> c_wire (cn_client s') = c_wire (cn_client s) \<and> cn_out s' = cn_out s \<and> cn_queue s' = cn_queue s
    \<and> cn_write_ended s' = cn_write_ended s"
  by (erule readLoop.cases) (auto simp: client_read_def client_unblock_def deliver_state split: option.splits)

lemma out_ok_same:
  "c_wire (cn_client s') = c_wire (cn_client s) \<Longrightarrow> cn_out s' = cn_out s \<Longrightarrow> cn_queue s' = cn_queue s \<Longrightarrow> cn_write_ended s' = cn_write_ended s
   \<Longrightarrow> out_ok enc s' = out_ok enc s"
  by (simp add: out_ok_def accepted_def)

lemma out_ok_step [inv_intros]:
  assumes "out_ok enc s" and "conn_step enc pr s ev s'"
  shows "out_ok enc s'"
  using assms(2)
proof cases
  case (receive ch ts ctx r c)
  from chan_receive_state[OF receive(4)] have "c_wire c = c_wire (cn_client s)" by auto
  with receive(2) assms(1) out_ok_same[of s' s enc] show ?thesis by simp
next
  case (send f res)
  from send(2) show ?thesis
  proof cases
    case (send_queued d)
    then have "accepted enc s' = accepted enc s @ [d]" by (simp add: accepted_def map_filter_def client_send_def)
    with assms(1) send_queued show ?thesis by (auto simp: out_ok_def)
  qed (use assms(1) in simp_all)
next
  case reads
  with read_keeps_wire[OF reads(2)] assms(1) out_ok_same[of s' s enc] show ?thesis by simp
next
  case writes
  from writes(2) assms(1) show ?thesis by cases (auto simp: out_ok_def accepted_def)
qed (use assms(1) in \<open>simp_all add: out_ok_def accepted_def newSession_state removeSession_state\<close>)

lemma conn_exec_out: "conn_exec enc pr s tr t \<Longrightarrow> out_ok enc s \<Longrightarrow> out_ok enc t"
  by (induction rule: conn_exec.induct) (auto intro: out_ok_step)

section \<open>A blocked read loop\<close>

text \<open>
  The read loop waits on the full channel \<open>ch\<close> while the context lives; \<open>others\<close> holds for the channels of other
  sessions that have got nothing since.
\<close>

definition waits_on :: "nat \<Rightarrow> conn_run \<Rightarrow> bool" where
  [go_eval]: "waits_on ch s \<longleftrightarrow> \<not> cn_read_ended s \<and> \<not> cn_ctx_done s \<and> ch < length (c_chans (cn_client s))
     \<and> recvBuf \<le> length (ch_frames (c_chans (cn_client s) ! ch)) \<and> map_option fst (c_blocked (cn_client s)) = Some ch"

definition only_shrinks :: "channel list \<Rightarrow> channel list \<Rightarrow> bool" where
  "only_shrinks xs ys \<longleftrightarrow> length xs \<le> length ys \<and> (\<forall>i < length xs. length (ch_frames (ys ! i)) \<le> length (ch_frames (xs ! i)))
     \<and> (\<forall>i < length ys. length xs \<le> i \<longrightarrow> ch_frames (ys ! i) = [])"

lemma receiveResponse_shrinks:
  "receiveResponse pr ts ctx ce cl fs = Some (r, fs') \<Longrightarrow> length fs' \<le> length fs"
  by (induction pr ts ctx ce cl fs rule: receiveResponse.induct) (auto simp: receiveResponse.simps split: option.splits if_splits)

lemma chan_receive_shrinks:
  assumes "chan_receive pr ts ctx ch c = Some (r, c')"
  shows "only_shrinks (c_chans c) (c_chans c') \<and> (\<forall>i. i \<noteq> ch \<longrightarrow> c_chans c' ! i = c_chans c ! i) \<and> c_blocked c' = c_blocked c"
proof -
  obtain fs where fs: "receiveResponse pr ts ctx (closeErr c) (ch_closed (c_chans c ! ch)) (ch_frames (c_chans c ! ch)) = Some (r, fs)"
    "c' = c\<lparr>c_chans := (c_chans c)[ch := (c_chans c ! ch)\<lparr>ch_frames := fs\<rparr>]\<rparr>"
    using assms by (auto simp: chan_receive_def split: option.splits)
  from receiveResponse_shrinks[OF fs(1)] fs(2) show ?thesis
    by (cases "ch < length (c_chans c)") (auto simp: only_shrinks_def nth_list_update list_update_beyond)
qed

lemma only_shrinks_refl: "only_shrinks xs xs"
  by (simp add: only_shrinks_def)

lemma only_shrinks_trans:
  assumes "only_shrinks xs ys" and "only_shrinks ys zs"
  shows "only_shrinks xs zs"
proof -
  have "length (ch_frames (zs ! i)) \<le> length (ch_frames (xs ! i))" if "i < length xs" for i
    using assms that by (meson only_shrinks_def order_trans less_le_trans)
  moreover have "ch_frames (zs ! i) = []" if "i < length zs" "length xs \<le> i" for i
  proof (cases "i < length ys")
    case True
    with assms that have "length (ch_frames (zs ! i)) \<le> length (ch_frames (ys ! i))" "ch_frames (ys ! i) = []"
      by (auto simp: only_shrinks_def)
    then show ?thesis by simp
  next
    case False
    with assms(2) that(1) show ?thesis by (simp add: only_shrinks_def)
  qed
  ultimately show ?thesis using assms by (auto simp: only_shrinks_def)
qed

lemma starved_step:
  assumes "waits_on ch s" and "conn_step enc pr s ev s'" and "ev \<noteq> CtxDone" and "ev \<noteq> ReceiveFrom ch"
  shows "waits_on ch s' \<and> ev \<noteq> ReadStep \<and> ev \<noteq> Teardown \<and> only_shrinks (c_chans (cn_client s)) (c_chans (cn_client s'))"
  using assms(2)
proof cases
  case new_session
  with assms(1) show ?thesis by (auto simp: waits_on_def newSession_state only_shrinks_def nth_append less_Suc_eq)
next
  case (receive i ts ctx r c)
  with chan_receive_shrinks[OF receive(4)] chan_receive_state[OF receive(4)] assms(1,4) show ?thesis
    by (auto simp: waits_on_def nth_list_update)
next
  case (send f res)
  from send(2) show ?thesis by cases (use assms(1) send in \<open>auto simp: waits_on_def client_send_def only_shrinks_refl\<close>)
next
  case reads
  from reads(2) assms(1) show ?thesis by cases (auto simp: waits_on_def)
next
  case writes
  from writes(2) show ?thesis by cases (use assms(1) writes in \<open>auto simp: waits_on_def only_shrinks_refl\<close>)
qed (use assms in \<open>auto simp: waits_on_def removeSession_state only_shrinks_refl\<close>)

lemma starved_exec:
  assumes "conn_exec enc pr s tr t" and "waits_on ch s" and "CtxDone \<notin> set tr" and "ReceiveFrom ch \<notin> set tr"
  shows "waits_on ch t \<and> ReadStep \<notin> set tr \<and> Teardown \<notin> set tr \<and> only_shrinks (c_chans (cn_client s)) (c_chans (cn_client t))"
  using assms
proof (induction rule: conn_exec.induct)
  case (exec_more s tr t ev u)
  then have "waits_on ch t" by simp
  from starved_step[OF this exec_more.hyps(2)] exec_more show ?case by (auto intro: only_shrinks_trans)
qed (simp add: only_shrinks_refl)

section \<open>The end of a connection\<close>

definition loops_left :: "conn_run \<Rightarrow> nat" where
  [go_eval]: "loops_left s = (if cn_read_ended s then 0 else 1) + (if cn_write_ended s then 0 else 1) + (if c_done (cn_client s) then 0 else 1)"

lemma conn_exec_append: "conn_exec enc pr t tr' u \<Longrightarrow> conn_exec enc pr s tr t \<Longrightarrow> conn_exec enc pr s (tr @ tr') u"
proof (induction rule: conn_exec.induct)
  case (exec_more t tr' u ev v)
  from conn_exec.exec_more[OF exec_more.IH[OF exec_more.prems] exec_more.hyps(2)] show ?case by simp
qed simp

lemma loop_can_end:
  assumes "conn_ok s" and "cn_ctx_done s" and "\<not> c_done (cn_client s)"
  shows "\<exists>ev t. ev \<in> {ReadStep, WriteStep, Teardown} \<and> conn_step enc pr s ev t \<and> cn_ctx_done t \<and> Suc (loops_left t) = loops_left s"
proof -
  consider "\<not> cn_read_ended s" | "\<not> cn_write_ended s" | "cn_read_ended s" "cn_write_ended s" by blast
  then show ?thesis
  proof cases
    case 1
    from conn_step.reads[OF readLoop.read_stops[OF this assms(2)]] 1 assms(2,3) show ?thesis
      by (intro exI[of _ ReadStep] exI[of _ "s\<lparr>cn_client := (cn_client s)\<lparr>c_blocked := None\<rparr>, cn_read_ended := True\<rparr>"]) (simp add: loops_left_def)
  next
    case 2
    from conn_step.writes[OF writeLoop.write_stops[OF this assms(2)]] 2 assms(2,3) show ?thesis
      by (intro exI[of _ WriteStep] exI[of _ "s\<lparr>cn_write_ended := True\<rparr>"]) (simp add: loops_left_def)
  next
    case 3
    from conn_step.tear_down[OF this assms(3)] 3 assms(2,3) show ?thesis
      by (intro exI[of _ Teardown] exI[of _ "s\<lparr>cn_client := teardown (cn_client s)\<rparr>"]) (simp add: loops_left_def)
  qed
qed

lemma conn_can_end:
  assumes "conn_ok s" and "cn_ctx_done s"
  shows "\<exists>tr t. set tr \<subseteq> {ReadStep, WriteStep, Teardown} \<and> length tr \<le> loops_left s \<and> conn_exec enc pr s tr t \<and> c_done (cn_client t)"
  using assms
proof (induction "loops_left s" arbitrary: s rule: less_induct)
  case less
  show ?case
  proof (cases "c_done (cn_client s)")
    case True
    with conn_exec.exec_start show ?thesis by (intro exI[of _ "[]"] exI[of _ s]) simp
  next
    case False
    then obtain ev t where t: "ev \<in> {ReadStep, WriteStep, Teardown}" "conn_step enc pr s ev t" "cn_ctx_done t" "Suc (loops_left t) = loops_left s"
      using loop_can_end[OF less.prems] by blast
    from t(4) have "loops_left t < loops_left s" by simp
    from less.hyps[OF this conn_ok_step[OF less.prems(1) t(2)] t(3)] obtain tr u where
      u: "set tr \<subseteq> {ReadStep, WriteStep, Teardown}" "length tr \<le> loops_left t" "conn_exec enc pr t tr u" "c_done (cn_client u)" by blast
    from conn_exec_append[OF u(3) conn_exec.exec_more[OF conn_exec.exec_start t(2)]] have "conn_exec enc pr s (ev # tr) u" by simp
    with t(1,4) u show ?thesis by (intro exI[of _ "ev # tr"] exI[of _ u]) auto
  qed
qed

section \<open>Properties\<close>

text \<open>
  What a client hands to its connection reaches the server in order: at every moment what was written and what
  is queued are exactly the accepted frames, encoded, but for the one frame whose write failed and with which
  the write loop ended; at most 64 are queued.
\<close>

theorem client_wire_in_order:
  assumes "conn_exec enc pr start_conn tr s"
  shows "(cn_out s @ cn_queue s = accepted enc s \<or> (cn_write_ended s \<and> (\<exists>d. cn_out s @ d # cn_queue s = accepted enc s)))
    \<and> length (cn_queue s) \<le> 64"
proof -
  have "out_ok enc start_conn" by (simp add: out_ok_def accepted_def start_conn_def NewConn_def map_filter_simps)
  from conn_exec_out[OF assms this] conn_exec_ok[OF assms conn_ok_start] show ?thesis
    by (auto simp: out_ok_def conn_ok_def clientWriteBuf_def)
qed

text \<open>
  C38. The client never sends on a closed channel and closes none twice: in every reachable state in which the read loop
  still runs, and until the teardown, no channel is closed, and no two sessions share a channel.
\<close>

theorem client_never_panics:
  assumes "conn_exec enc pr start_conn tr s"
  shows "(c_done (cn_client s) \<and> cn_read_ended s \<and> cn_write_ended s \<and> c_sessions (cn_client s) = None)
    \<or> (True \<notin> set (map ch_closed (c_chans (cn_client s))) \<and> (\<exists>m. c_sessions (cn_client s) = Some m \<and> inj_on m (dom m)))"
  using conn_exec_ok[OF assms conn_ok_start] by (auto simp: conn_ok_def chans_open_def routes_ok_def)

text \<open>
  C39. The end of the context ends a connection: from every reachable state in which it has ended, the loops can stop and
  the connection be torn down in at most three steps of its own, whatever the callers do or fail to do.
\<close>

theorem client_ends_with_context:
  assumes "conn_exec enc pr start_conn tr s" and "cn_ctx_done s"
  shows "\<exists>tr' t. set tr' \<subseteq> {ReadStep, WriteStep, Teardown} \<and> length tr' \<le> 3 \<and> conn_exec enc pr s tr' t \<and> c_done (cn_client t)"
proof -
  obtain tr' t where "set tr' \<subseteq> {ReadStep, WriteStep, Teardown}" "length tr' \<le> loops_left s" "conn_exec enc pr s tr' t" "c_done (cn_client t)"
    using conn_can_end[OF conn_exec_ok[OF assms(1) conn_ok_start] assms(2)] by blast
  moreover have "loops_left s \<le> 3" by (simp add: loops_left_def)
  ultimately show ?thesis by (intro exI[of _ tr'] exI[of _ t]) auto
qed

text \<open>
  C6. One session can stop all the others: while the read loop waits on the full channel of a session from which
  nobody receives, and the context has not ended, the loop takes no step, the connection is not torn down, and
  no session gets a frame, whatever all other callers do.
\<close>

theorem client_read_loop_starves:
  assumes "conn_exec enc pr s tr t" and "waits_on ch s" and "CtxDone \<notin> set tr" and "ReceiveFrom ch \<notin> set tr"
  shows "waits_on ch t \<and> ReadStep \<notin> set tr \<and> Teardown \<notin> set tr
    \<and> only_shrinks (c_chans (cn_client s)) (c_chans (cn_client t))"
  using starved_exec[OF assms] .


section \<open>Witnesses\<close>

definition type_of_frame :: "inbound_frame \<Rightarrow> goerr + string" where
  [go_eval]: "type_of_frame f = Inr (in_Type f)"

definition closing :: conn_run where
  [go_eval]: "closing = start_conn\<lparr>cn_queue := [''close''], cn_client := NewConn\<lparr>c_wire := [plain_frame frameTypeClose ''s-1'']\<rparr>\<rparr>"

lemma run_closing: "conn_exec type_of_frame example_proto start_conn [SendFrame None] closing"
proof -
  have "Conn_send type_of_frame (plain_frame frameTypeClose ''s-1'') start_conn None closing"
    using Conn_send.send_queued[of type_of_frame "plain_frame frameTypeClose ''s-1''" "''close''" start_conn] by (simp add: go_eval)
  from conn_exec.exec_more[OF conn_exec.exec_start conn_step.send[OF this]] show ?thesis by simp
qed

theorem client_wire_in_order_witness:
  "cn_out closing @ cn_queue closing = accepted type_of_frame closing \<and> length (cn_queue closing) = 1"
  using client_wire_in_order[OF run_closing] by (simp add: closing_def start_conn_def)

theorem client_never_panics_witness: "True \<notin> set (map ch_closed (c_chans (cn_client closing)))"
  using client_never_panics[OF run_closing] by (simp add: closing_def start_conn_def NewConn_def)

theorem client_ends_with_context_witness:
  "\<exists>tr t. set tr \<subseteq> {ReadStep, WriteStep, Teardown} \<and> length tr \<le> 3
    \<and> conn_exec type_of_frame example_proto (start_conn\<lparr>cn_ctx_done := True\<rparr>) tr t \<and> c_done (cn_client t)"
proof -
  have "conn_step type_of_frame example_proto start_conn CtxDone (start_conn\<lparr>cn_ctx_done := True\<rparr>)"
    by (rule conn_step.ctx_done) (simp add: start_conn_def)
  from client_ends_with_context[OF conn_exec.exec_more[OF conn_exec.exec_start this]] show ?thesis by simp
qed

text \<open>A session that got 64 frames and one more, and was then removed by its caller.\<close>

definition one_session :: "nat \<Rightarrow> client" where
  [go_eval]: "one_session n = NewConn\<lparr>c_sessions := Some [''s-1'' \<mapsto> 0], c_nextID := 1,
     c_chans := [\<lparr>ch_frames = replicate n (message_frame ''s-1'' ''x''), ch_closed = False\<rparr>]\<rparr>"

definition stuck :: conn_run where
  [go_eval]: "stuck = start_conn\<lparr>cn_client := (one_session 64)\<lparr>c_sessions := Some Map.empty, c_blocked := Some (0, message_frame ''s-1'' ''x'')\<rparr>\<rparr>"

lemma one_session_read: "n < 64 \<Longrightarrow> client_read (message_frame ''s-1'' ''x'') (one_session n) = one_session (Suc n)"
  by (simp add: client_read_def one_session_def message_frame_def deliver_def recvBuf_def NewConn_def replicate_append_same)

lemma run_one_session: "n \<le> 64 \<Longrightarrow>
    conn_exec type_of_frame example_proto start_conn (NewSession # replicate n ReadStep) (start_conn\<lparr>cn_client := one_session n\<rparr>)"
proof (induction n)
  case 0
  have "session_id 1 = ''s-1''" by code_simp
  then have "snd (newSession NewConn) = one_session 0" by (simp add: newSession_def NewConn_def one_session_def Let_def)
  with conn_exec.exec_more[OF conn_exec.exec_start conn_step.new_session, of type_of_frame example_proto start_conn] show ?case
    by (simp add: start_conn_def)
next
  case (Suc n)
  let ?s = "start_conn\<lparr>cn_client := one_session n\<rparr>"
  have "readLoop ?s (?s\<lparr>cn_client := client_read (message_frame ''s-1'' ''x'') (cn_client ?s)\<rparr>)"
    by (rule readLoop.read_frame) (simp_all add: start_conn_def one_session_def NewConn_def)
  with one_session_read[of n] Suc.prems have "readLoop ?s (start_conn\<lparr>cn_client := one_session (Suc n)\<rparr>)" by simp
  from conn_exec.exec_more[OF Suc.IH conn_step.reads[OF this]] Suc.prems show ?case by (simp add: replicate_append_same)
qed

lemma run_stuck: "conn_exec type_of_frame example_proto start_conn (NewSession # replicate 64 ReadStep @ [ReadStep, RemoveSession ''s-1'']) stuck"
proof -
  let ?s = "start_conn\<lparr>cn_client := one_session 64\<rparr>" and ?f = "message_frame ''s-1'' ''x''"
  have "readLoop ?s (?s\<lparr>cn_client := client_read ?f (cn_client ?s)\<rparr>)"
    by (rule readLoop.read_frame) (simp_all add: start_conn_def one_session_def NewConn_def)
  moreover have "client_read ?f (one_session 64) = (one_session 64)\<lparr>c_blocked := Some (0, ?f)\<rparr>"
    by (simp add: client_read_def one_session_def message_frame_def deliver_def recvBuf_def NewConn_def)
  ultimately have "readLoop ?s (?s\<lparr>cn_client := (one_session 64)\<lparr>c_blocked := Some (0, ?f)\<rparr>\<rparr>)" by simp
  from conn_exec.exec_more[OF conn_exec.exec_more[OF run_one_session[of 64] conn_step.reads[OF this]] conn_step.remove_session[of _ _ _ "''s-1''"]]
  have "conn_exec type_of_frame example_proto start_conn (((NewSession # replicate 64 ReadStep) @ [ReadStep]) @ [RemoveSession ''s-1''])
      (?s\<lparr>cn_client := removeSession ''s-1'' ((one_session 64)\<lparr>c_blocked := Some (0, ?f)\<rparr>)\<rparr>)" by simp
  moreover have "?s\<lparr>cn_client := removeSession ''s-1'' ((one_session 64)\<lparr>c_blocked := Some (0, ?f)\<rparr>)\<rparr> = stuck"
    by (simp add: stuck_def removeSession_def one_session_def)
  ultimately show ?thesis by simp
qed

theorem client_read_loop_starves_witness:
  "\<exists>tr t. conn_exec type_of_frame example_proto start_conn tr stuck \<and> c_sessions (cn_client stuck) = Some Map.empty
    \<and> conn_exec type_of_frame example_proto stuck [NewSession] t \<and> waits_on 0 t"
proof -
  from conn_exec.exec_more[OF conn_exec.exec_start conn_step.new_session]
  have run: "conn_exec type_of_frame example_proto stuck [NewSession] (stuck\<lparr>cn_client := snd (newSession (cn_client stuck))\<rparr>)" by simp
  have "waits_on 0 stuck" by (simp add: waits_on_def stuck_def start_conn_def one_session_def NewConn_def recvBuf_def)
  from client_read_loop_starves[OF run this] run run_stuck show ?thesis by (auto simp: stuck_def)
qed


end
