(* ===== verification/WsNet.thy ===== *)
theory WsNet imports WsServe WsConn begin

text \<open>
  A client connection and a server connection joined by a network: what the write loop of \<open>WsConn\<close> has written is
  read, in order, by the read loop of \<open>WsServe\<close>, and what the writer of \<open>WsServe\<close> has written is read by the read
  loop of \<open>WsConn\<close>. Every goroutine of both sides interleaves with every other. The encodings of frames and their
  decoders are parameters; bytes that do not decode are skipped, as the read loops do.
\<close>

section \<open>The composition\<close>

text \<open>\<open>nt_up\<close> and \<open>nt_down\<close> count the messages of either direction that have been read.\<close>

record net =
  nt_client :: conn_run
  nt_server :: serve_state
  nt_up :: nat
  nt_down :: nat

record wire_codec =
  wc_enc_in :: "inbound_frame \<Rightarrow> goerr + string"
  wc_dec_in :: "string \<Rightarrow> inbound_frame option"
  wc_enc_out :: "outbound_frame \<Rightarrow> string option"
  wc_dec_out :: "string \<Rightarrow> outbound_frame option"

definition net_start :: net where
  [go_eval]: "net_start = \<lparr>nt_client = start_conn, nt_server = serve_init init_server, nt_up = 0, nt_down = 0\<rparr>"

text \<open>\<open>ClientRead f\<close> and \<open>ServerStep (Act (In f))\<close> are the reads; the other steps are those of one side.\<close>

datatype net_event = ClientStep conn_event | ClientRead outbound_frame | ServerStep serve_event | SkipUp | SkipDown

inductive net_step :: "server_cfg \<Rightarrow> wire_codec \<Rightarrow> 'v proto \<Rightarrow> net \<Rightarrow> net_event \<Rightarrow> net \<Rightarrow> bool" for cfg wc and pr :: "'v proto" where
  client_acts: "conn_step (wc_enc_in wc) pr (nt_client n) ev c \<Longrightarrow> ev \<noteq> ReadStep \<Longrightarrow>
    net_step cfg wc pr n (ClientStep ev) (n\<lparr>nt_client := c\<rparr>)"
| client_loop: "readLoop (nt_client n) c \<Longrightarrow> cn_read_ended c \<or> c_blocked (cn_client (nt_client n)) \<noteq> None \<Longrightarrow>
    net_step cfg wc pr n (ClientStep ReadStep) (n\<lparr>nt_client := c\<rparr>)"
| client_reads: "\<not> cn_read_ended (nt_client n) \<Longrightarrow> c_blocked (cn_client (nt_client n)) = None \<Longrightarrow>
    nt_down n < length (sv_wire (nt_server n)) \<Longrightarrow> wc_dec_out wc (sv_wire (nt_server n) ! nt_down n) = Some f \<Longrightarrow>
    net_step cfg wc pr n (ClientRead f)
      (n\<lparr>nt_client := (nt_client n)\<lparr>cn_client := client_read f (cn_client (nt_client n))\<rparr>, nt_down := nt_down n + 1\<rparr>)"
| client_skips: "\<not> cn_read_ended (nt_client n) \<Longrightarrow> c_blocked (cn_client (nt_client n)) = None \<Longrightarrow>
    nt_down n < length (sv_wire (nt_server n)) \<Longrightarrow> wc_dec_out wc (sv_wire (nt_server n) ! nt_down n) = None \<Longrightarrow>
    net_step cfg wc pr n SkipDown (n\<lparr>nt_down := nt_down n + 1\<rparr>)"
| server_acts: "serve_step cfg (wc_enc_out wc) (nt_server n) ev s \<Longrightarrow> (\<And>f. ev \<noteq> Act (In f)) \<Longrightarrow>
    net_step cfg wc pr n (ServerStep ev) (n\<lparr>nt_server := s\<rparr>)"
| server_reads: "nt_up n < length (cn_out (nt_client n)) \<Longrightarrow> wc_dec_in wc (cn_out (nt_client n) ! nt_up n) = Some f \<Longrightarrow>
    serve_step cfg (wc_enc_out wc) (nt_server n) (Act (In f)) s \<Longrightarrow>
    net_step cfg wc pr n (ServerStep (Act (In f))) (n\<lparr>nt_server := s, nt_up := nt_up n + 1\<rparr>)"
| server_skips: "nt_up n < length (cn_out (nt_client n)) \<Longrightarrow> wc_dec_in wc (cn_out (nt_client n) ! nt_up n) = None \<Longrightarrow>
    sv_phase (nt_server n) = Reading \<Longrightarrow> net_step cfg wc pr n SkipUp (n\<lparr>nt_up := nt_up n + 1\<rparr>)"

inductive net_run :: "server_cfg \<Rightarrow> wire_codec \<Rightarrow> 'v proto \<Rightarrow> net \<Rightarrow> net_event list \<Rightarrow> net \<Rightarrow> bool" for cfg wc and pr :: "'v proto" where
  net_begin: "net_run cfg wc pr n [] n"
| net_more: "net_run cfg wc pr n tr t \<Longrightarrow> net_step cfg wc pr t ev u \<Longrightarrow> net_run cfg wc pr n (tr @ [ev]) u"

section \<open>What each side read\<close>

definition server_trace :: "net_event list \<Rightarrow> event list" where
  "server_trace tr = List.map_filter (\<lambda>e. case e of ServerStep (Act ev) \<Rightarrow> Some ev | _ \<Rightarrow> None) tr"

definition read_by_server :: "event list \<Rightarrow> inbound_frame list" where
  "read_by_server tr = List.map_filter (\<lambda>e. case e of In f \<Rightarrow> Some f | _ \<Rightarrow> None) tr"

definition read_by_client :: "net_event list \<Rightarrow> outbound_frame list" where
  "read_by_client tr = List.map_filter (\<lambda>e. case e of ClientRead f \<Rightarrow> Some f | _ \<Rightarrow> None) tr"

text \<open>The payloads of the message frames of a session.\<close>

definition payloads_of :: "string \<Rightarrow> inbound_frame list \<Rightarrow> string list" where
  [go_eval]: "payloads_of sid fs = map in_Payload (filter (\<lambda>f. in_ID f = sid \<and> in_Type f = frameTypeMessage) fs)"

definition buffered :: "string \<Rightarrow> server \<Rightarrow> string list" where
  [go_eval]: "buffered sid s = (case sessions s sid of None \<Rightarrow> [] | Some sess \<Rightarrow> si_recvCh sess)"

lemma map_filter_snoc: "List.map_filter g (xs @ [x]) = List.map_filter g xs @ (case g x of None \<Rightarrow> [] | Some y \<Rightarrow> [y])"
  by (simp add: map_filter_def split: option.splits)

lemma subseq_map_filter: "subseq xs ys \<Longrightarrow> subseq (List.map_filter g xs) (List.map_filter g ys)"
  by (induction rule: list_emb.induct) (auto simp: map_filter_simps split: option.splits)

lemma payloads_snoc: "payloads_of sid (fs @ [f]) = payloads_of sid fs @ (if in_ID f = sid \<and> in_Type f = frameTypeMessage then [in_Payload f] else [])"
  by (simp add: payloads_of_def)

text \<open>One step of the session machine: what is received and buffered for a session comes from what was read.\<close>

lemma buffered_frame:
  assumes "readFrame cfg f s = Some s'"
  shows "buffered sid s' = buffered sid s
    \<or> (in_ID f = sid \<and> in_Type f = frameTypeMessage \<and> buffered sid s' = buffered sid s @ [in_Payload f])"
proof (cases "sessions s sid")
  case None
  with assms show ?thesis
    by (auto simp: buffered_def readFrame_def handleOpen_def startSession_def handleMessage_def handleClose_def handleCancel_def
        new_session_def split: if_splits option.splits)
next
  case (Some sess)
  from readFrame_session[OF assms Some] Some show ?thesis by (auto simp: buffered_def safeCloseRecvCh_def)
qed

lemma received_from_read:
  assumes "subseq (received sid tr @ buffered sid s) (payloads_of sid (read_by_server tr))" and "server_step cfg s ev s'"
  shows "subseq (received sid (tr @ [ev]) @ buffered sid s') (payloads_of sid (read_by_server (tr @ [ev])))"
  using assms(2)
proof cases
  case (frame f)
  have "read_by_server (tr @ [ev]) = read_by_server tr @ [f]" by (simp add: frame(1) read_by_server_def map_filter_snoc)
  moreover have "received sid (tr @ [ev]) = received sid tr" by (simp add: frame(1) received_snoc)
  ultimately show ?thesis
    using buffered_frame[OF frame(2), of sid] assms(1) subseq_snoc[OF assms(1), of "in_Payload f"]
    by (auto simp: payloads_snoc intro: list_emb_append2)
next
  case (handler_return i)
  have "received sid (tr @ [ev]) = received sid tr" "read_by_server (tr @ [ev]) = read_by_server tr"
    by (simp_all add: handler_return(1) received_snoc read_by_server_def map_filter_snoc)
  moreover have "subseq (received sid tr) (received sid tr @ buffered sid s)" by (rule prefix_imp_subseq) simp
  ultimately show ?thesis
    using assms(1) handler_return(2) subseq_order.trans[of "received sid tr"] by (auto simp: buffered_def)
qed (use assms(1) in \<open>auto simp: buffered_def received_snoc read_by_server_def map_filter_snoc srv_write_def\<close>)

section \<open>The invariant\<close>

lemma conn_out_grows: "conn_step enc pr s ev s' \<Longrightarrow> \<exists>ds. cn_out s' = cn_out s @ ds"
proof (erule conn_step.cases)
  fix t u assume "s = t" "s' = u" "readLoop t u"
  with read_keeps_wire[of t u] show ?thesis by auto
qed (auto elim!: Conn_send.cases writeLoop.cases)

lemma serve_wire_grows: "serve_step cfg enc s ev s' \<Longrightarrow> \<exists>ds. sv_wire s' = sv_wire s @ ds"
proof (erule serve_step.cases)
  fix t e srv f u assume "s = t" "s' = u\<lparr>sv_srv := srv\<rparr>" "serve_writeFn enc f t u"
  with serve_writeFn_state[of enc f t u] show ?thesis by auto
qed (auto elim!: runWriter.cases)

lemma serve_step_srv: "serve_step cfg enc s ev s' \<Longrightarrow>
    (case ev of Act e \<Rightarrow> server_step cfg (sv_srv s) e (sv_srv s') | ReadEnd \<Rightarrow> sv_srv s' = closeAllSessions (sv_srv s) | _ \<Rightarrow> sv_srv s' = sv_srv s)"
  by (erule serve_step.cases) (auto elim!: runWriter.cases)

lemma net_client_step: "net_step cfg wc pr n ev u \<Longrightarrow> nt_client u = nt_client n \<or> (\<exists>e. conn_step (wc_enc_in wc) pr (nt_client n) e (nt_client u))"
proof (erule net_step.cases)
  fix m f
  assume "n = m" "u = m\<lparr>nt_client := (nt_client m)\<lparr>cn_client := client_read f (cn_client (nt_client m))\<rparr>, nt_down := nt_down m + 1\<rparr>"
    "\<not> cn_read_ended (nt_client m)" "c_blocked (cn_client (nt_client m)) = None"
  with conn_step.reads[OF readLoop.read_frame[of "nt_client m" f], of "wc_enc_in wc" pr] show ?thesis by auto
qed (auto intro: conn_step.reads)

lemma net_server_step: "net_step cfg wc pr n ev u \<Longrightarrow> (nt_server u = nt_server n \<and> (\<forall>e. ev \<noteq> ServerStep e))
    \<or> (\<exists>e. ev = ServerStep e \<and> serve_step cfg (wc_enc_out wc) (nt_server n) e (nt_server u))"
  by (erule net_step.cases) auto

text \<open>What was read is what was written, decoded, up to the count; what a handler got was read.\<close>

definition net_ok :: "wire_codec \<Rightarrow> string \<Rightarrow> net_event list \<Rightarrow> net \<Rightarrow> bool" where
  "net_ok wc sid tr n \<longleftrightarrow> out_ok (wc_enc_in wc) (nt_client n) \<and> wire_ok (wc_enc_out wc) (nt_server n)
     \<and> nt_up n \<le> length (cn_out (nt_client n)) \<and> nt_down n \<le> length (sv_wire (nt_server n))
     \<and> read_by_server (server_trace tr) = List.map_filter (wc_dec_in wc) (take (nt_up n) (cn_out (nt_client n)))
     \<and> read_by_client tr = List.map_filter (wc_dec_out wc) (take (nt_down n) (sv_wire (nt_server n)))
     \<and> subseq (received sid (server_trace tr) @ buffered sid (sv_srv (nt_server n))) (payloads_of sid (read_by_server (server_trace tr)))"

lemma net_ok_sides:
  assumes "net_ok wc sid tr n" and "net_step cfg wc pr n ev u"
  shows "out_ok (wc_enc_in wc) (nt_client u)" and "wire_ok (wc_enc_out wc) (nt_server u)"
    and "\<exists>ds. cn_out (nt_client u) = cn_out (nt_client n) @ ds" and "\<exists>ds. sv_wire (nt_server u) = sv_wire (nt_server n) @ ds"
  using net_client_step[OF assms(2)] net_server_step[OF assms(2)] assms(1) out_ok_step wire_ok_step conn_out_grows serve_wire_grows
  by (fastforce simp: net_ok_def)+

lemma net_ok_handler:
  assumes "net_ok wc sid tr n" and "net_step cfg wc pr n ev u"
  shows "subseq (received sid (server_trace (tr @ [ev])) @ buffered sid (sv_srv (nt_server u)))
    (payloads_of sid (read_by_server (server_trace (tr @ [ev]))))"
proof -
  have keep: "server_trace (tr @ [ev]) = server_trace tr \<and> buffered sid (sv_srv (nt_server u)) = buffered sid (sv_srv (nt_server n))"
    if "\<nexists>e. ev = ServerStep (Act e)"
  proof -
    have "server_trace (tr @ [ev]) = server_trace tr"
      using that by (simp add: server_trace_def map_filter_snoc split: net_event.splits serve_event.splits)
    moreover have "buffered sid (closeAllSessions s) = buffered sid s" for s
      by (simp add: buffered_def closeAllSessions_def safeCloseRecvCh_def split: option.splits)
    moreover have "sv_srv (nt_server u) = sv_srv (nt_server n) \<or> sv_srv (nt_server u) = closeAllSessions (sv_srv (nt_server n))"
      using net_server_step[OF assms(2)]
    proof
      assume "\<exists>e. ev = ServerStep e \<and> serve_step cfg (wc_enc_out wc) (nt_server n) e (nt_server u)"
      then obtain e where e: "ev = ServerStep e" "serve_step cfg (wc_enc_out wc) (nt_server n) e (nt_server u)" by blast
      from serve_step_srv[OF e(2)] e(1) that show ?thesis by (cases e) auto
    qed simp
    ultimately show ?thesis by auto
  qed
  have old: "subseq (received sid (server_trace tr) @ buffered sid (sv_srv (nt_server n))) (payloads_of sid (read_by_server (server_trace tr)))"
    using assms(1) unfolding net_ok_def by blast
  show ?thesis
  proof (cases "\<exists>e. ev = ServerStep (Act e)")
    case True
    then obtain e where e: "ev = ServerStep (Act e)" by blast
    then have "server_trace (tr @ [ev]) = server_trace tr @ [e]" by (simp add: server_trace_def map_filter_snoc)
    moreover have "server_step cfg (sv_srv (nt_server n)) e (sv_srv (nt_server u))"
    proof -
      have "serve_step cfg (wc_enc_out wc) (nt_server n) (Act e) (nt_server u)" using net_server_step[OF assms(2)] e by simp
      from serve_step_srv[OF this] show ?thesis by simp
    qed
    ultimately show ?thesis
      using received_from_read[OF old] by simp
  next
    case False
    with keep old show ?thesis by simp
  qed
qed

lemma net_ok_step:
  assumes "net_ok wc sid tr n" and "net_step cfg wc pr n ev u"
  shows "net_ok wc sid (tr @ [ev]) u"
proof -
  note sides = net_ok_sides[OF assms] and handler = net_ok_handler[OF assms]
  obtain ds where ds: "cn_out (nt_client u) = cn_out (nt_client n) @ ds" using sides(3) by blast
  obtain es where es: "sv_wire (nt_server u) = sv_wire (nt_server n) @ es" using sides(4) by blast
  have old: "nt_up n \<le> length (cn_out (nt_client n))" "nt_down n \<le> length (sv_wire (nt_server n))"
    "read_by_server (server_trace tr) = List.map_filter (wc_dec_in wc) (take (nt_up n) (cn_out (nt_client n)))"
    "read_by_client tr = List.map_filter (wc_dec_out wc) (take (nt_down n) (sv_wire (nt_server n)))"
    using assms(1) by (simp_all add: net_ok_def)
  from assms(2) have "nt_up u \<le> length (cn_out (nt_client u)) \<and> nt_down u \<le> length (sv_wire (nt_server u))
     \<and> read_by_server (server_trace (tr @ [ev])) = List.map_filter (wc_dec_in wc) (take (nt_up u) (cn_out (nt_client u)))
     \<and> read_by_client (tr @ [ev]) = List.map_filter (wc_dec_out wc) (take (nt_down u) (sv_wire (nt_server u)))"
    using old ds es
    by cases (auto simp: server_trace_def read_by_server_def read_by_client_def map_filter_snoc take_Suc_conv_app_nth
        split: serve_event.splits event.splits)
  with sides(1,2) handler show ?thesis by (simp add: net_ok_def)
qed

lemma net_ok_start: "net_ok wc sid [] net_start"
  by (simp add: net_ok_def net_start_def out_ok_def accepted_def start_conn_def NewConn_def wire_ok_def encoded_def serve_init_def
      init_server_def map_filter_simps server_trace_def read_by_server_def read_by_client_def buffered_def payloads_of_def)

lemma net_run_ok: "net_run cfg wc pr n tr t \<Longrightarrow> net_ok wc sid [] n \<Longrightarrow> net_ok wc sid tr t"
  by (induction rule: net_run.induct) (auto intro: net_ok_step)

lemma decode_encoded:
  assumes "\<And>f d. enc f = Some d \<Longrightarrow> dec d = Some f"
  shows "List.map_filter dec (List.map_filter enc fs) = filter (\<lambda>f. enc f \<noteq> None) fs"
  using assms by (induction fs) (auto simp: map_filter_simps split: option.splits)

section \<open>Properties\<close>



section \<open>Witnesses\<close>

text \<open>A session is opened and given a payload, its handler takes it and closes, and the client reads the close.\<close>

definition two_frames :: wire_codec where
  "two_frames =
     \<lparr>wc_enc_in = (\<lambda>f. if f = open_frame ''1'' then Inr ''o'' else if f = client_frame ''message'' ''1'' ''a'' then Inr ''m'' else Inl EOF),
      wc_dec_in = (\<lambda>d. if d = ''o'' then Some (open_frame ''1'') else if d = ''m'' then Some (client_frame ''message'' ''1'' ''a'') else None),
      wc_enc_out = (\<lambda>f. if f = close_frame ''1'' then Some ''c'' else None),
      wc_dec_out = (\<lambda>d. if d = ''c'' then Some (close_frame ''1'') else None)\<rparr>"

definition sent_up :: conn_run where
  [go_eval]: "sent_up = start_conn\<lparr>cn_out := [''o'', ''m''],
     cn_client := NewConn\<lparr>c_wire := [open_frame ''1'', client_frame ''message'' ''1'' ''a'']\<rparr>\<rparr>"

definition sent_down :: serve_state where
  [go_eval]: "sent_down = (serve_init init_server)\<lparr>sv_srv := opened\<lparr>sent := [close_frame ''1'']\<rparr>, sv_wire := [''c'']\<rparr>"

definition exchange :: "net_event list" where
  [go_eval]: "exchange = map ClientStep [SendFrame None, SendFrame None, WriteStep, WriteStep] @
     map ServerStep [Act (In (open_frame ''1'')), Act (In (client_frame ''message'' ''1'' ''a'')), Act (HandlerRecv ''1'' (Some ''a'')),
       Act (HandlerWrite (close_frame ''1'')), WriterStep] @ [ClientRead (close_frame ''1'')]"

lemma net_more1: "net_run cfg wc pr n tr t \<Longrightarrow> net_step cfg wc pr t ev u \<Longrightarrow> tr' = tr @ [ev] \<Longrightarrow> net_run cfg wc pr n tr' u"
  by (simp add: net_run.net_more)

lemma client_half:
  "net_run example_cfg two_frames example_proto net_start (map ClientStep [SendFrame None, SendFrame None, WriteStep, WriteStep])
     (net_start\<lparr>nt_client := sent_up\<rparr>)"
proof -
  let ?o = "open_frame ''1''" and ?m = "client_frame ''message'' ''1'' ''a''"
  let ?c1 = "start_conn\<lparr>cn_queue := [''o''], cn_client := NewConn\<lparr>c_wire := [?o]\<rparr>\<rparr>"
  let ?c2 = "start_conn\<lparr>cn_queue := [''o'', ''m''], cn_client := NewConn\<lparr>c_wire := [?o, ?m]\<rparr>\<rparr>"
  let ?c3 = "?c2\<lparr>cn_queue := [''m''], cn_out := [''o'']\<rparr>"
  have ne: "?m \<noteq> ?o" by (simp add: open_frame_def client_frame_def frameTypeOpen_def)
  have "Conn_send (wc_enc_in two_frames) ?o start_conn None ?c1"
    using Conn_send.send_queued[of "wc_enc_in two_frames" ?o "''o''" start_conn]
    by (simp add: two_frames_def start_conn_def clientWriteBuf_def client_send_def NewConn_def)
  then have 1: "conn_step (wc_enc_in two_frames) example_proto start_conn (SendFrame None) ?c1" by (rule conn_step.send)
  have "Conn_send (wc_enc_in two_frames) ?m ?c1 None ?c2"
    using Conn_send.send_queued[of "wc_enc_in two_frames" ?m "''m''" ?c1] ne
    by (simp add: two_frames_def start_conn_def clientWriteBuf_def client_send_def NewConn_def)
  then have 2: "conn_step (wc_enc_in two_frames) example_proto ?c1 (SendFrame None) ?c2" by (rule conn_step.send)
  have 3: "conn_step (wc_enc_in two_frames) example_proto ?c2 WriteStep ?c3"
    using conn_step.writes[OF writeLoop.write_ok[of ?c2 "''o''" "[''m'']"]] by (simp add: start_conn_def)
  have 4: "conn_step (wc_enc_in two_frames) example_proto ?c3 WriteStep sent_up"
    using conn_step.writes[OF writeLoop.write_ok[of ?c3 "''m''" "[]"]] by (simp add: start_conn_def sent_up_def)
  have step: "net_step example_cfg two_frames example_proto (net_start\<lparr>nt_client := c\<rparr>) (ClientStep ev) (net_start\<lparr>nt_client := c'\<rparr>)"
    if "conn_step (wc_enc_in two_frames) example_proto c ev c'" "ev \<noteq> ReadStep" for c c' ev
    using net_step.client_acts[of two_frames example_proto "net_start\<lparr>nt_client := c\<rparr>" ev c' example_cfg] that by simp
  have "net_start\<lparr>nt_client := start_conn\<rparr> = net_start" by (simp add: net_start_def)
  with net_run.net_begin have "net_run example_cfg two_frames example_proto net_start [] (net_start\<lparr>nt_client := start_conn\<rparr>)" by metis
  from net_more1[OF net_more1[OF net_more1[OF net_more1[OF this step[OF 1] refl] step[OF 2] refl] step[OF 3] refl] step[OF 4] refl]
  show ?thesis by simp
qed

lemma quiet_act:
  assumes "exec_event cfg ev srv = Some srv'" and "sent srv' = sent srv"
  shows "serve_step cfg enc (serve_init srv) (Act ev) (serve_init srv')"
  using serve_step.quiet[of cfg "serve_init srv" ev srv' enc] assms by (simp add: exec_event_step serve_init_def)

lemma server_half:
  "net_run example_cfg two_frames example_proto net_start exchange
     \<lparr>nt_client = sent_up, nt_server = sent_down, nt_up = 2, nt_down = 1\<rparr>"
proof -
  let ?wc = two_frames and ?m = "client_frame ''message'' ''1'' ''a''"
  let ?fed = "opened\<lparr>sessions := [''1'' \<mapsto> new_session\<lparr>si_recvCh := [''a'']\<rparr>]\<rparr>"
  let ?s8 = "(serve_init (opened\<lparr>sent := [close_frame ''1'']\<rparr>))\<lparr>sv_queue := [''c'']\<rparr>"
  have ne: "?m \<noteq> open_frame ''1''" by (simp add: open_frame_def client_frame_def frameTypeOpen_def)
  have "exec_event example_cfg (In (open_frame ''1'')) init_server = Some opened" "exec_event example_cfg (In ?m) opened = Some ?fed"
    "exec_event example_cfg (HandlerRecv ''1'' (Some ''a'')) ?fed = Some opened"
    by (simp_all add: go_eval frameTypeOpen_def)
  from this(1)[THEN quiet_act, of "wc_enc_out ?wc"] this(2)[THEN quiet_act, of "wc_enc_out ?wc"] this(3)[THEN quiet_act, of "wc_enc_out ?wc"]
  have acts: "serve_step example_cfg (wc_enc_out ?wc) (serve_init init_server) (Act (In (open_frame ''1''))) (serve_init opened)"
    "serve_step example_cfg (wc_enc_out ?wc) (serve_init opened) (Act (In ?m)) (serve_init ?fed)"
    "serve_step example_cfg (wc_enc_out ?wc) (serve_init ?fed) (Act (HandlerRecv ''1'' (Some ''a''))) (serve_init opened)"
    by (simp_all add: opened_def init_server_def)
  have "serve_writeFn (wc_enc_out ?wc) (close_frame ''1'') (serve_init opened) ((serve_init opened)\<lparr>sv_queue := [''c'']\<rparr>)"
    using serve_writeFn.queued[of "wc_enc_out ?wc" "close_frame ''1''" "''c''" "serve_init opened"]
    by (simp add: two_frames_def serve_init_def writeBufSize_def)
  from serve_step.writes[of example_cfg "serve_init opened" "HandlerWrite (close_frame ''1'')" "opened\<lparr>sent := [close_frame ''1'']\<rparr>", OF _ _ _ this]
  have act8: "serve_step example_cfg (wc_enc_out ?wc) (serve_init opened) (Act (HandlerWrite (close_frame ''1''))) ?s8"
    using opened_answer by (simp add: serve_init_def opened_def)
  have act9: "serve_step example_cfg (wc_enc_out ?wc) ?s8 WriterStep sent_down"
    using serve_step.writer[OF runWriter.written[of ?s8 "''c''" "[]"]] by (simp add: serve_init_def sent_down_def opened_def)
  let ?n = "\<lambda>s up down. \<lparr>nt_client = sent_up, nt_server = s, nt_up = up, nt_down = down\<rparr>"
  have srv: "net_step example_cfg ?wc example_proto (?n s up 0) (ServerStep ev) (?n s' up 0)"
    if "serve_step example_cfg (wc_enc_out ?wc) s ev s'" "\<And>f. ev \<noteq> Act (In f)" for s ev s' up
    using net_step.server_acts[of example_cfg ?wc "?n s up 0" ev s' example_proto] that by simp
  have n4: "net_run example_cfg ?wc example_proto net_start (map ClientStep [SendFrame None, SendFrame None, WriteStep, WriteStep])
      (?n (serve_init init_server) 0 0)"
    using client_half by (simp add: net_start_def)
  have dec: "wc_dec_in ?wc ''o'' = Some (open_frame ''1'')" "wc_dec_in ?wc ''m'' = Some ?m" "cn_out sent_up = [''o'', ''m'']"
    by (simp_all add: two_frames_def sent_up_def)
  have n5: "net_step example_cfg ?wc example_proto (?n (serve_init init_server) 0 0) (ServerStep (Act (In (open_frame ''1'')))) (?n (serve_init opened) 1 0)"
    using net_step.server_reads[of "?n (serve_init init_server) 0 0" ?wc "open_frame ''1''" example_cfg "serve_init opened" example_proto] acts(1)
    dec by simp
  have n6: "net_step example_cfg ?wc example_proto (?n (serve_init opened) 1 0) (ServerStep (Act (In ?m))) (?n (serve_init ?fed) 2 0)"
    using net_step.server_reads[of "?n (serve_init opened) 1 0" ?wc ?m example_cfg "serve_init ?fed" example_proto] acts(2)
    dec by (simp add: numeral_2_eq_2)
  have n10: "net_step example_cfg ?wc example_proto (?n sent_down 2 0) (ClientRead (close_frame ''1'')) (?n sent_down 2 1)"
    using net_step.client_reads[of "?n sent_down 2 0" ?wc "close_frame ''1''" example_cfg example_proto]
    by (simp add: sent_up_def sent_down_def two_frames_def start_conn_def NewConn_def client_read_def)
  from net_more1[OF net_more1[OF net_more1[OF net_more1[OF net_more1[OF net_more1[OF n4 n5 refl] n6 refl] srv[OF acts(3)] refl]
      srv[OF act8] refl] srv[OF act9] refl] n10 refl]
  show ?thesis by (simp add: exchange_def)
qed

lemma two_frames_laws:
  "wc_enc_in two_frames f = Inr d \<Longrightarrow> wc_dec_in two_frames d = Some f"
  "wc_enc_out two_frames g = Some d \<Longrightarrow> wc_dec_out two_frames d = Some g"
  by (auto simp: two_frames_def split: if_splits)



end
