(* ===== verification/Spec2Isabelle.thy ===== *)
theory Spec2Isabelle
  imports Interceptor CliFlag ConfigLoad ConfigFile CliTree Connect CodegenGen CodegenFormat KvMain WsNet
begin

text \<open>
  A model of procframe: procedures declared in protobuf services, exposed by one handler over a command line,
  over Connect and over WebSocket, with a configuration loader, by a runtime and a generator that emits the
  code which binds a service to the runtime.

  The program's parts and their theories.

  \<^item> The framework (package \<open>procframe\<close>). \<open>Errors\<close> models \<open>errors.go\<close>: an error is a sentinel, a formatted text
    with the error it wraps, or a \<open>StatusError\<close>; \<open>StatusOf\<close> walks the chain. \<open>Interceptor\<close> models
    \<open>interceptor.go\<close> with the request, response, stream and handler types: a connection is a record of two
    functions on a state, a handler is a function of the context and the connection, or, where a stream is
    read, a program of receives. \<open>Boundary\<close> is the contract of the error boundary all transports share, as a
    locale; \<open>CliGlobal\<close>, \<open>Connect\<close> and \<open>WsHandlers\<close> interpret it on their own functions.
  \<^item> Configuration (\<open>config/\<close>). \<open>Bootstrap\<close> is \<open>bootstrap.go\<close>, \<open>ConfigParse\<close> is \<open>parse.go\<close>, \<open>env.go\<close>, \<open>required.go\<close>
    and \<open>redact.go\<close>, \<open>ConfigLoad\<close> is \<open>load.go\<close> and \<open>spec.go\<close>, \<open>ConfigFile\<close> is \<open>file.go\<close>. \<open>Codec\<close> holds the locales of a
    text codec and of a repeated one, interpreted on the scalar parsers here and on the flag values.
  \<^item> The command line (\<open>transport/cli/\<close>). \<open>CliFlag\<close> is \<open>flag.go\<close>, \<open>CliGlobal\<close> the context of \<open>format.go\<close> and
    \<open>runner.go\<close>, the global flags and the error output, \<open>CliTree\<close> is \<open>node.go\<close>, \<open>help.go\<close> and the runner's walk down
    the command tree, with the part of package \<open>flag\<close> it calls. A node is a datatype, a command's \<open>Run\<close> is a
    function of context, arguments and the program's state.
  \<^item> Connect (\<open>transport/connect/\<close>): \<open>Connect\<close> is \<open>connect.go\<close> and \<open>errors.go\<close>.
  \<^item> WebSocket (\<open>transport/ws/\<close>). \<open>WsHandlers\<close> is \<open>frame.go\<close>, \<open>errors.go\<close>, \<open>option.go\<close>, \<open>stream.go\<close> and what the
    goroutine of a session runs in \<open>server.go\<close>. \<open>WsServer\<close> is the read loop of \<open>server.go\<close> as a step relation: an
    event is a frame read, a payload taken by a handler, the two steps in which a handler leaves, or the end of
    the connection. \<open>WsServe\<close> adds \<open>ServeHTTP\<close>, the bounded channel of encoded frames, the goroutine that writes
    them, and the shutdown. \<open>WsClient\<close> is \<open>client.go\<close>, \<open>client_stream.go\<close> and \<open>call.go\<close> as operations of callers,
    \<open>WsConn\<close> the two loops, the write channel and the teardown of \<open>client.go\<close> as interleaved steps with them.
    \<open>WsNet\<close> joins a client connection and a server connection by two streams of bytes.
  \<^item> The generator (\<open>internal/codegen/\<close>, \<open>cmd/protoc-gen-procframe-go/\<close>). \<open>CodegenNaming\<close> is \<open>naming.go\<close> and
    \<open>params.go\<close>, \<open>CodegenTree\<close> is \<open>tree.go\<close> with the order of declarations and the duplicate check, \<open>CodegenConfig\<close>
    is \<open>config_model.go\<close> and the configuration half of \<open>options.go\<close> and \<open>validate.go\<close>, \<open>CodegenOptions\<close> the service
    half, \<open>CodegenLoader\<close> is \<open>config.go\<close> without the formatter, which is \<open>CodegenFormat\<close>. Of \<open>cli.go\<close>, \<open>CodegenFlags\<close> holds the flags and the help, \<open>CodegenRequest\<close> the
    request construction with \<open>transport/cli/json.go\<close>, \<open>CodegenRun\<close> the bodies of commands with
    \<open>transport/cli/stream.go\<close>, \<open>CodegenCli\<close> the declarations of nodes, the schema command with
    \<open>transport/cli/schema.go\<close>, and the constructor of the runner. \<open>CodegenServe\<close> is \<open>handler.go\<close>, \<open>connect.go\<close>,
    \<open>ws.go\<close>, \<open>connect_client.go\<close> and \<open>ws_client.go\<close>. \<open>CodegenGen\<close> is \<open>gen.go\<close> and the plugin's loop. \<open>CodegenApp\<close>
    composes tree, constructor and runner.
  \<^item> The example (\<open>examples/\<close>). \<open>KvExample\<close> is the generated file \<open>examples/gen/kv/v1/kv.proc.go\<close>, translated by hand, and
    the descriptor of its service, with the equivalence to what the generator's model emits for it; \<open>KvMain\<close> is
    \<open>examples/kv/main.go\<close>, run from its arguments to its exit code.
  \<^item> \<open>Prelude\<close>, \<open>GoStd\<close>, \<open>GoStrconv\<close> and \<open>GoJson\<close> hold the fact collections, the loop combinators and what the program
    uses of Go's standard library.

  How code is represented. A definition carries the name of the function it models, with a prefix where two
  packages share one. Strings are lists of bytes. Integers keep their width (\<open>int32\<close> and the like are words);
  session counters wrap around. A function that returns an error and a value returns a sum, one that changes
  state returns the state. A panic is \<open>None\<close> where a call may have one, or an outcome of its own. Functions the
  generator prints are modelled in one of two ways: where only the text matters (a declaration, a registration, a
  signature) by a datatype of what is printed, and where the text runs (a parser, a command, a loader) by a
  function that does what the printed code does, from the descriptor the generator reads.

  What the lemmas show.

  \<^item> End to end: for every value of a request without messages, maps or bytes there is a command line on which
    the generated program gives that request to the handler and prints the response (\<open>CodegenApp\<close>); a call of
    the generated WebSocket client opens the session of the method on the server that ran the generated
    registrations, one of the Connect client reaches the procedure of its method (\<open>CodegenServe\<close>); a unary call
    over WebSocket returns what the handler returned (\<open>WsClient\<close>); in every interleaving of both connections the
    handlers of a session get payloads of the client's, in order, and the client frames of the server's
    (\<open>WsNet\<close>); the checked-in example is what the generator emits, and prints and exits as its store says for every
    key and prefix (\<open>KvExample\<close>, \<open>KvMain\<close>).
  \<^item> Emitted code compiles as far as the model sees it: each flag writes to a variable of its type, each
    registration takes its handler, each client implements its interface; a file that passes the validation,
    none of whose command paths is a strict prefix of another, is generated without a panic, and every
    declaration comes after those it uses.
  \<^item> Configuration: the bootstrap parser accepts exactly the grammar it documents; the precedence of flag,
    environment, file and default; conflicts, required fields, secrets that no error repeats and no formatted configuration tells apart.
  \<^item> Transports: interceptors nest in order and change nothing unless they mean to; the session machine never
    panics, bounds its handlers and delivers in order; sessions end with one terminal frame; every receive
    returns after the connection is gone; the server's shutdown and the client's teardown come to an end. What does
    not hold is stated too: one session nobody receives from stops all sessions of its connection, and a call
    on a connection that is gone may wait for ever (\<open>WsConn\<close>).

  Bounds and fuel. No definition uses fuel: loops are recursion on the list they walk, on the text a scanner
  has left, or on the height of a tree. A scanner's line is at most 65535 bytes, a session's buffer 64 payloads,
  a write channel 64 frames, as in the code. Runs of the server are finite sequences of events of any length. The distinctness of session
  identifiers is stated for up to \<open>2 ^ 64\<close> sessions, the range of the counter.

  Parameters. \<open>protojson\<close>, \<open>proto.Merge\<close> and \<open>json.Valid\<close> are functions of a record; so are \<open>ParseFloat\<close> and
  \<open>FormatFloat\<close>, the JSON decoder of configuration files, the file system and the environment. Handlers,
  interceptors and error mappers are arguments. Where a property needs more of them than their type, the law
  is a hypothesis and a witness shows an instance.

  Goroutines. A step is what a goroutine does between two points at which it may wait; data races and the memory
  model are not modelled, and the mutexes of the code are what makes these steps atomic. Reads and writes of the
  websocket package succeed or fail at any time; \<open>Conn.Close\<close> is a read that fails.

  Not modelled. \<open>WithStdout\<close> and \<open>WithStderr\<close>: standard output is part of the state. The mux of \<open>net/http\<close>, connectrpc, the printing of
  protogen and the \<open>--version\<close> output. Generated protobuf code and the generated code of the generator's own
  tests (\<open>gen/\<close>, \<open>internal/gen/\<close>). Cancellation of contexts is seen only where
  the transport asks for it. Optional fields and oneofs of proto3 are not told from plain ones.
\<close>

end
